(* ===== verification/JS_Prelude.thy ===== *)
theory JS_Prelude
  imports Complex_Main "HOL-Library.List_Lexorder" "HOL-Library.AList" "HOL-Library.Multiset"
begin

text \<open>
  What the components share: strings, numbers and errors of the source language, the ordered
  dictionary \<open>Map\<close>, and generic facts about lists and options.

  \<^item> A string is the list of its UTF-16 code units (\<open>str\<close>); \<open>js ''abc''\<close> is a literal. The order on
    strings is the lexicographic one of List_Lexorder, the source's \<open><\<close> on strings.
  \<^item> A number is a rational (\<open>jsnum\<close>): amounts are integers in minor units, rates are fractions.
    Rounding of IEEE-754 doubles, NaN and the infinities are not modelled.
  \<^item> A thrown value is an element of \<open>js_error\<close>, and a call that may throw returns
    \<open>js_error + 'a\<close>.
  \<^item> A \<open>Map\<close> keeps insertion order: it is an association list with distinct keys under
    \<open>AList.update\<close> (which overwrites in place or appends) and \<open>AList.delete\<close>.
\<close>

section \<open>Automation shared by the components\<close>

named_theorems ledger_simps \<open>what each store operation does to each part of the store\<close>
named_theorems audit_simps \<open>what each audit operation does to the chain\<close>

section \<open>Strings\<close>

type_synonym str = "nat list"

definition js :: "string \<Rightarrow> str" where
  "js s = map of_char s"

lemma inj_of_char_nat: "inj (of_char :: char \<Rightarrow> nat)"
  by (rule injI) simp

lemma js_inject [simp]: "js s = js t \<longleftrightarrow> s = t"
  unfolding js_def using inj_of_char_nat by (metis inj_map_eq_map)

lemma length_js [simp]: "length (js s) = length s"
  by (simp add: js_def)

lemma js_Nil [simp]: "js [] = []" and js_eq_Nil [simp]: "js s = [] \<longleftrightarrow> s = []"
  by (simp_all add: js_def)

text \<open>\<open>startsWith\<close>, \<open>trim\<close> and the decimal rendering of integers.\<close>

definition starts_with :: "str \<Rightarrow> str \<Rightarrow> bool" where
  "starts_with s p \<longleftrightarrow> take (length p) s = p"

lemma starts_with_append [simp]: "starts_with (p @ s) p"
  by (simp add: starts_with_def)

lemma starts_with_iff: "starts_with s p \<longleftrightarrow> (\<exists>t. s = p @ t)"
  unfolding starts_with_def by (metis append_take_drop_id append_eq_conv_conj)

text \<open>White space and line terminators, the characters that \<open>trim\<close> strips.\<close>

definition is_space :: "nat \<Rightarrow> bool" where
  "is_space c \<longleftrightarrow> (9 \<le> c \<and> c \<le> 13) \<or> c = 32 \<or> c = 160 \<or> c = 0x1680 \<or>
     (0x2000 \<le> c \<and> c \<le> 0x200a) \<or> c = 0x2028 \<or> c = 0x2029 \<or> c = 0x202f \<or>
     c = 0x205f \<or> c = 0x3000 \<or> c = 0xfeff"

definition trim :: "str \<Rightarrow> str" where
  "trim s = rev (dropWhile is_space (rev (dropWhile is_space s)))"

lemma set_trim: "set (trim s) \<subseteq> set s"
  by (auto simp: trim_def dest!: set_dropWhileD)

lemma length_trim_le: "length (trim s) \<le> length s"
proof -
  have "length (dropWhile P (xs :: nat list)) \<le> length xs" for P xs
    by (rule length_dropWhile_le)
  then show ?thesis unfolding trim_def by (metis length_rev order_trans)
qed

fun show_nat :: "nat \<Rightarrow> str" where
  "show_nat n = (if n < 10 then [48 + n] else show_nat (n div 10) @ [48 + n mod 10])"

declare show_nat.simps [simp del]

definition show_int :: "int \<Rightarrow> str" where
  "show_int i = (if i < 0 then 45 # show_nat (nat (- i)) else show_nat (nat i))"

lemma set_show_nat: "set (show_nat n) \<subseteq> {48..57}"
proof (induction n rule: show_nat.induct)
  case (1 n)
  then show ?case by (subst show_nat.simps) auto
qed

lemma show_nat_not_Nil [simp]: "show_nat n \<noteq> []"
  by (subst show_nat.simps) simp

lemma length_show_nat: "length (show_nat n) = 1 \<longleftrightarrow> n < 10"
  by (subst show_nat.simps) simp

lemma show_nat_inject [simp]: "show_nat m = show_nat n \<longleftrightarrow> m = n"
proof (induction m arbitrary: n rule: show_nat.induct)
  case (1 m)
  show ?case
  proof
    assume eq: "show_nat m = show_nat n"
    then have small: "m < 10 \<longleftrightarrow> n < 10" by (metis length_show_nat)
    show "m = n"
    proof (cases "m < 10")
      case True
      with eq small show ?thesis by (simp add: show_nat.simps [of m] show_nat.simps [of n])
    next
      case False
      with eq small have "show_nat (m div 10) = show_nat (n div 10)" "m mod 10 = n mod 10"
        by (simp_all add: show_nat.simps [of m] show_nat.simps [of n])
      with False "1.IH" have "m div 10 = n div 10" by blast
      with \<open>m mod 10 = n mod 10\<close> show ?thesis by (metis div_mult_mod_eq)
    qed
  qed simp
qed

lemma show_int_inject [simp]: "show_int i = show_int j \<longleftrightarrow> i = j"
proof -
  have digit: "show_nat n \<noteq> 45 # xs" for n xs
    using set_show_nat [of n] by auto
  show ?thesis
    by (auto simp: show_int_def digit digit [symmetric])
qed

lemma show_int_not_Nil [simp]: "show_int i \<noteq> []"
  by (simp add: show_int_def)

lemma set_show_int: "set (show_int i) \<subseteq> insert 45 {48..57}"
  using set_show_nat [of "nat i"] set_show_nat [of "nat (- i)"] by (auto simp: show_int_def)

section \<open>Numbers\<close>

type_synonym jsnum = rat

definition is_integer :: "jsnum \<Rightarrow> bool" where
  "is_integer x \<longleftrightarrow> of_int \<lfloor>x\<rfloor> = x"

text \<open>\<open>Math.round\<close> rounds halves towards plus infinity.\<close>

definition math_round :: "jsnum \<Rightarrow> jsnum" where
  "math_round x = of_int \<lfloor>x + 1 / 2\<rfloor>"

definition math_floor :: "jsnum \<Rightarrow> jsnum" where
  "math_floor x = of_int \<lfloor>x\<rfloor>"

definition math_ceil :: "jsnum \<Rightarrow> jsnum" where
  "math_ceil x = of_int \<lceil>x\<rceil>"

definition math_trunc :: "jsnum \<Rightarrow> jsnum" where
  "math_trunc x = (if x < 0 then math_ceil x else math_floor x)"

lemma is_integer_of_int [simp]: "is_integer (of_int i)"
  by (simp add: is_integer_def)

lemma is_integer_iff: "is_integer x \<longleftrightarrow> (\<exists>i. x = of_int i)"
  unfolding is_integer_def by (metis floor_of_int)

lemma is_integer_rounding [simp]:
  "is_integer (math_round x)" "is_integer (math_floor x)" "is_integer (math_ceil x)"
  by (simp_all add: math_round_def math_floor_def math_ceil_def)

lemma math_round_integer [simp]: "math_round (of_int i) = of_int i"
proof -
  have "\<lfloor>of_int i + 1 / 2 :: rat\<rfloor> = i" by (rule floor_unique) auto
  then show ?thesis by (simp add: math_round_def)
qed

lemma math_round_bounds: "x - 1 / 2 < math_round x" "math_round x \<le> x + 1 / 2"
  unfolding math_round_def by linarith+

lemma math_round_mono: "x \<le> y \<Longrightarrow> math_round x \<le> math_round y"
  by (simp add: math_round_def floor_mono)

lemma math_floor_le: "math_floor x \<le> x" and math_ceil_ge: "x \<le> math_ceil x"
  by (simp_all add: math_floor_def math_ceil_def)

section \<open>Errors\<close>

datatype js_error =
    RangeError
  | DuplicateKey str
  | NotFound str
  | NotPending str
  | Thrown str

fun bindE :: "'e + 'a \<Rightarrow> ('a \<Rightarrow> 'e + 'b) \<Rightarrow> 'e + 'b" where
  "bindE (Inl e) f = Inl e"
| "bindE (Inr x) f = f x"

lemma bindE_Inr_iff: "bindE m f = Inr y \<longleftrightarrow> (\<exists>x. m = Inr x \<and> f x = Inr y)"
  by (cases m) auto

text \<open>The operators \<open>a ?? b\<close> and \<open>a?.f\<close>.\<close>

definition nullish :: "'a option \<Rightarrow> 'a \<Rightarrow> 'a" where
  "nullish a b = (case a of Some x \<Rightarrow> x | None \<Rightarrow> b)"

lemma nullish_simps [simp]: "nullish (Some x) b = x" "nullish None b = b"
  by (simp_all add: nullish_def)

definition or_else :: "'a option \<Rightarrow> 'a option \<Rightarrow> 'a option" where
  "or_else a b = (case a of Some x \<Rightarrow> Some x | None \<Rightarrow> b)"

lemma or_else_simps [simp]: "or_else (Some x) b = Some x" "or_else None b = b"
  by (simp_all add: or_else_def)

section \<open>The ordered dictionary\<close>

text \<open>The laws of a dictionary that the components using one rely on.\<close>

locale dictionary =
  fixes get :: "'m \<Rightarrow> 'k \<Rightarrow> 'v option"
    and put :: "'k \<Rightarrow> 'v \<Rightarrow> 'm \<Rightarrow> 'm"
    and del :: "'k \<Rightarrow> 'm \<Rightarrow> 'm"
    and ok :: "'m \<Rightarrow> bool"
  assumes get_put: "get (put k v m) = (get m)(k \<mapsto> v)"
    and get_del: "get (del k m) = (get m)(k := None)"
    and ok_put: "ok m \<Longrightarrow> ok (put k v m)"
    and ok_del: "ok m \<Longrightarrow> ok (del k m)"
begin

lemma get_put_same [simp]: "get (put k v m) k = Some v"
  by (simp add: get_put)

lemma get_put_other: "k \<noteq> k' \<Longrightarrow> get (put k v m) k' = get m k'"
  by (simp add: get_put)

lemma get_del_same [simp]: "get (del k m) k = None"
  by (simp add: get_del)

lemma get_put_put: "get (put k v (put k w m)) = get (put k v m)"
  by (simp add: get_put)

lemma get_put_comm: "k \<noteq> k' \<Longrightarrow> get (put k v (put k' w m)) = get (put k' w (put k v m))"
  by (simp add: get_put fun_upd_twist)

end

type_synonym ('k, 'v) omap = "('k \<times> 'v) list"

abbreviation wf_omap :: "('k, 'v) omap \<Rightarrow> bool" where
  "wf_omap m \<equiv> distinct (map fst m)"

interpretation omap: dictionary map_of AList.update AList.delete wf_omap
  by unfold_locales (simp_all add: update_conv' delete_conv' distinct_update distinct_delete)

text \<open>Overwriting a present key changes that entry in place; a new key is appended.\<close>

lemma update_absent: "k \<notin> fst ` set m \<Longrightarrow> AList.update k v m = m @ [(k, v)]"
  by (induction m) auto

lemma map_fst_update_present:
  "map_of m k = Some w \<Longrightarrow> map fst (AList.update k v m) = map fst m"
  by (induction m) (auto split: if_splits)

lemma update_present_split:
  "wf_omap m \<Longrightarrow> map_of m k = Some w \<Longrightarrow>
     \<exists>xs ys. m = xs @ (k, w) # ys \<and> (\<forall>v. AList.update k v m = xs @ (k, v) # ys)"
proof (induction m)
  case Nil
  then show ?case by simp
next
  case (Cons p m)
  obtain k' w' where p: "p = (k', w')" by (cases p)
  show ?case
  proof (cases "k' = k")
    case True
    with Cons.prems p show ?thesis by (intro exI [of _ "[]"] exI [of _ m]) auto
  next
    case False
    with Cons p obtain xs ys where
      "m = xs @ (k, w) # ys" "\<forall>v. AList.update k v m = xs @ (k, v) # ys" by auto
    with False p show ?thesis by (intro exI [of _ "p # xs"] exI [of _ ys]) auto
  qed
qed

section \<open>Lists\<close>

text \<open>The elements of a \<open>Set\<close> built from a list, in insertion order.\<close>

definition js_set :: "'a list \<Rightarrow> 'a list" where
  "js_set xs = rev (remdups (rev xs))"

lemma js_set_props [simp]: "set (js_set xs) = set xs" "distinct (js_set xs)"
  by (simp_all add: js_set_def)

text \<open>Applying a throwing function to every element, stopping at the first error.\<close>

fun mapE :: "('a \<Rightarrow> 'e + 'b) \<Rightarrow> 'a list \<Rightarrow> 'e + 'b list" where
  "mapE f [] = Inr []"
| "mapE f (x # xs) = bindE (f x) (\<lambda>y. bindE (mapE f xs) (\<lambda>ys. Inr (y # ys)))"

lemma mapE_Inr_iff: "mapE f xs = Inr ys \<longleftrightarrow> list_all2 (\<lambda>x y. f x = Inr y) xs ys"
  by (induction xs arbitrary: ys) (auto simp: bindE_Inr_iff list_all2_Cons1)

text \<open>\<open>Object.fromEntries\<close>: the last pair with a key wins.\<close>

definition fromEntries :: "('k \<times> 'v) list \<Rightarrow> ('k, 'v) omap" where
  "fromEntries kvs = foldl (\<lambda>m (k, v). AList.update k v m) [] kvs"

lemma map_of_fromEntries: "map_of (fromEntries kvs) = map_of (rev kvs)"
proof -
  have "map_of (foldl (\<lambda>m (k, v). AList.update k v m) m0 kvs) = map_of m0 ++ map_of (rev kvs)" for m0
    by (induction kvs arbitrary: m0) (auto simp: omap.get_put)
  from this [of "[]"] show ?thesis by (simp add: fromEntries_def)
qed

lemma find_SomeD: "List.find P xs = Some x \<Longrightarrow> x \<in> set xs \<and> P x"
  by (auto simp: find_Some_iff)

lemma find_None_iff': "List.find P xs = None \<longleftrightarrow> (\<forall>x \<in> set xs. \<not> P x)"
  by (auto simp: find_None_iff)

lemma find_append:
  "List.find P (xs @ ys) = (case List.find P xs of Some z \<Rightarrow> Some z | None \<Rightarrow> List.find P ys)"
  by (induction xs) auto

lemma sum_list_map_filter_le:
  fixes f :: "'a \<Rightarrow> 'b::ordered_comm_monoid_add"
  assumes "\<And>x. x \<in> set xs \<Longrightarrow> P x \<Longrightarrow> Q x" and "\<And>x. x \<in> set xs \<Longrightarrow> 0 \<le> f x"
  shows "sum_list (map f (filter P xs)) \<le> sum_list (map f (filter Q xs))"
  using assms
proof (induction xs)
  case Nil
  then show ?case by simp
next
  case (Cons x xs)
  then have IH: "sum_list (map f (filter P xs)) \<le> sum_list (map f (filter Q xs))" by simp
  from Cons.prems have x: "P x \<Longrightarrow> Q x" "0 \<le> f x" by auto
  show ?case
    using IH x add_increasing [of "f x"] by (auto intro: add_left_mono)
qed

section \<open>Splitting and joining\<close>

text \<open>\<open>s.split(c)\<close> for a separator of one character.\<close>

fun split_char :: "nat \<Rightarrow> str \<Rightarrow> str list" where
  "split_char c [] = [[]]"
| "split_char c (x # s) =
     (if x = c then [] # split_char c s
      else (case split_char c s of p # ps \<Rightarrow> (x # p) # ps | [] \<Rightarrow> [[x]]))"

text \<open>\<open>lines.join("\n")\<close>.\<close>

fun join_lines :: "str list \<Rightarrow> str" where
  "join_lines [] = []"
| "join_lines [l] = l"
| "join_lines (l # m # ls) = l @ 10 # join_lines (m # ls)"

lemma first_sep_unique:
  "c \<notin> set l \<Longrightarrow> c \<notin> set m \<Longrightarrow> l @ c # x = m @ c # y \<Longrightarrow> l = m \<and> x = y"
proof (induction l arbitrary: m)
  case Nil
  then show ?case by (cases m) auto
next
  case (Cons a l)
  then show ?case by (cases m) auto
qed

lemma split_char_not_Nil [simp]: "split_char c s \<noteq> []"
  by (induction s) (auto split: list.splits)

lemma split_char_none: "c \<notin> set l \<Longrightarrow> split_char c l = [l]"
  by (induction l) auto

lemma split_char_append: "c \<notin> set l \<Longrightarrow> split_char c (l @ c # s) = l # split_char c s"
  by (induction l) (auto split: list.splits)

lemma split_join_lines: "\<forall>l \<in> set ls. 10 \<notin> set l \<Longrightarrow> ls \<noteq> [] \<Longrightarrow> split_char 10 (join_lines ls) = ls"
  by (induction ls rule: join_lines.induct) (simp_all add: split_char_none split_char_append)

end
