(* ===== verification/JS_Date.thy ===== *)
theory JS_Date
  imports JS_Prelude
begin

text \<open>
  The calendar of the language's \<open>Date\<close>, as the kernel uses it: an instant is an integer number of
  milliseconds since 1970-01-01 UTC, \<open>toISOString\<close> renders it, \<open>new Date(s).getTime()\<close> reads such
  a string back (\<open>date_parse\<close>, None for NaN), and \<open>Date.UTC(y, m, d)\<close> builds one from a year, a
  month index and a day that may run below 1.

  \<open>to_iso\<close> throws the source's \<open>RangeError\<close> outside \<open>\<plusminus>8.64e15\<close> ms and renders the years 0 to 9999
  in four digits; the signed six-digit form of other years is rendered too. \<open>date_parse\<close> reads the
  canonical 24-character form only: other spellings the engine also accepts are not modelled and
  read as NaN here.

  The main facts: reading back what was rendered gives the same instant, and the lexicographic
  order on rendered strings, the order the gate and the stores compare time stamps with, is the
  order of the instants.
\<close>

section \<open>Civil calendar\<close>

definition ms_per_day :: int where
  "ms_per_day = 86400000"

definition days_from_year :: "int \<Rightarrow> int" where
  "days_from_year y =
     365 * (y - 1970) + (y - 1969) div 4 - (y - 1901) div 100 + (y - 1601) div 400"

definition leap_year :: "int \<Rightarrow> bool" where
  "leap_year y \<longleftrightarrow> y mod 4 = 0 \<and> (y mod 100 \<noteq> 0 \<or> y mod 400 = 0)"

definition year_from_day :: "int \<Rightarrow> int" where
  "year_from_day d =
     (let y = 1970 + (400 * d) div 146097
      in if d < days_from_year y then y - 1
         else if days_from_year (y + 1) \<le> d then y + 1 else y)"

text \<open>Days before the first of a month (index 0 is January).\<close>

fun month_offset :: "bool \<Rightarrow> nat \<Rightarrow> int" where
  "month_offset leap m =
     ([0, 31, 59, 90, 120, 151, 181, 212, 243, 273, 304, 334, 365] ! m) +
     (if leap \<and> 2 \<le> m then 1 else 0)"

definition month_from_doy :: "bool \<Rightarrow> int \<Rightarrow> nat" where
  "month_from_doy leap doy = length (takeWhile (\<lambda>m. month_offset leap m \<le> doy) [1..<12])"

lemma int_div_succ:
  fixes a k :: int
  assumes "0 < k"
  shows "(a + 1) div k = a div k + (if (a + 1) mod k = 0 then 1 else 0)"
proof -
  let ?q = "a div k" and ?r = "a mod k"
  have a: "a = k * ?q + ?r" and r: "0 \<le> ?r" "?r < k" using assms by simp_all
  show ?thesis
  proof (cases "?r = k - 1")
    case True
    with a have "a + 1 = k * (?q + 1)" by (simp add: algebra_simps)
    with assms show ?thesis by simp
  next
    case False
    with r have "?r + 1 < k" "0 \<le> ?r + 1" by simp_all
    moreover from a have "a + 1 = k * ?q + (?r + 1)" by simp
    ultimately have "(a + 1) div k = ?q" "(a + 1) mod k = ?r + 1"
      by (blast intro: int_div_pos_eq, blast intro: int_mod_pos_eq)
    with r show ?thesis by simp
  qed
qed

lemma mod_shift: "(y - c * k) mod k = y mod (k :: int)"
  using mod_mult_self1 [of y "- c" k] by simp

lemma leap_count:
  "\<lbrakk>b \<Longrightarrow> a; c \<Longrightarrow> b\<rbrakk> \<Longrightarrow>
   (if a \<and> (\<not> b \<or> c) then 1 else 0 :: int) =
   (if a then 1 else 0) - (if b then 1 else 0) + (if c then 1 else 0)"
  by auto

lemma days_from_year_step:
  "days_from_year (y + 1) = days_from_year y + 365 + (if leap_year y then 1 else 0)"
proof -
  have shift: "(y - 1968) mod 4 = y mod 4" "(y - 1900) mod 100 = y mod 100"
    "(y - 1600) mod 400 = y mod 400"
    using mod_shift [of y 492 4] mod_shift [of y 19 100] mod_shift [of y 4 400] by simp_all
  have 4: "(y - 1968) div 4 = (y - 1969) div 4 + (if y mod 4 = 0 then 1 else 0)"
    using int_div_succ [of 4 "y - 1969"] shift(1) by simp
  have 100: "(y - 1900) div 100 = (y - 1901) div 100 + (if y mod 100 = 0 then 1 else 0)"
    using int_div_succ [of 100 "y - 1901"] shift(2) by simp
  have 400: "(y - 1600) div 400 = (y - 1601) div 400 + (if y mod 400 = 0 then 1 else 0)"
    using int_div_succ [of 400 "y - 1601"] shift(3) by simp
  have "(4 :: int) dvd 100" "(100 :: int) dvd 400" by simp_all
  from this(1) [THEN dvd_trans, of y] this(2) [THEN dvd_trans, of y]
  have "y mod 100 = 0 \<Longrightarrow> y mod 4 = 0" "y mod 400 = 0 \<Longrightarrow> y mod 100 = 0"
    by (simp_all only: dvd_eq_mod_eq_0)
  then have leap: "(if leap_year y then 1 else 0 :: int) = (if y mod 4 = 0 then 1 else 0) -
      (if y mod 100 = 0 then 1 else 0) + (if y mod 400 = 0 then 1 else 0)"
    unfolding leap_year_def by (rule leap_count)
  have "days_from_year (y + 1) = 365 * (y - 1970) + 365 + (y - 1968) div 4 - (y - 1900) div 100 +
      (y - 1600) div 400"
    by (simp add: days_from_year_def algebra_simps)
  then show ?thesis
    unfolding leap 4 100 400 days_from_year_def [of y] by linarith
qed

lemma div_bounds:
  fixes a k :: int
  assumes "0 < k"
  shows "k * (a div k) \<le> a" "a < k * (a div k) + k"
  using pos_mod_bound [OF assms, of a] pos_mod_sign [OF assms, of a] mult_div_mod_eq [of k a]
  by - linarith+

lemma days_from_year_bounds:
  "146097 * (y - 1970) - 800 \<le> 400 * days_from_year y"
  "400 * days_from_year y \<le> 146097 * (y - 1970) + 800"
proof -
  define f g h where "f = (y - 1969) div 4" and "g = (y - 1901) div 100" and "h = (y - 1601) div 400"
  have "4 * f \<le> y - 1969" "y - 1969 < 4 * f + 4" "100 * g \<le> y - 1901" "y - 1901 < 100 * g + 100"
    "400 * h \<le> y - 1601" "y - 1601 < 400 * h + 400"
    unfolding f_def g_def h_def by (rule div_bounds; simp)+
  moreover have "days_from_year y = 365 * (y - 1970) + f - g + h"
    by (simp add: days_from_year_def f_def g_def h_def)
  ultimately show "146097 * (y - 1970) - 800 \<le> 400 * days_from_year y"
    "400 * days_from_year y \<le> 146097 * (y - 1970) + 800"
    by (simp_all add: algebra_simps)
qed

lemma days_from_year_strict_mono: "y < z \<Longrightarrow> days_from_year y < days_from_year z"
proof (induction z rule: int_gr_induct)
  case base
  show ?case by (simp add: days_from_year_step)
next
  case (step z)
  then show ?case by (simp add: days_from_year_step)
qed

lemma days_from_year_mono: "y \<le> z \<Longrightarrow> days_from_year y \<le> days_from_year z"
  using days_from_year_strict_mono by (cases "y = z") (auto simp: order_le_less)

text \<open>The specification of the year of a day: the largest year that has begun.\<close>

lemma year_from_day:
  "days_from_year (year_from_day d) \<le> d" "d < days_from_year (year_from_day d + 1)"
proof -
  define y where "y = 1970 + (400 * d) div 146097"
  have "146097 * (y - 1970) \<le> 400 * d" "400 * d < 146097 * (y - 1970) + 146097"
    using div_bounds [of 146097 "400 * d"] by (simp_all add: y_def)
  moreover have "400 * days_from_year (y - 1) \<le> 146097 * (y - 1971) + 800"
    "146097 * (y - 1968) - 800 \<le> 400 * days_from_year (y + 2)"
    using days_from_year_bounds [of "y - 1"] days_from_year_bounds [of "y + 2"]
    by (simp_all add: algebra_simps)
  ultimately have "days_from_year (y - 1) \<le> d" "d < days_from_year (y + 2)"
    by (simp_all add: algebra_simps)
  then show "days_from_year (year_from_day d) \<le> d" "d < days_from_year (year_from_day d + 1)"
    by (auto simp: year_from_day_def Let_def y_def [symmetric] add.commute)
qed

lemma year_from_day_unique:
  assumes "days_from_year y \<le> d" "d < days_from_year (y + 1)"
  shows "year_from_day d = y"
proof (rule ccontr)
  assume "year_from_day d \<noteq> y"
  then consider "year_from_day d + 1 \<le> y" | "y + 1 \<le> year_from_day d" by linarith
  then show False
  proof cases
    case 1
    then show False
      using days_from_year_mono [of "year_from_day d + 1" y] year_from_day(2) [of d] assms(1)
      by linarith
  next
    case 2
    then show False
      using days_from_year_mono [of "y + 1" "year_from_day d"] year_from_day(1) [of d] assms(2)
      by linarith
  qed
qed

lemma year_from_day_mono: "d \<le> e \<Longrightarrow> year_from_day d \<le> year_from_day e"
  using days_from_year_mono [of "year_from_day e + 1" "year_from_day d"]
    year_from_day(1) [of d] year_from_day(2) [of e] by linarith

text \<open>The month of a day of the year, and the bounds on the day of the month.\<close>

lemma month_from_doy:
  assumes "0 \<le> doy" "doy < 365 + (if leap then 1 else 0)"
  shows "month_from_doy leap doy < 12"
    "month_offset leap (month_from_doy leap doy) \<le> doy"
    "doy < month_offset leap (month_from_doy leap doy + 1)"
  using assms by (cases leap; simp add: month_from_doy_def upt_rec numeral_nat)+

lemma month_offset_mono: "m \<le> n \<Longrightarrow> n \<le> 12 \<Longrightarrow> month_offset leap m \<le> month_offset leap n"
proof -
  have "\<forall>n \<le> 12. \<forall>m \<le> n. month_offset l m \<le> month_offset l n" for l
    by (cases l) (simp_all add: le_Suc_eq numeral_nat)
  then show "m \<le> n \<Longrightarrow> n \<le> 12 \<Longrightarrow> month_offset leap m \<le> month_offset leap n" by blast
qed

lemma month_from_doy_mono:
  assumes "0 \<le> a" "a \<le> b" "b < 365 + (if leap then 1 else 0)"
  shows "month_from_doy leap a \<le> month_from_doy leap b"
proof (rule ccontr)
  assume "\<not> ?thesis"
  then have "month_offset leap (month_from_doy leap b + 1) \<le> month_offset leap (month_from_doy leap a)"
    using assms by (intro month_offset_mono) (simp_all add: month_from_doy less_imp_le)
  with month_from_doy(2) [of a leap] month_from_doy(3) [of b leap] assms show False by simp
qed

section \<open>Fields of an instant\<close>

definition utc_day :: "int \<Rightarrow> int" where
  "utc_day t = t div ms_per_day"

definition utc_time_in_day :: "int \<Rightarrow> nat" where
  "utc_time_in_day t = nat (t mod ms_per_day)"

definition utc_full_year :: "int \<Rightarrow> int" where
  "utc_full_year t = year_from_day (utc_day t)"

definition utc_doy :: "int \<Rightarrow> int" where
  "utc_doy t = utc_day t - days_from_year (utc_full_year t)"

definition utc_month :: "int \<Rightarrow> nat" where
  "utc_month t = month_from_doy (leap_year (utc_full_year t)) (utc_doy t)"

definition utc_date :: "int \<Rightarrow> int" where
  "utc_date t = utc_doy t - month_offset (leap_year (utc_full_year t)) (utc_month t) + 1"

definition utc_weekday :: "int \<Rightarrow> int" where
  "utc_weekday t = (utc_day t + 4) mod 7"

text \<open>\<open>Date.UTC(y, m, d)\<close>: a month index beyond 11 carries into the year, a day outside the month
  into the neighbouring months, and a year 0 to 99 means 1900 to 1999.\<close>

definition make_day :: "int \<Rightarrow> int \<Rightarrow> int \<Rightarrow> int" where
  "make_day y m d =
     (let ym = y + m div 12
      in days_from_year ym + month_offset (leap_year ym) (nat (m mod 12)) + d - 1)"

definition date_utc :: "int \<Rightarrow> int \<Rightarrow> int \<Rightarrow> int" where
  "date_utc y m d =
     make_day (if 0 \<le> y \<and> y \<le> 99 then 1900 + y else y) m d * ms_per_day"

lemma time_split: "t = utc_day t * ms_per_day + int (utc_time_in_day t)"
  by (simp add: utc_day_def utc_time_in_day_def ms_per_day_def)

lemma time_in_day_bound: "utc_time_in_day t < 86400000"
  by (simp add: utc_time_in_day_def ms_per_day_def nat_less_iff)

lemma utc_doy_bounds:
  "0 \<le> utc_doy t" "utc_doy t < 365 + (if leap_year (utc_full_year t) then 1 else 0)"
  using year_from_day [of "utc_day t"]
  by (simp_all add: utc_doy_def utc_full_year_def days_from_year_step split: if_splits)

lemma utc_month_bound: "utc_month t < 12"
  unfolding utc_month_def by (rule month_from_doy(1)) (rule utc_doy_bounds)+

lemma month_length: "m < 12 \<Longrightarrow> month_offset leap (m + 1) \<le> month_offset leap m + 31"
proof -
  have "\<forall>m < 12. month_offset l (m + 1) \<le> month_offset l m + 31" for l
    by (cases l) (simp_all add: less_Suc_eq numeral_nat)
  then show "m < 12 \<Longrightarrow> month_offset leap (m + 1) \<le> month_offset leap m + 31" by blast
qed

lemma utc_date_bounds: "1 \<le> utc_date t" "utc_date t \<le> 31"
  using month_from_doy(2,3) [OF utc_doy_bounds, of t]
    month_length [OF utc_month_bound, of "leap_year (utc_full_year t)" t]
  unfolding utc_date_def utc_month_def by simp_all

lemma make_day_utc [simp]: "make_day (utc_full_year t) (int (utc_month t)) (utc_date t) = utc_day t"
  using utc_month_bound [of t]
  by (simp add: make_day_def utc_date_def utc_doy_def)

section \<open>Rendering: toISOString\<close>

fun pad :: "nat \<Rightarrow> nat \<Rightarrow> str" where
  "pad 0 n = []"
| "pad (Suc k) n = pad k (n div 10) @ [48 + n mod 10]"

definition iso_year :: "int \<Rightarrow> str" where
  "iso_year y =
     (if 0 \<le> y \<and> y \<le> 9999 then pad 4 (nat y)
      else (if y < 0 then 45 else 43) # pad 6 (nat \<bar>y\<bar>))"

definition iso_time :: "nat \<Rightarrow> str" where
  "iso_time r =
     pad 2 (r div 3600000) @ [58] @ pad 2 (r mod 3600000 div 60000) @ [58] @
     pad 2 (r mod 3600000 mod 60000 div 1000) @ [46] @ pad 3 (r mod 3600000 mod 60000 mod 1000) @ [90]"

definition iso_text :: "int \<Rightarrow> str" where
  "iso_text t =
     iso_year (utc_full_year t) @ [45] @ pad 2 (utc_month t + 1) @ [45] @ pad 2 (nat (utc_date t)) @
     [84] @ iso_time (utc_time_in_day t)"

definition to_iso :: "int \<Rightarrow> js_error + str" where
  "to_iso t = (if \<bar>t\<bar> \<le> 8640000000000000 then Inr (iso_text t) else Inl RangeError)"

text \<open>The instants of the years 0 to 9999, on which the theorems below hold.\<close>

definition iso_range :: "int \<Rightarrow> bool" where
  "iso_range t \<longleftrightarrow> -62167219200000 \<le> t \<and> t < 253402300800000"

lemma iso_range_year: "iso_range t \<longleftrightarrow> 0 \<le> utc_full_year t \<and> utc_full_year t < 10000"
proof -
  have 0: "0 \<le> utc_full_year t \<longleftrightarrow> days_from_year 0 \<le> utc_day t"
    using days_from_year_mono [of 0 "utc_full_year t"] days_from_year_mono [of "utc_full_year t + 1" 0]
      year_from_day [of "utc_day t"] unfolding utc_full_year_def by linarith
  have 1: "utc_full_year t < 10000 \<longleftrightarrow> utc_day t < days_from_year 10000"
    using days_from_year_mono [of 10000 "utc_full_year t"]
      days_from_year_mono [of "utc_full_year t + 1" 10000]
      year_from_day [of "utc_day t"] unfolding utc_full_year_def by linarith
  show ?thesis
    unfolding 0 1 iso_range_def utc_day_def ms_per_day_def days_from_year_def by simp linarith
qed

lemma to_iso_range: "iso_range t \<Longrightarrow> to_iso t = Inr (iso_text t)"
  unfolding to_iso_def iso_range_def abs_le_iff by simp

section \<open>Reading a rendered instant\<close>

definition digits_value :: "str \<Rightarrow> nat" where
  "digits_value s = foldl (\<lambda>acc c. 10 * acc + (c - 48)) 0 s"

definition all_digits :: "str \<Rightarrow> bool" where
  "all_digits s \<longleftrightarrow> list_all (\<lambda>c. 48 \<le> c \<and> c \<le> 57) s"

definition slice :: "nat \<Rightarrow> nat \<Rightarrow> str \<Rightarrow> str" where
  "slice i j s = take (j - i) (drop i s)"

definition date_parse :: "str \<Rightarrow> int option" where
  "date_parse s =
     (if length s = 24 \<and>
         s ! 4 = 45 \<and> s ! 7 = 45 \<and> s ! 10 = 84 \<and> s ! 13 = 58 \<and> s ! 16 = 58 \<and> s ! 19 = 46 \<and> s ! 23 = 90 \<and>
         all_digits (slice 0 4 s @ slice 5 7 s @ slice 8 10 s @ slice 11 13 s @ slice 14 16 s @
           slice 17 19 s @ slice 20 23 s)
      then
        (let y = digits_value (slice 0 4 s); mo = digits_value (slice 5 7 s);
             d = digits_value (slice 8 10 s); h = digits_value (slice 11 13 s);
             mi = digits_value (slice 14 16 s); sec = digits_value (slice 17 19 s);
             ms = digits_value (slice 20 23 s)
         in if 1 \<le> mo \<and> mo \<le> 12 \<and> 1 \<le> d \<and> d \<le> 31 \<and> mi < 60 \<and> sec < 60 \<and>
               (h < 24 \<or> h = 24 \<and> mi = 0 \<and> sec = 0 \<and> ms = 0)
            then Some (make_day (int y) (int mo - 1) (int d) * ms_per_day +
                       int (h * 3600000 + mi * 60000 + sec * 1000 + ms))
            else None)
      else None)"

lemma length_pad [simp]: "length (pad k n) = k"
  by (induction k arbitrary: n) simp_all

lemma all_digits_append [simp]: "all_digits (s @ t) \<longleftrightarrow> all_digits s \<and> all_digits t"
  by (simp add: all_digits_def)

lemma all_digits_pad [simp]: "all_digits (pad k n)"
  by (induction k arbitrary: n) (simp_all add: all_digits_def)

lemma digits_value_snoc: "digits_value (s @ [48 + d]) = 10 * digits_value s + d"
  by (simp add: digits_value_def)

lemma digits_value_show [simp]: "digits_value (show_nat n) = n"
proof (induction n rule: show_nat.induct)
  case (1 n)
  show ?case
  proof (cases "n < 10")
    case True
    then show ?thesis by (simp add: show_nat.simps [of n] digits_value_def)
  next
    case False
    with 1 show ?thesis by (simp add: show_nat.simps [of n] digits_value_snoc)
  qed
qed

lemma all_digits_show [simp]: "all_digits (show_nat n)"
  using set_show_nat [of n] by (auto simp: all_digits_def list_all_iff)

lemma digits_value_pad: "n < 10 ^ k \<Longrightarrow> digits_value (pad k n) = n"
proof (induction k arbitrary: n)
  case 0
  then show ?case by (simp add: digits_value_def)
next
  case (Suc k)
  then have "n div 10 < 10 ^ k" by (simp add: less_mult_imp_div_less mult.commute)
  then have "digits_value (pad k (n div 10)) = n div 10" by (rule Suc.IH)
  then show ?case by (simp add: digits_value_def)
qed

lemma slice_append_left: "i = length a \<Longrightarrow> j = length a + length b \<Longrightarrow> slice i j (a @ b @ c) = b"
  by (simp add: slice_def)

lemma date_parse_fields:
  assumes "y < 10000" "1 \<le> mo" "mo \<le> 12" "1 \<le> d" "d \<le> 31" "h < 24" "mi < 60" "sec < 60" "ms < 1000"
  shows "date_parse (pad 4 y @ [45] @ pad 2 mo @ [45] @ pad 2 d @ [84] @ pad 2 h @ [58] @ pad 2 mi @
           [58] @ pad 2 sec @ [46] @ pad 3 ms @ [90]) =
         Some (make_day (int y) (int mo - 1) (int d) * ms_per_day +
               int (h * 3600000 + mi * 60000 + sec * 1000 + ms))"
    (is "date_parse ?s = _")
proof -
  have sl: "slice 0 4 ?s = pad 4 y" "slice 5 7 ?s = pad 2 mo" "slice 8 10 ?s = pad 2 d"
    "slice 11 13 ?s = pad 2 h" "slice 14 16 ?s = pad 2 mi" "slice 17 19 ?s = pad 2 sec"
    "slice 20 23 ?s = pad 3 ms"
    by (simp_all add: slice_def)
  have sep: "?s ! 4 = 45" "?s ! 7 = 45" "?s ! 10 = 84" "?s ! 13 = 58" "?s ! 16 = 58" "?s ! 19 = 46"
    "?s ! 23 = 90" "length ?s = 24"
    by (simp_all add: nth_append)
  have v: "digits_value (pad 4 y) = y" "digits_value (pad 2 mo) = mo" "digits_value (pad 2 d) = d"
    "digits_value (pad 2 h) = h" "digits_value (pad 2 mi) = mi" "digits_value (pad 2 sec) = sec"
    "digits_value (pad 3 ms) = ms"
    using assms by (simp_all add: digits_value_pad)
  show ?thesis
    unfolding date_parse_def sl sep v Let_def using assms by simp
qed

lemma time_fields:
  fixes r :: nat
  shows "r div 3600000 * 3600000 + r mod 3600000 div 60000 * 60000 +
    r mod 3600000 mod 60000 div 1000 * 1000 + r mod 3600000 mod 60000 mod 1000 = r"
proof -
  have "r mod 3600000 mod 60000 div 1000 * 1000 + r mod 3600000 mod 60000 mod 1000 = r mod 3600000 mod 60000"
    by (rule div_mult_mod_eq)
  moreover have "r mod 3600000 div 60000 * 60000 + r mod 3600000 mod 60000 = r mod 3600000"
    by (rule div_mult_mod_eq)
  moreover have "r div 3600000 * 3600000 + r mod 3600000 = r" by (rule div_mult_mod_eq)
  ultimately show ?thesis by linarith
qed

lemma time_field_bounds:
  fixes r :: nat
  assumes "r < 86400000"
  shows "r div 3600000 < 24" "r mod 3600000 div 60000 < 60"
    "r mod 3600000 mod 60000 div 1000 < 60" "r mod 3600000 mod 60000 mod 1000 < 1000"
  using assms by (simp_all add: less_mult_imp_div_less)

lemma date_parse_iso_text:
  assumes "iso_range t"
  shows "date_parse (iso_text t) = Some t"
proof -
  have y: "iso_year (utc_full_year t) = pad 4 (nat (utc_full_year t))" "nat (utc_full_year t) < 10000"
    "0 \<le> utc_full_year t"
    using assms by (auto simp: iso_range_year iso_year_def nat_less_iff)
  have day: "make_day (int (nat (utc_full_year t))) (int (utc_month t + 1) - 1) (int (nat (utc_date t))) =
      utc_day t"
    using y utc_date_bounds(1) [of t] by simp
  have "date_parse (iso_text t) = Some (utc_day t * ms_per_day + int (utc_time_in_day t))"
    unfolding iso_text_def iso_time_def y(1)
    using utc_month_bound [of t] utc_date_bounds [of t] time_field_bounds [OF time_in_day_bound, of t] y(2,3)
    by (subst date_parse_fields) (simp_all add: day time_fields nat_le_iff le_nat_iff)
  then show ?thesis using time_split [of t] by simp
qed

section \<open>The order on rendered instants\<close>

lemma append_less_iff:
  fixes x y :: "'a::linorder list"
  assumes "length x = length y"
  shows "x @ u < y @ v \<longleftrightarrow> x < y \<or> x = y \<and> u < v"
  using assms by (induction x y rule: list_induct2) auto

lemma pad_less: "m < n \<Longrightarrow> n < 10 ^ k \<Longrightarrow> pad k m < pad k n"
proof (induction k arbitrary: m n)
  case 0
  then show ?case by simp
next
  case (Suc k)
  have n: "n div 10 < 10 ^ k" using Suc.prems(2) by (simp add: less_mult_imp_div_less mult.commute)
  show ?case
  proof (cases "m div 10 = n div 10")
    case True
    with Suc.prems(1) have "m mod 10 < n mod 10"
      by (metis add_less_cancel_left div_mult_mod_eq)
    with True show ?thesis by (simp add: append_less_iff)
  next
    case False
    with Suc.prems(1) have "m div 10 < n div 10" by (simp add: div_le_mono le_neq_implies_less)
    from this n have "pad k (m div 10) < pad k (n div 10)" by (rule Suc.IH)
    then show ?thesis by (simp add: append_less_iff)
  qed
qed

lemma div_mod_less:
  fixes m n k :: nat
  assumes "m < n"
  shows "m div k < n div k \<or> m div k = n div k \<and> m mod k < n mod k"
  using assms by (metis add_less_cancel_left div_le_mono div_mult_mod_eq le_neq_implies_less less_imp_le)

text \<open>One fixed-width field followed by the rest of the text.\<close>

lemma pad_append_less:
  assumes "n < 10 ^ k" "m < n \<or> m = n \<and> u < v"
  shows "pad k m @ u < pad k n @ v"
  using assms pad_less [of m n k] by (auto simp: append_less_iff)

lemma iso_time_less:
  assumes "q < r" "r < 86400000"
  shows "iso_time q < iso_time r"
proof -
  note r = time_field_bounds [OF assms(2)]
  from div_mod_less [OF assms(1), of 3600000] show ?thesis
  proof
    assume "q div 3600000 < r div 3600000"
    with r(1) show ?thesis unfolding iso_time_def by (intro pad_append_less) auto
  next
    assume h: "q div 3600000 = r div 3600000 \<and> q mod 3600000 < r mod 3600000"
    let ?q = "q mod 3600000" and ?r = "r mod 3600000"
    from h div_mod_less [of ?q ?r 60000]
    have "?q div 60000 < ?r div 60000 \<or> ?q div 60000 = ?r div 60000 \<and> ?q mod 60000 < ?r mod 60000"
      by simp
    then show ?thesis
    proof
      assume "?q div 60000 < ?r div 60000"
      with r(1,2) h show ?thesis
        unfolding iso_time_def by (intro pad_append_less disjI2 conjI) (auto intro!: pad_append_less)
    next
      assume m: "?q div 60000 = ?r div 60000 \<and> ?q mod 60000 < ?r mod 60000"
      let ?q' = "?q mod 60000" and ?r' = "?r mod 60000"
      have "pad 2 (?q' div 1000) @ [46] @ pad 3 (?q' mod 1000) @ [90] <
            pad 2 (?r' div 1000) @ [46] @ pad 3 (?r' mod 1000) @ [90]"
        using r(3,4) m div_mod_less [of ?q' ?r' 1000]
        by (intro pad_append_less) (auto intro!: pad_append_less)
      with r(1,2) h m show ?thesis by (simp add: iso_time_def append_less_iff)
    qed
  qed
qed

text \<open>A later day has a later civil date, field by field.\<close>

lemma civil_less:
  assumes "utc_day t < utc_day u"
  shows "utc_full_year t < utc_full_year u \<or>
    utc_full_year t = utc_full_year u \<and>
      (utc_month t < utc_month u \<or> utc_month t = utc_month u \<and> utc_date t < utc_date u)"
proof (cases "utc_full_year t = utc_full_year u")
  case False
  with year_from_day_mono [of "utc_day t" "utc_day u"] assms show ?thesis
    by (simp add: utc_full_year_def)
next
  case True
  with assms have doy: "utc_doy t < utc_doy u" by (simp add: utc_doy_def)
  have "utc_month t \<le> utc_month u"
    using month_from_doy_mono [of "utc_doy t" "utc_doy u" "leap_year (utc_full_year u)"]
      utc_doy_bounds(1) [of t] utc_doy_bounds(2) [of u] doy
    by (simp add: utc_month_def True)
  with True doy show ?thesis
    by (cases "utc_month t = utc_month u") (auto simp: utc_date_def)
qed

lemma iso_text_less:
  assumes "iso_range t" "iso_range u" "t < u"
  shows "iso_text t < iso_text u"
proof -
  from assms have y: "iso_year (utc_full_year t) = pad 4 (nat (utc_full_year t))"
    "iso_year (utc_full_year u) = pad 4 (nat (utc_full_year u))"
    "nat (utc_full_year u) < 10 ^ 4" "0 \<le> utc_full_year t" "0 \<le> utc_full_year u"
    by (auto simp: iso_range_year iso_year_def nat_less_iff)
  have m: "utc_month u + 1 < 10 ^ 2" using utc_month_bound [of u] by simp
  have d: "nat (utc_date u) < 10 ^ 2" using utc_date_bounds [of u] by (simp add: nat_less_iff)
  show ?thesis
  proof (cases "utc_day t = utc_day u")
    case True
    then have eq: "utc_full_year t = utc_full_year u" "utc_month t = utc_month u" "utc_date t = utc_date u"
      by (simp_all add: utc_full_year_def utc_month_def utc_date_def utc_doy_def)
    from True assms(3) time_split [of t] time_split [of u]
    have "utc_time_in_day t < utc_time_in_day u" by simp
    then have "iso_time (utc_time_in_day t) < iso_time (utc_time_in_day u)"
      by (rule iso_time_less) (rule time_in_day_bound)
    with eq show ?thesis by (simp add: iso_text_def append_less_iff)
  next
    case False
    with assms(3) have "utc_day t < utc_day u"
      by (simp add: utc_day_def ms_per_day_def order_le_less zdiv_mono1)
    from civil_less [OF this] show ?thesis
      unfolding iso_text_def y
      using y(3,4,5) m d utc_date_bounds(1) [of t] utc_date_bounds(1) [of u]
      by (intro pad_append_less)
        (auto intro!: pad_append_less simp: nat_eq_iff2 nat_less_eq_zless)
  qed
qed

lemma iso_text_order:
  assumes "iso_range t" "iso_range u"
  shows "iso_text t < iso_text u \<longleftrightarrow> t < u"
  using iso_text_less [OF assms] iso_text_less [OF assms(2,1)] by (metis less_asym linorder_neqE)

lemma iso_text_le:
  assumes "iso_range t" "iso_range u"
  shows "iso_text t \<le> iso_text u \<longleftrightarrow> t \<le> u"
  using iso_text_order [OF assms(2,1)] by (metis linorder_not_less)

text \<open>Rewriting a rendered instant to its characters.\<close>

lemma pad_numeral: "pad (numeral k) n = pad (pred_numeral k) (n div 10) @ [48 + n mod 10]"
  by (subst numeral_eq_Suc) (rule pad.simps(2))

lemmas iso_eval = iso_text_def iso_year_def iso_time_def pad_numeral utc_full_year_def utc_month_def
  utc_date_def utc_doy_def utc_day_def utc_time_in_day_def ms_per_day_def year_from_day_def
  days_from_year_def leap_year_def month_from_doy_def upt_rec Let_def

end
