(* ===== verification/Core_Types.thy ===== *)
theory Core_Types
  imports JS_Date
begin

text \<open>
  The domain types of \<open>src/core/types.ts\<close> (with the risk, trust and alert types next to them):
  interfaces are records, string unions are datatypes, and the tagged union \<open>PayeeScope\<close> is a
  datatype with the source's two kinds.

  A reason or a suggested fix is, in the source, a text assembled from a template and some values.
  Here each template is a constructor that takes the interpolated values; the texts themselves are
  written out in the theory Audit_Log, where they are hashed.

  The gate configuration holds integers, as \<open>GateConfigSchema\<close> of \<open>src/config/schema.ts\<close> requires,
  except for the anomaly multiple, which is any positive number.
\<close>

section \<open>Rails, mandates, intents, receipts\<close>

datatype rail_kind = Card | Checkout | Onchain

datatype reversibility = Reversible | Irreversible

fun RAIL_REVERSIBILITY :: "rail_kind \<Rightarrow> reversibility" where
  "RAIL_REVERSIBILITY Card = Reversible"
| "RAIL_REVERSIBILITY Checkout = Reversible"
| "RAIL_REVERSIBILITY Onchain = Irreversible"

text \<open>Lists of rails are sorted by name: "card", "checkout", "onchain".\<close>

fun rail_rank :: "rail_kind \<Rightarrow> nat" where
  "rail_rank Card = 0"
| "rail_rank Checkout = 1"
| "rail_rank Onchain = 2"

instantiation rail_kind :: linorder
begin

definition less_eq_rail_kind :: "rail_kind \<Rightarrow> rail_kind \<Rightarrow> bool" where
  "less_eq_rail_kind a b \<longleftrightarrow> rail_rank a \<le> rail_rank b"

definition less_rail_kind :: "rail_kind \<Rightarrow> rail_kind \<Rightarrow> bool" where
  "less_rail_kind a b \<longleftrightarrow> rail_rank a < rail_rank b"

instance
proof
  fix a b c :: rail_kind
  show "a < b \<longleftrightarrow> a \<le> b \<and> \<not> b \<le> a"
    unfolding less_eq_rail_kind_def less_rail_kind_def by (rule less_le_not_le)
  show "a \<le> a"
    unfolding less_eq_rail_kind_def by (rule order_refl)
  show "a \<le> b \<or> b \<le> a"
    unfolding less_eq_rail_kind_def by (rule linear)
  show "a \<le> b \<Longrightarrow> b \<le> c \<Longrightarrow> a \<le> c"
    unfolding less_eq_rail_kind_def by (rule order_trans)
  show "a \<le> b \<Longrightarrow> b \<le> a \<Longrightarrow> a = b"
    unfolding less_eq_rail_kind_def by (cases a; cases b) simp_all
qed

end

fun rail_text :: "rail_kind \<Rightarrow> str" where
  "rail_text Card = js ''card''"
| "rail_text Checkout = js ''checkout''"
| "rail_text Onchain = js ''onchain''"

datatype payee_scope = ScopeClass str | ScopeAllowlist "str list"

datatype period = Day | Week | Month

datatype mandate_status = Active | Revoked

record mandate =
  m_id :: str
  m_label :: str
  m_scope :: payee_scope
  m_currency :: str
  m_allowedRails :: "rail_kind list"
  m_perTxCap :: jsnum
  m_perPeriodCap :: jsnum
  m_period :: period
  m_grantedAt :: str
  m_expiresAt :: str
  m_status :: mandate_status

record payment_intent =
  i_id :: str
  i_payee :: str
  i_payeeClass :: str
  i_amount :: jsnum
  i_currency :: str
  i_rail :: rail_kind
  i_rationale :: str
  i_createdAt :: str

datatype settlement_finality = Final | ReversibleFinality | PendingFinality

record receipt =
  r_id :: str
  r_intentId :: str
  r_rail :: rail_kind
  r_amount :: jsnum
  r_currency :: str
  r_settledAt :: str
  r_providerRef :: str
  r_finality :: settlement_finality
  r_providerId :: "str option"

section \<open>Risk and trust\<close>

datatype attestation = AttNone | AttSigned | AttRegistryAttested

datatype reputation_level = RepGood | RepNeutral | RepFlagged | RepUnknown

datatype trust_level = TrustNew | TrustSeen | TrustTrusted

datatype risk_tier = TierNone | TierLow | TierMedium | TierHigh

datatype risk_reason =
    PayeeFlagged
  | PayeeGoodReputation
  | AgentUnverified
  | AgentRegistryAttested
  | PayeeNoHistory
  | PayeeTrusted
  | AmountAnomalous jsnum jsnum
  | IrreversibleNovelPayee

record spend_risk =
  sr_tier :: risk_tier
  sr_score :: int
  sr_reasons :: "risk_reason list"

record prior_spend =
  ps_amount :: jsnum
  ps_at :: str

record gate_config =
  minRationaleChars :: nat
  velocityWindowMinutes :: int
  velocityMaxCount :: nat
  anomalyMultiple :: jsnum

definition DEFAULT_GATE_CONFIG :: gate_config where
  "DEFAULT_GATE_CONFIG =
     \<lparr>minRationaleChars = 10, velocityWindowMinutes = 60, velocityMaxCount = 5, anomalyMultiple = 3\<rparr>"

section \<open>Decisions\<close>

datatype chain_type = Smurfing | Splitting | Probing | DrainAfterGrant

text \<open>The alert texts of \<open>src/core/riskChain.ts\<close>, with their interpolated values.\<close>

datatype chain_reason =
    SmurfingReason nat str jsnum jsnum
  | SplittingReason str nat jsnum jsnum
  | ProbingReason nat nat jsnum
  | DrainReason jsnum jsnum str jsnum

datatype halt_reason = KillSwitchEngaged | BreakerOpen int

datatype reason =
    AmountNotPositiveInteger
  | RationaleTooShort nat
  | DenyListed str
  | NoLiveMandate
  | OverTxCap jsnum str jsnum
  | OverPeriodBudget jsnum period jsnum jsnum
  | NewPayee
  | VelocityCeiling nat int
  | ElevatedSpendRisk
  | WithinMandate
  | RiskChainReason chain_reason
  | HaltedReason halt_reason
  | ErrorReason js_error

datatype safe_fix =
    ExpandRationale nat
  | DenyListBypass
  | GrantMandate str str
  | IncreaseTxCap str jsnum str
  | IncreasePeriodCap str jsnum jsnum
  | ConfirmOperatorFix str
  | ConfirmRiskChain chain_type chain_reason

datatype gate_outcome = AutoExecute | ConfirmOperator | Block

record gate_decision =
  gd_outcome :: gate_outcome
  gd_reasons :: "reason list"
  gd_mandateId :: "str option"
  gd_risk :: spend_risk
  gd_remaining :: "jsnum option"
  gd_fix :: "safe_fix option"

section \<open>Deny rules and the gate's context\<close>

text \<open>\<open>dr_match\<close> takes the intent, the known payees and the reversibility of the settling provider.\<close>

record deny_rule =
  dr_id :: str
  dr_reason :: str
  dr_match :: "payment_intent \<Rightarrow> str list \<Rightarrow> reversibility \<Rightarrow> bool"

text \<open>
  Everything the gate needs: closures are functions, an absent optional closure is None. Sets are
  lists read through membership. \<open>periodSpendByMandate\<close> may throw, because the store's period
  start does on an invalid clock string.
\<close>

record gate_context =
  c_now :: str
  c_mandates :: "mandate list"
  c_periodSpend :: "str \<Rightarrow> js_error + prior_spend list"
  c_knownPayees :: "str list"
  c_trustOf :: "(str \<Rightarrow> trust_level) option"
  c_convert :: "(jsnum \<Rightarrow> str \<Rightarrow> str \<Rightarrow> jsnum option) option"
  c_attestation :: "attestation option"
  c_reputationOf :: "(str \<Rightarrow> reputation_level option) option"
  c_denyRules :: "deny_rule list"
  c_config :: gate_config
  c_reversibility :: "reversibility option"

end
