(* ===== verification/Canonical_Json.thy ===== *)
theory Canonical_Json
  imports JS_Prelude
begin

text \<open>
  JSON values and the deterministic serialisation \<open>canonicalize\<close> of \<open>src/core/audit.ts\<close>: object
  keys sorted recursively, undefined members of objects dropped, undefined elements of arrays
  written as null, strings escaped as \<open>JSON.stringify\<close> does.

  How a number is written is the argument \<open>num\<close>: the language's \<open>Number\<close> to string conversion on
  doubles, which this development does not round. What the proofs need of it is \<open>num_ok\<close>.

  The main fact is unique readability: the canonical text of a value, followed by a delimiter,
  determines the value up to the order of keys and the undefined members (\<open>canonicalize_inject\<close>).
\<close>

section \<open>Values and their text\<close>

datatype json =
    JUndef
  | JNull
  | JBool bool
  | JNum jsnum
  | JStr str
  | JArr "json list"
  | JObj "(str \<times> json) list"

definition hex_digit :: "nat \<Rightarrow> nat" where
  "hex_digit d = (if d < 10 then 48 + d else 87 + d)"

definition hex4 :: "nat \<Rightarrow> str" where
  "hex4 c = [hex_digit (c div 4096 mod 16), hex_digit (c div 256 mod 16), hex_digit (c div 16 mod 16),
             hex_digit (c mod 16)]"

text \<open>Escapes of \<open>JSON.stringify\<close>: short forms, control characters and lone surrogates.\<close>

definition SHORT_ESCAPES :: "(nat \<times> nat) list" where
  "SHORT_ESCAPES = [(34, 34), (92, 92), (8, 98), (9, 116), (10, 110), (12, 102), (13, 114)]"

definition escape_char :: "nat \<Rightarrow> str" where
  "escape_char c =
     (case map_of SHORT_ESCAPES c of
        Some k \<Rightarrow> [92, k]
      | None \<Rightarrow> if c < 32 \<or> (0xd800 \<le> c \<and> c \<le> 0xdfff) then [92, 117] @ hex4 c else [c])"

definition json_quote :: "str \<Rightarrow> str" where
  "json_quote s = 34 # concat (map escape_char s) @ [34]"

fun join_comma :: "str list \<Rightarrow> str" where
  "join_comma [] = []"
| "join_comma [x] = x"
| "join_comma (x # y # zs) = x @ 44 # join_comma (y # zs)"

lemma json_size_object:
  assumes "(k, v) \<in> set kvs"
  shows "size v < Suc (size_list (size_prod (\<lambda>_. 0) size) kvs)"
proof -
  have "size_prod (\<lambda>_. 0) size (k, v) \<le> size_list (size_prod (\<lambda>_. 0) size) kvs"
    using assms by (rule size_list_estimation') simp
  then show ?thesis by simp
qed

function canonicalize :: "(jsnum \<Rightarrow> str) \<Rightarrow> json \<Rightarrow> str" where
  "canonicalize num JUndef = js ''null''"
| "canonicalize num JNull = js ''null''"
| "canonicalize num (JBool b) = (if b then js ''true'' else js ''false'')"
| "canonicalize num (JNum x) = num x"
| "canonicalize num (JStr s) = json_quote s"
| "canonicalize num (JArr xs) = 91 # join_comma (map (canonicalize num) xs) @ [93]"
| "canonicalize num (JObj kvs) =
     123 # join_comma (map (\<lambda>(k, v). json_quote k @ 58 # canonicalize num v)
             (filter (\<lambda>(k, v). v \<noteq> JUndef) (sort_key fst kvs))) @ [125]"
  by pat_completeness auto
termination
  by (relation "measure (\<lambda>(num, v). size v)")
    (auto simp: less_Suc_eq_le size_list_estimation' json_size_object [simplified])

section \<open>Normal forms\<close>

text \<open>What the canonical text forgets: key order and undefined members.\<close>

function json_norm :: "json \<Rightarrow> json" where
  "json_norm JUndef = JNull"
| "json_norm JNull = JNull"
| "json_norm (JBool b) = JBool b"
| "json_norm (JNum x) = JNum x"
| "json_norm (JStr s) = JStr s"
| "json_norm (JArr xs) = JArr (map json_norm xs)"
| "json_norm (JObj kvs) =
     JObj (map (\<lambda>(k, v). (k, json_norm v)) (filter (\<lambda>(k, v). v \<noteq> JUndef) (sort_key fst kvs)))"
  by pat_completeness auto
termination
  by (relation "measure size")
    (auto simp: less_Suc_eq_le size_list_estimation' json_size_object [simplified])

text \<open>A list after its opening bracket: elements separated by commas, closed by \<open>e\<close>.\<close>

fun tail_text :: "('a \<Rightarrow> str) \<Rightarrow> nat \<Rightarrow> 'a list \<Rightarrow> str" where
  "tail_text f e [] = [e]"
| "tail_text f e (x # xs) = 44 # f x @ tail_text f e xs"

fun list_text :: "('a \<Rightarrow> str) \<Rightarrow> nat \<Rightarrow> 'a list \<Rightarrow> str" where
  "list_text f e [] = [e]"
| "list_text f e (x # xs) = f x @ tail_text f e xs"

lemma join_comma_list_text: "join_comma (map f xs) @ [e] = list_text f e xs"
proof -
  have tail: "join_comma (f x # map f xs) @ [e] = f x @ tail_text f e xs" for x xs
    by (induction xs arbitrary: x) simp_all
  show ?thesis by (cases xs) (simp_all add: tail)
qed

lemma list_text_cong: "(\<And>x. x \<in> set xs \<Longrightarrow> f x = g x) \<Longrightarrow> list_text f e xs = list_text g e xs"
proof -
  have "(\<And>x. x \<in> set ys \<Longrightarrow> f x = g x) \<Longrightarrow> tail_text f e ys = tail_text g e ys" for ys
    by (induction ys) auto
  then show "(\<And>x. x \<in> set xs \<Longrightarrow> f x = g x) \<Longrightarrow> list_text f e xs = list_text g e xs"
    by (cases xs) auto
qed

text \<open>The printer without sorting, on normal forms.\<close>

function print_json :: "(jsnum \<Rightarrow> str) \<Rightarrow> json \<Rightarrow> str" where
  "print_json num JUndef = js ''null''"
| "print_json num JNull = js ''null''"
| "print_json num (JBool b) = (if b then js ''true'' else js ''false'')"
| "print_json num (JNum x) = num x"
| "print_json num (JStr s) = json_quote s"
| "print_json num (JArr xs) = 91 # join_comma (map (print_json num) xs) @ [93]"
| "print_json num (JObj kvs) =
     123 # join_comma (map (\<lambda>(k, v). json_quote k @ 58 # print_json num v) kvs) @ [125]"
  by pat_completeness auto
termination
  by (relation "measure (\<lambda>(num, v). size v)")
    (auto simp: less_Suc_eq_le size_list_estimation' json_size_object [simplified])

lemma canonicalize_norm: "canonicalize num v = print_json num (json_norm v)"
proof (induction num v rule: canonicalize.induct)
  case (6 num xs)
  then show ?case by (simp cong: map_cong)
next
  case (7 num kvs)
  then have "map (\<lambda>(k, v). json_quote k @ 58 # canonicalize num v)
      (filter (\<lambda>(k, v). v \<noteq> JUndef) (sort_key fst kvs)) =
    map (\<lambda>(k, v). json_quote k @ 58 # print_json num (json_norm v))
      (filter (\<lambda>(k, v). v \<noteq> JUndef) (sort_key fst kvs))"
    by (intro map_cong) auto
  then show ?case
    by (simp only: canonicalize.simps json_norm.simps print_json.simps map_map)
      (simp add: o_def case_prod_unfold)
qed simp_all

section \<open>Unique readability\<close>

text \<open>What follows a value in a canonical text: nothing, a comma, a closing bracket or a line end.\<close>

definition delimited :: "str \<Rightarrow> bool" where
  "delimited r \<longleftrightarrow> r = [] \<or> hd r \<in> {44, 93, 125, 10}"

lemma delimited_simps [simp]:
  "delimited []" "delimited (c # r) \<longleftrightarrow> c \<in> {44, 93, 125, 10}"
  by (simp_all add: delimited_def)

text \<open>Digits, sign, point and exponent: the characters of a written number.\<close>

definition num_char :: "nat \<Rightarrow> bool" where
  "num_char c \<longleftrightarrow> (48 \<le> c \<and> c \<le> 57) \<or> c \<in> {43, 45, 46, 101}"

definition num_ok :: "(jsnum \<Rightarrow> str) \<Rightarrow> bool" where
  "num_ok num \<longleftrightarrow> inj num \<and>
     (\<forall>x. num x \<noteq> [] \<and> hd (num x) \<in> insert 45 {48..57} \<and> (\<forall>c \<in> set (num x). num_char c))"

lemma num_read:
  assumes "num_ok num" "delimited r" "delimited r'" "num x @ r = num y @ r'"
  shows "x = y \<and> r = r'"
proof -
  have all: "\<forall>c \<in> set (num z). num_char c" for z using assms(1) by (simp add: num_ok_def)
  have stop: "r = [] \<or> \<not> num_char (hd r)" if "delimited r" for r
    using that by (auto simp: delimited_def num_char_def)
  have take: "takeWhile num_char (num z @ r) = num z" if "delimited r" for z r
    using all stop [OF that] by (cases r) (simp_all add: takeWhile_append2)
  from take [OF assms(2)] take [OF assms(3)] assms(4) have "num x = num y" by metis
  with assms(1,4) show ?thesis by (auto simp: num_ok_def dest: injD)
qed

lemma hex_digit_inject: "a < 16 \<Longrightarrow> b < 16 \<Longrightarrow> hex_digit a = hex_digit b \<Longrightarrow> a = b"
  by (auto simp: hex_digit_def split: if_splits)

lemma hex4_inject:
  assumes "c < 65536" "d < 65536" "hex4 c = hex4 d"
  shows "c = d"
proof -
  have split: "n = ((n div 4096 mod 16 * 16 + n div 256 mod 16) * 16 + n div 16 mod 16) * 16 + n mod 16"
    if "n < 65536" for n :: nat
  proof -
    have "n div 4096 = n div 256 div 16" "n div 256 = n div 16 div 16"
      by (simp_all flip: div_mult2_eq)
    moreover have "n div 4096 mod 16 = n div 4096" using that by (simp add: less_mult_imp_div_less)
    ultimately show ?thesis by (metis div_mult_mod_eq)
  qed
  have "c div 4096 mod 16 = d div 4096 mod 16" "c div 256 mod 16 = d div 256 mod 16"
    "c div 16 mod 16 = d div 16 mod 16" "c mod 16 = d mod 16"
    using assms(3) by (simp_all add: hex4_def hex_digit_inject)
  with split [OF assms(1)] split [OF assms(2)] show ?thesis by metis
qed

lemma short_escape_inject:
  "map_of SHORT_ESCAPES c = Some k \<Longrightarrow> map_of SHORT_ESCAPES d = Some k \<Longrightarrow> c = d"
  by (simp add: SHORT_ESCAPES_def split: if_splits)

lemma short_escape_code: "map_of SHORT_ESCAPES c = Some k \<Longrightarrow> k \<noteq> 117"
  by (simp add: SHORT_ESCAPES_def split: if_splits)

lemma plain_char: "map_of SHORT_ESCAPES c = None \<Longrightarrow> c \<noteq> 92 \<and> c \<noteq> 34"
  by (simp add: SHORT_ESCAPES_def split: if_splits)

lemma escape_char_cases:
  obtains (short) k where "map_of SHORT_ESCAPES c = Some k" "escape_char c = [92, k]" "k \<noteq> 117"
  | (hex) "escape_char c = 92 # 117 # hex4 c" "c < 65536"
  | (plain) "escape_char c = [c]" "c \<noteq> 92" "c \<noteq> 34"
proof (cases "map_of SHORT_ESCAPES c")
  case (Some k)
  then show ?thesis using short short_escape_code by (simp add: escape_char_def)
next
  case None
  then have "c \<noteq> 92" "c \<noteq> 34" using plain_char [of c] by blast+
  with None show ?thesis
    using hex plain
    by (cases "c < 32 \<or> (0xd800 \<le> c \<and> c \<le> 0xdfff)") (auto simp: escape_char_def)
qed

lemma escape_char_read:
  assumes "escape_char c @ x = escape_char d @ y"
  shows "c = d \<and> x = y"
proof (cases c rule: escape_char_cases)
  case (short k)
  with assms show ?thesis
    by (cases d rule: escape_char_cases) (auto dest: short_escape_inject)
next
  case hex
  show ?thesis
  proof (cases d rule: escape_char_cases)
    case h: hex
    with hex assms have "hex4 c @ x = hex4 d @ y" by simp
    then have "hex4 c = hex4 d" "x = y" by (simp_all add: hex4_def)
    with hex4_inject hex(2) h(2) show ?thesis by blast
  qed (use assms hex in auto)
next
  case plain
  with assms show ?thesis by (cases d rule: escape_char_cases) auto
qed

lemma escape_char_not_quote: "escape_char c = 34 # z \<Longrightarrow> False" "escape_char c \<noteq> []"
  by (cases c rule: escape_char_cases; auto)+

lemma quote_read: "json_quote s @ r = json_quote t @ r' \<Longrightarrow> s = t \<and> r = r'"
proof -
  have "concat (map escape_char s) @ 34 # r = concat (map escape_char t) @ 34 # r' \<Longrightarrow> s = t \<and> r = r'"
  proof (induction s arbitrary: t)
    case Nil
    show ?case
    proof (cases t)
      case (Cons d t')
      with Nil escape_char_not_quote [of d] show ?thesis by (cases "escape_char d") auto
    qed (use Nil in simp)
  next
    case (Cons c s)
    show ?case
    proof (cases t)
      case Nil
      with Cons.prems escape_char_not_quote [of c] show ?thesis by (cases "escape_char c") auto
    next
      case t: (Cons d t')
      with Cons.prems have "escape_char c @ (concat (map escape_char s) @ 34 # r) =
          escape_char d @ (concat (map escape_char t') @ 34 # r')" by simp
      then have "c = d" "concat (map escape_char s) @ 34 # r = concat (map escape_char t') @ 34 # r'"
        by (blast dest: escape_char_read)+
      with Cons.IH t show ?thesis by blast
    qed
  qed
  then show "json_quote s @ r = json_quote t @ r' \<Longrightarrow> s = t \<and> r = r'" by (simp add: json_quote_def)
qed

text \<open>A printer is readable at \<open>x\<close> if the text of \<open>x\<close> before a delimiter is no other's.\<close>

definition readable :: "('a \<Rightarrow> str) \<Rightarrow> ('a \<Rightarrow> bool) \<Rightarrow> 'a \<Rightarrow> bool" where
  "readable f ok x \<longleftrightarrow>
     (\<forall>y r r'. ok y \<longrightarrow> delimited r \<longrightarrow> delimited r' \<longrightarrow> f x @ r = f y @ r' \<longrightarrow> x = y \<and> r = r')"

lemma readableD:
  "readable f ok x \<Longrightarrow> f x @ r = f y @ r' \<Longrightarrow> ok y \<Longrightarrow> delimited r \<Longrightarrow> delimited r' \<Longrightarrow>
   x = y \<and> r = r'"
  unfolding readable_def by blast

lemma tail_text_read:
  assumes "\<forall>x \<in> set xs. readable f ok x" "\<forall>y \<in> set ys. ok y" "e \<in> {93, 125}"
    "tail_text f e xs @ r = tail_text f e ys @ r'"
  shows "xs = ys \<and> r = r'"
  using assms
proof (induction xs arbitrary: ys)
  case Nil
  then show ?case by (cases ys) auto
next
  case (Cons x xs)
  have del: "delimited (tail_text f e zs @ q)" for zs q using Cons.prems(3) by (cases zs) auto
  from Cons.prems(3,4) obtain y ys' where ys: "ys = y # ys'" by (cases ys) auto
  with Cons.prems have "readable f ok x" "f x @ (tail_text f e xs @ r) = f y @ (tail_text f e ys' @ r')" "ok y"
    by auto
  from readableD [OF this del del] have "x = y" "tail_text f e xs @ r = tail_text f e ys' @ r'" by auto
  with Cons ys show ?case by auto
qed

lemma list_text_read:
  assumes "\<forall>x \<in> set xs. readable f ok x" "\<forall>y \<in> set ys. ok y" "e \<in> {93, 125}"
    "\<And>x z. f x \<noteq> e # z" "\<And>x. f x \<noteq> []"
    "list_text f e xs @ r = list_text f e ys @ r'"
  shows "xs = ys \<and> r = r'"
proof (cases xs; cases ys)
  fix x xs' y ys'
  assume xs: "xs = x # xs'" and ys: "ys = y # ys'"
  have del: "delimited (tail_text f e zs @ q)" for zs q using assms(3) by (cases zs) auto
  from assms(1,2,6) xs ys
  have "readable f ok x" "f x @ (tail_text f e xs' @ r) = f y @ (tail_text f e ys' @ r')" "ok y" by auto
  from readableD [OF this del del] have "x = y" "tail_text f e xs' @ r = tail_text f e ys' @ r'" by auto
  with tail_text_read [of xs' f ok ys' e r r'] assms xs ys show ?thesis by auto
next
  fix y ys'
  assume "xs = []" "ys = y # ys'"
  with assms(4) [of y] assms(5) [of y] assms(6) show ?thesis by (cases "f y") auto
next
  fix x xs'
  assume "xs = x # xs'" "ys = []"
  with assms(4) [of x] assms(5) [of x] assms(6) show ?thesis by (cases "f x") auto
qed (use assms(6) in auto)

text \<open>The first character of a text tells the kind of the value.\<close>

fun json_kind :: "json \<Rightarrow> nat" where
  "json_kind JUndef = 0"
| "json_kind JNull = 0"
| "json_kind (JBool b) = (if b then 1 else 2)"
| "json_kind (JNum x) = 3"
| "json_kind (JStr s) = 4"
| "json_kind (JArr xs) = 5"
| "json_kind (JObj kvs) = 6"

definition char_kind :: "nat \<Rightarrow> nat" where
  "char_kind c =
     (if c = 110 then 0 else if c = 116 then 1 else if c = 102 then 2 else if c = 34 then 4
      else if c = 91 then 5 else if c = 123 then 6 else 3)"

lemma print_json_not_Nil: "num_ok num \<Longrightarrow> print_json num v \<noteq> []"
  by (cases v) (simp_all add: json_quote_def num_ok_def)

lemma print_json_kind:
  assumes "num_ok num"
  shows "char_kind (hd (print_json num v)) = json_kind v"
proof (cases v)
  case (JNum x)
  from assms have "hd (num x) \<in> insert 45 {48..57}" by (simp add: num_ok_def)
  then have "char_kind (hd (num x)) = 3" by (auto simp: char_kind_def)
  with JNum show ?thesis by simp
qed (simp_all add: char_kind_def json_quote_def js_def)

lemma print_json_same_kind:
  assumes "num_ok num" "print_json num v @ r = print_json num w @ r'"
  shows "json_kind v = json_kind w"
  using print_json_kind [OF assms(1)] print_json_not_Nil [OF assms(1)] assms(2)
  by (metis hd_append2)

fun json_defined :: "json \<Rightarrow> bool" where
  "json_defined JUndef = False"
| "json_defined (JArr xs) = (\<forall>x \<in> set xs. json_defined x)"
| "json_defined (JObj kvs) = (\<forall>p \<in> set kvs. json_defined (snd p))"
| "json_defined _ = True"

lemma json_defined_norm: "json_defined (json_norm v)"
  by (induction v rule: json_norm.induct) auto

lemma member_readable:
  assumes "readable (print_json num) json_defined (snd p)"
  shows "readable (\<lambda>(k, v). json_quote k @ 58 # print_json num v) (\<lambda>q. json_defined (snd q)) p"
  unfolding readable_def
proof (intro allI impI)
  fix q r r'
  assume "json_defined (snd q)" "delimited r" "delimited r'"
    "(\<lambda>(k, v). json_quote k @ 58 # print_json num v) p @ r = (\<lambda>(k, v). json_quote k @ 58 # print_json num v) q @ r'"
  moreover from this(4) have "fst p = fst q" "print_json num (snd p) @ r = print_json num (snd q) @ r'"
    by (auto simp: case_prod_unfold dest: quote_read)
  ultimately show "p = q \<and> r = r'"
    using readableD [OF assms] by (auto simp: prod_eq_iff)
qed

lemma print_json_readable:
  assumes num: "num_ok num"
  shows "json_defined v \<Longrightarrow> readable (print_json num) json_defined v"
proof (induction v)
  case (JArr xs)
  show ?case
    unfolding readable_def
  proof (intro allI impI)
    fix w r r'
    assume w: "json_defined w" "print_json num (JArr xs) @ r = print_json num w @ r'"
    with print_json_same_kind [OF num w(2)] obtain ys where ys: "w = JArr ys"
      by (cases w) (auto split: if_splits)
    with w have texts: "list_text (print_json num) 93 xs @ r = list_text (print_json num) 93 ys @ r'"
      by (simp add: join_comma_list_text [symmetric])
    have "num x \<noteq> 93 # z" for x z
      using num [unfolded num_ok_def, THEN conjunct2, THEN spec, of x] by auto
    then have "print_json num x \<noteq> 93 # z" for x z by (cases x) (simp_all add: json_quote_def js_def)
    with JArr w(1) ys texts list_text_read [of xs "print_json num" json_defined ys 93 r r']
    show "JArr xs = w \<and> r = r'" by (simp add: print_json_not_Nil [OF num])
  qed
next
  case (JObj kvs)
  let ?f = "\<lambda>(k, v). json_quote k @ 58 # print_json num v"
  have mem: "\<forall>p \<in> set kvs. readable ?f (\<lambda>q. json_defined (snd q)) p"
    using JObj by (auto intro!: member_readable)
  show ?case
    unfolding readable_def
  proof (intro allI impI)
    fix w r r'
    assume w: "json_defined w" "print_json num (JObj kvs) @ r = print_json num w @ r'"
    with print_json_same_kind [OF num w(2)] obtain ys where ys: "w = JObj ys"
      by (cases w) (auto split: if_splits)
    with w have texts: "list_text ?f 125 kvs @ r = list_text ?f 125 ys @ r'"
      by (simp add: join_comma_list_text [symmetric])
    have "?f p \<noteq> 125 # z" "?f p \<noteq> []" for p z
      by (auto simp: json_quote_def case_prod_unfold)
    with mem w(1) ys texts list_text_read [of kvs ?f "\<lambda>q. json_defined (snd q)" ys 125 r r']
    show "JObj kvs = w \<and> r = r'" by simp
  qed
next
  case (JNum x)
  show ?case
    unfolding readable_def
  proof (intro allI impI)
    fix w r r'
    assume w: "delimited r" "delimited r'" "print_json num (JNum x) @ r = print_json num w @ r'"
    with print_json_same_kind [OF num w(3)] obtain y where "w = JNum y" by (cases w) (auto split: if_splits)
    with w num_read [OF num w(1,2)] show "JNum x = w \<and> r = r'" by simp
  qed
next
  case (JStr s)
  show ?case
    unfolding readable_def
  proof (intro allI impI)
    fix w r r'
    assume w: "print_json num (JStr s) @ r = print_json num w @ r'"
    with print_json_same_kind [OF num w] obtain t where "w = JStr t" by (cases w) (auto split: if_splits)
    with w show "JStr s = w \<and> r = r'" by (auto dest: quote_read)
  qed
next
  case (JBool b)
  show ?case
    unfolding readable_def
  proof (intro allI impI)
    fix w r r'
    assume w: "print_json num (JBool b) @ r = print_json num w @ r'"
    with print_json_same_kind [OF num w] have "w = JBool b" by (cases w) (auto split: if_splits)
    with w show "JBool b = w \<and> r = r'" by simp
  qed
next
  case JNull
  show ?case
    unfolding readable_def
  proof (intro allI impI)
    fix w r r'
    assume w: "json_defined w" "print_json num JNull @ r = print_json num w @ r'"
    with print_json_same_kind [OF num w(2)] have "w = JNull" by (cases w) (auto split: if_splits)
    with w show "JNull = w \<and> r = r'" by simp
  qed
qed simp

text \<open>Equal canonical texts before delimiters come from values equal up to key order and undefined
  members, and leave equal rests.\<close>

lemma canonicalize_inject:
  assumes "num_ok num" "delimited r" "delimited r'"
    "canonicalize num v @ r = canonicalize num w @ r'"
  shows "json_norm v = json_norm w \<and> r = r'"
  using readableD [OF print_json_readable [OF assms(1) json_defined_norm] _ json_defined_norm assms(2,3)]
    assms(4)
  by (simp add: canonicalize_norm)

section \<open>Reading members\<close>

text \<open>\<open>j.k\<close> on a parsed value: the last member of that name, undefined when there is none.\<close>

definition obj_get :: "json \<Rightarrow> str \<Rightarrow> json" where
  "obj_get j k = (case j of JObj kvs \<Rightarrow> nullish (map_of (rev kvs) k) JUndef | _ \<Rightarrow> JUndef)"

text \<open>The values that a condition takes for false.\<close>

definition json_falsy :: "json \<Rightarrow> bool" where
  "json_falsy j \<longleftrightarrow> j = JUndef \<or> j = JNull \<or> j = JBool False \<or> j = JNum 0 \<or> j = JStr []"

text \<open>Equal normal forms have, member by member, equal normal forms.\<close>

definition norm_member :: "(str \<times> json) list \<Rightarrow> str \<Rightarrow> json option" where
  "norm_member kvs k =
     (case map_of kvs k of Some v \<Rightarrow> if v = JUndef then None else Some (json_norm v) | None \<Rightarrow> None)"

lemma map_of_norm_filter:
  "distinct (map fst kvs) \<Longrightarrow>
     map_of (map (\<lambda>(k, v). (k, json_norm v)) (filter (\<lambda>(k, v). v \<noteq> JUndef) kvs)) k = norm_member kvs k"
  by (induction kvs) (auto simp: norm_member_def map_of_eq_None_iff image_iff split: option.splits)

lemma map_of_sort_key_fst: "distinct (map fst kvs) \<Longrightarrow> map_of (sort_key fst kvs) = map_of kvs"
proof -
  assume d: "distinct (map fst kvs)"
  have "mset (map fst (sort_key fst kvs)) = mset (map fst kvs)" by simp
  with d have "distinct (map fst (sort_key fst kvs))" by (metis mset_eq_imp_distinct_iff)
  with d show ?thesis by (intro map_of_eqI) (auto simp: map_of_eq_Some_iff)
qed

lemma norm_member_eq:
  assumes "json_norm (JObj a) = json_norm (JObj b)" "distinct (map fst a)" "distinct (map fst b)"
  shows "norm_member a k = norm_member b k"
proof -
  have sorted: "norm_member (sort_key fst kvs) k = norm_member kvs k" "distinct (map fst (sort_key fst kvs))"
    if "distinct (map fst kvs)" for kvs :: "(str \<times> json) list"
  proof -
    show "norm_member (sort_key fst kvs) k = norm_member kvs k"
      using that by (simp add: norm_member_def map_of_sort_key_fst)
    have "mset (map fst (sort_key fst kvs)) = mset (map fst kvs)" by simp
    with that show "distinct (map fst (sort_key fst kvs))" by (metis mset_eq_imp_distinct_iff)
  qed
  from assms(1) have "map_of (map (\<lambda>(k, v). (k, json_norm v)) (filter (\<lambda>(k, v). v \<noteq> JUndef) (sort_key fst a))) k =
      map_of (map (\<lambda>(k, v). (k, json_norm v)) (filter (\<lambda>(k, v). v \<noteq> JUndef) (sort_key fst b))) k" by simp
  then show ?thesis using sorted assms(2,3) by (simp add: map_of_norm_filter)
qed

end
