(* ===== verification/Audit_Payload.thy ===== *)
theory Audit_Payload
  imports Core_Types Canonical_Json
begin

text \<open>
  What is written into the audit log: the event types of \<open>src/core/audit.ts\<close>, the payload objects
  that the executor, the SDK and the earning desk record, and their JSON. A payload is the object
  in memory (\<open>payload\<close>), with its optional members as options; \<open>payload_json\<close> is the JSON that is
  hashed. The texts of reasons and fixes (\<open>reason_text\<close> and so on) are the templates of
  \<open>src/core/gate.ts\<close>, \<open>src/core/risk.ts\<close>, \<open>src/core/riskChain.ts\<close> and \<open>src/core/executor.ts\<close>;
  \<open>num\<close> writes the interpolated numbers.
\<close>

section \<open>Event types and payloads\<close>

datatype event_type =
    MandateGranted | MandateRevoked | MandateAmended
  | GateDecisionEvent
  | PaymentSettled | PaymentVerified | PaymentFailed | PaymentRefunded | PaymentHalted
  | EarningQuoted | EarningReceived | EarningRejected

fun event_text :: "event_type \<Rightarrow> str" where
  "event_text MandateGranted = js ''mandate.granted''"
| "event_text MandateRevoked = js ''mandate.revoked''"
| "event_text MandateAmended = js ''mandate.amended''"
| "event_text GateDecisionEvent = js ''gate.decision''"
| "event_text PaymentSettled = js ''payment.settled''"
| "event_text PaymentVerified = js ''payment.verified''"
| "event_text PaymentFailed = js ''payment.failed''"
| "event_text PaymentRefunded = js ''payment.refunded''"
| "event_text PaymentHalted = js ''payment.halted''"
| "event_text EarningQuoted = js ''earning.quoted''"
| "event_text EarningReceived = js ''earning.received''"
| "event_text EarningRejected = js ''earning.rejected''"

text \<open>\<open>ReplayInputs\<close>: what the gate consumed besides the policy. Records are association lists.\<close>

record replay_inputs =
  ri_reversibility :: "reversibility option"
  ri_attestation :: "attestation option"
  ri_reputation :: "reputation_level option"
  ri_trust :: "trust_level option"
  ri_knownPayees :: "str list"
  ri_periodSpend :: "(str \<times> prior_spend list) list"
  ri_fxRates :: "(str \<times> jsnum) list option"

datatype phase = PhaseAgent | PhaseOperatorApproval

text \<open>The payload of a \<open>gate.decision\<close>: the executor's two phases record different members.\<close>

record decision_payload =
  dp_intentId :: str
  dp_phase :: phase
  dp_outcome :: gate_outcome
  dp_reasons :: "reason list"
  dp_mandateId :: "str option"
  dp_riskTier :: "risk_tier option"
  dp_verdict :: "gate_decision option"
  dp_ctxDigest :: "str option"
  dp_intent :: "payment_intent option"
  dp_inputs :: "replay_inputs option"
  dp_operatorRationale :: "str option"
  dp_acknowledged :: "bool option"
  dp_policyHash :: "str option"

text \<open>A partial change to a mandate, \<open>Partial<Mandate>\<close>.\<close>

record mandate_patch =
  mp_label :: "str option"
  mp_scope :: "payee_scope option"
  mp_currency :: "str option"
  mp_allowedRails :: "rail_kind list option"
  mp_perTxCap :: "jsnum option"
  mp_perPeriodCap :: "jsnum option"
  mp_period :: "period option"
  mp_grantedAt :: "str option"
  mp_expiresAt :: "str option"
  mp_status :: "mandate_status option"

datatype payload =
    GateDecisionP decision_payload
  | PaymentSettledP str str jsnum str rail_kind
  | PaymentVerifiedP str str bool
  | PaymentFailedP str js_error
  | PaymentRefundedP str jsnum str "str option"
  | PaymentHaltedP str phase halt_reason
  | MandateGrantedP str str
  | MandateRevokedP str
  | MandateAmendedP str mandate_patch
  | MandateExtendedP str str
  | JsonP json

section \<open>Texts\<close>

fun period_text :: "period \<Rightarrow> str" where
  "period_text Day = js ''day''"
| "period_text Week = js ''week''"
| "period_text Month = js ''month''"

fun outcome_text :: "gate_outcome \<Rightarrow> str" where
  "outcome_text AutoExecute = js ''auto_execute''"
| "outcome_text ConfirmOperator = js ''confirm_operator''"
| "outcome_text Block = js ''block''"

fun tier_text :: "risk_tier \<Rightarrow> str" where
  "tier_text TierNone = js ''none''"
| "tier_text TierLow = js ''low''"
| "tier_text TierMedium = js ''medium''"
| "tier_text TierHigh = js ''high''"

fun phase_text :: "phase \<Rightarrow> str" where
  "phase_text PhaseAgent = js ''agent''"
| "phase_text PhaseOperatorApproval = js ''operator_approval''"

fun attestation_text :: "attestation \<Rightarrow> str" where
  "attestation_text AttNone = js ''none''"
| "attestation_text AttSigned = js ''signed''"
| "attestation_text AttRegistryAttested = js ''registry_attested''"

fun reputation_text :: "reputation_level \<Rightarrow> str" where
  "reputation_text RepGood = js ''good''"
| "reputation_text RepNeutral = js ''neutral''"
| "reputation_text RepFlagged = js ''flagged''"
| "reputation_text RepUnknown = js ''unknown''"

fun trust_text :: "trust_level \<Rightarrow> str" where
  "trust_text TrustNew = js ''new''"
| "trust_text TrustSeen = js ''seen''"
| "trust_text TrustTrusted = js ''trusted''"

fun reversibility_text :: "reversibility \<Rightarrow> str" where
  "reversibility_text Reversible = js ''reversible''"
| "reversibility_text Irreversible = js ''irreversible''"

fun chain_type_text :: "chain_type \<Rightarrow> str" where
  "chain_type_text Smurfing = js ''SMURFING''"
| "chain_type_text Splitting = js ''SPLITTING''"
| "chain_type_text Probing = js ''PROBING''"
| "chain_type_text DrainAfterGrant = js ''DRAIN_AFTER_GRANT''"

fun error_text :: "js_error \<Rightarrow> str" where
  "error_text RangeError = js ''Invalid time value''"
| "error_text (DuplicateKey k) = k @ js '' already exists''"
| "error_text (NotFound k) = k @ js '' not found''"
| "error_text (NotPending k) = k"
| "error_text (Thrown m) = m"

fun halt_text :: "halt_reason \<Rightarrow> str" where
  "halt_text KillSwitchEngaged = js ''kill switch engaged''"
| "halt_text (BreakerOpen n) =
     js ''circuit breaker open ('' @ show_int n @ js '' consecutive blocks/failures)''"

definition dquoted :: "str \<Rightarrow> str" where
  "dquoted s = 34 # s @ [34]"

fun chain_text :: "(jsnum \<Rightarrow> str) \<Rightarrow> chain_reason \<Rightarrow> str" where
  "chain_text num (SmurfingReason n payee w tot) =
     js ''Smurfing/Slicing alert: '' @ show_nat n @ js '' auto-executed payments to '' @ dquoted payee @
     js '' within '' @ num w @ js ''m, totaling '' @ num tot @ js '' minor-units.''"
| "chain_text num (SplittingReason payee rails w tot) =
     js ''Cross-rail splitting alert: payments to '' @ dquoted payee @ js '' spread across '' @
     show_nat rails @ js '' rails within '' @ num w @ js ''m, totaling '' @ num tot @ js '' minor-units.''"
| "chain_text num (ProbingReason n payees w) =
     js ''Probing/Scan alert: '' @ show_nat n @ js '' blocked or pending payment intents across '' @
     show_nat payees @ js '' distinct payees within '' @ num w @ js ''m.''"
| "chain_text num (DrainReason amount percent mandateId minutes) =
     js ''Drain-after-grant alert: payment of '' @ num amount @ js '' minor-units consumed '' @ num percent @
     js ''% of mandate '' @ dquoted mandateId @ js '''s available period budget '' @ num minutes @
     js ''m after it was granted.''"

fun risk_reason_text :: "(jsnum \<Rightarrow> str) \<Rightarrow> risk_reason \<Rightarrow> str" where
  "risk_reason_text num PayeeFlagged = js ''payee is flagged in network reputation''"
| "risk_reason_text num PayeeGoodReputation = js ''payee has good network reputation''"
| "risk_reason_text num AgentUnverified = js ''acting agent identity is unverified''"
| "risk_reason_text num AgentRegistryAttested = js ''acting agent is registry-attested''"
| "risk_reason_text num PayeeNoHistory = js ''payee has no prior history''"
| "risk_reason_text num PayeeTrusted = js ''trusted payee''"
| "risk_reason_text num (AmountAnomalous multiple baseline) =
     js ''amount is '' @ num multiple @ js ''x above the period median ('' @ num baseline @ js '' minor-units)''"
| "risk_reason_text num IrreversibleNovelPayee = js ''irreversible settlement to a novel payee''"

fun reason_text :: "(jsnum \<Rightarrow> str) \<Rightarrow> reason \<Rightarrow> str" where
  "reason_text num AmountNotPositiveInteger = js ''amount must be a positive integer in minor-units''"
| "reason_text num (RationaleTooShort n) = js ''rationale must be at least '' @ show_nat n @ js '' characters''"
| "reason_text num (DenyListed r) = js ''deny-list: '' @ r"
| "reason_text num NoLiveMandate =
     js ''no live mandate covers this payment '' @ [0x2014] @ js '' operator authorization required''"
| "reason_text num (OverTxCap amount currency cap) =
     js ''amount '' @ num amount @ [32] @ currency @ js '' exceeds per-transaction cap '' @ num cap"
| "reason_text num (OverPeriodBudget amount p spent cap) =
     js ''amount '' @ num amount @ js '' would exceed the '' @ period_text p @ js '' budget ('' @ num spent @
     js '' already spent of '' @ num cap @ js '')''"
| "reason_text num NewPayee = js ''new payee''"
| "reason_text num (VelocityCeiling n w) =
     js ''velocity ceiling: '' @ show_nat n @ js '' payments in the last '' @ show_int w @ js ''m''"
| "reason_text num ElevatedSpendRisk = js ''elevated spend-risk''"
| "reason_text num WithinMandate = js ''within live mandate, under caps, low risk''"
| "reason_text num (RiskChainReason c) = js ''RiskChain: '' @ chain_text num c"
| "reason_text num (HaltedReason h) = js ''halted: '' @ halt_text h"
| "reason_text num (ErrorReason e) = error_text e"

section \<open>JSON of the recorded objects\<close>

definition json_opt :: "('a \<Rightarrow> json) \<Rightarrow> 'a option \<Rightarrow> json" where
  "json_opt f x = (case x of Some y \<Rightarrow> f y | None \<Rightarrow> JUndef)"

definition json_nullable :: "('a \<Rightarrow> json) \<Rightarrow> 'a option \<Rightarrow> json" where
  "json_nullable f x = (case x of Some y \<Rightarrow> f y | None \<Rightarrow> JNull)"

fun fix_json :: "(jsnum \<Rightarrow> str) \<Rightarrow> safe_fix \<Rightarrow> json" where
  "fix_json num (ExpandRationale n) =
     JObj [(js ''code'', JStr (js ''EXPAND_RATIONALE'')),
           (js ''message'', JStr (js ''Add more details to rationale (must be at least '' @ show_nat n @ js '' characters)''))]"
| "fix_json num DenyListBypass =
     JObj [(js ''code'', JStr (js ''DENY_LIST_BYPASS'')),
           (js ''message'', JStr (js ''Payment is on a hard deny-list. Verify payee or request operator override.''))]"
| "fix_json num (GrantMandate cls payee) =
     JObj [(js ''code'', JStr (js ''GRANT_MANDATE'')),
           (js ''message'', JStr (js ''Run 'agentworth mandate grant --label target --class '' @ cls @ js '' ...'' @ [39])),
           (js ''parameters'', JObj [(js ''payeeClass'', JStr cls), (js ''payee'', JStr payee)])]"
| "fix_json num (IncreaseTxCap mid cap currency) =
     JObj [(js ''code'', JStr (js ''INCREASE_TX_CAP'')),
           (js ''message'', JStr (js ''Exceeds per-transaction limit of '' @ num cap @ [32] @ currency @
              js ''. Request operator to increase cap or split payment.'')),
           (js ''parameters'', JObj [(js ''mandateId'', JStr mid), (js ''limit'', JNum cap)])]"
| "fix_json num (IncreasePeriodCap mid cap spent) =
     JObj [(js ''code'', JStr (js ''INCREASE_PERIOD_CAP'')),
           (js ''message'', JStr (js ''Exceeds period budget ('' @ num spent @ js '' spent of '' @ num cap @
              js ''). Request operator to increase period cap.'')),
           (js ''parameters'', JObj [(js ''mandateId'', JStr mid), (js ''limit'', JNum cap), (js ''spent'', JNum spent)])]"
| "fix_json num (ConfirmOperatorFix iid) =
     JObj [(js ''code'', JStr (js ''CONFIRM_OPERATOR'')),
           (js ''message'', JStr (js ''Requires operator confirmation. Ask operator to approve intent ID '' @ iid @ [46])),
           (js ''parameters'', JObj [(js ''intentId'', JStr iid)])]"
| "fix_json num (ConfirmRiskChain t r) =
     JObj [(js ''code'', JStr (js ''CONFIRM_OPERATOR'')),
           (js ''message'', JStr (js ''Requires operator confirmation due to multi-step risk alerts.'')),
           (js ''parameters'', JObj [(js ''type'', JStr (chain_type_text t)), (js ''reason'', JStr (chain_text num r))])]"

definition risk_json :: "(jsnum \<Rightarrow> str) \<Rightarrow> spend_risk \<Rightarrow> json" where
  "risk_json num r =
     JObj [(js ''tier'', JStr (tier_text (sr_tier r))), (js ''score'', JNum (of_int (sr_score r))),
           (js ''reasons'', JArr (map (\<lambda>x. JStr (risk_reason_text num x)) (sr_reasons r)))]"

definition reasons_json :: "(jsnum \<Rightarrow> str) \<Rightarrow> reason list \<Rightarrow> json" where
  "reasons_json num rs = JArr (map (\<lambda>x. JStr (reason_text num x)) rs)"

definition decision_json :: "(jsnum \<Rightarrow> str) \<Rightarrow> gate_decision \<Rightarrow> json" where
  "decision_json num d =
     JObj [(js ''outcome'', JStr (outcome_text (gd_outcome d))), (js ''reasons'', reasons_json num (gd_reasons d)),
           (js ''mandateId'', json_nullable JStr (gd_mandateId d)), (js ''risk'', risk_json num (gd_risk d)),
           (js ''remainingPeriodBudget'', json_nullable JNum (gd_remaining d)),
           (js ''suggestedFix'', json_opt (fix_json num) (gd_fix d))]"

definition intent_json :: "payment_intent \<Rightarrow> json" where
  "intent_json i =
     JObj [(js ''id'', JStr (i_id i)), (js ''payee'', JStr (i_payee i)), (js ''payeeClass'', JStr (i_payeeClass i)),
           (js ''amount'', JNum (i_amount i)), (js ''currency'', JStr (i_currency i)),
           (js ''rail'', JStr (rail_text (i_rail i))), (js ''rationale'', JStr (i_rationale i)),
           (js ''createdAt'', JStr (i_createdAt i))]"

definition spend_json :: "prior_spend \<Rightarrow> json" where
  "spend_json s = JObj [(js ''amount'', JNum (ps_amount s)), (js ''at'', JStr (ps_at s))]"

definition inputs_json :: "replay_inputs \<Rightarrow> json" where
  "inputs_json r =
     JObj [(js ''reversibility'', json_opt (JStr \<circ> reversibility_text) (ri_reversibility r)),
           (js ''trust'', json_opt (JStr \<circ> trust_text) (ri_trust r)),
           (js ''knownPayees'', JArr (map JStr (ri_knownPayees r))),
           (js ''periodSpendByMandate'', JObj (map (\<lambda>(k, ss). (k, JArr (map spend_json ss))) (ri_periodSpend r))),
           (js ''attestation'', json_opt (JStr \<circ> attestation_text) (ri_attestation r)),
           (js ''reputation'', json_opt (JStr \<circ> reputation_text) (ri_reputation r)),
           (js ''fxRates'', json_opt (\<lambda>fx. JObj (map (\<lambda>(k, x). (k, JNum x)) fx)) (ri_fxRates r))]"

definition scope_json :: "payee_scope \<Rightarrow> json" where
  "scope_json s =
     (case s of
        ScopeClass v \<Rightarrow> JObj [(js ''kind'', JStr (js ''class'')), (js ''value'', JStr v)]
      | ScopeAllowlist vs \<Rightarrow> JObj [(js ''kind'', JStr (js ''allowlist'')), (js ''values'', JArr (map JStr vs))])"

fun status_text :: "mandate_status \<Rightarrow> str" where
  "status_text Active = js ''active''"
| "status_text Revoked = js ''revoked''"

definition patch_json :: "mandate_patch \<Rightarrow> json" where
  "patch_json p =
     JObj [(js ''label'', json_opt JStr (mp_label p)), (js ''scope'', json_opt scope_json (mp_scope p)),
           (js ''currency'', json_opt JStr (mp_currency p)),
           (js ''allowedRails'', json_opt (\<lambda>rs. JArr (map (JStr \<circ> rail_text) rs)) (mp_allowedRails p)),
           (js ''perTxCap'', json_opt JNum (mp_perTxCap p)), (js ''perPeriodCap'', json_opt JNum (mp_perPeriodCap p)),
           (js ''period'', json_opt (JStr \<circ> period_text) (mp_period p)),
           (js ''grantedAt'', json_opt JStr (mp_grantedAt p)), (js ''expiresAt'', json_opt JStr (mp_expiresAt p)),
           (js ''status'', json_opt (JStr \<circ> status_text) (mp_status p))]"

definition decision_payload_json :: "(jsnum \<Rightarrow> str) \<Rightarrow> decision_payload \<Rightarrow> json" where
  "decision_payload_json num p =
     JObj [(js ''intentId'', JStr (dp_intentId p)), (js ''phase'', JStr (phase_text (dp_phase p))),
           (js ''outcome'', JStr (outcome_text (dp_outcome p))), (js ''reasons'', reasons_json num (dp_reasons p)),
           (js ''mandateId'', json_nullable JStr (dp_mandateId p)),
           (js ''riskTier'', json_opt (JStr \<circ> tier_text) (dp_riskTier p)),
           (js ''verdict'', json_opt (decision_json num) (dp_verdict p)),
           (js ''ctxDigest'', json_opt JStr (dp_ctxDigest p)),
           (js ''intent'', json_opt intent_json (dp_intent p)),
           (js ''inputs'', json_opt inputs_json (dp_inputs p)),
           (js ''operatorRationale'', json_opt JStr (dp_operatorRationale p)),
           (js ''acknowledged'', json_opt JBool (dp_acknowledged p)),
           (js ''policyHash'', json_opt JStr (dp_policyHash p))]"

fun payload_json :: "(jsnum \<Rightarrow> str) \<Rightarrow> payload \<Rightarrow> json" where
  "payload_json num (GateDecisionP p) = decision_payload_json num p"
| "payload_json num (PaymentSettledP iid rid amount currency rail) =
     JObj [(js ''intentId'', JStr iid), (js ''receiptId'', JStr rid), (js ''amount'', JNum amount),
           (js ''currency'', JStr currency), (js ''rail'', JStr (rail_text rail))]"
| "payload_json num (PaymentVerifiedP iid rid ok) =
     JObj [(js ''intentId'', JStr iid), (js ''receiptId'', JStr rid), (js ''ok'', JBool ok)]"
| "payload_json num (PaymentFailedP iid e) = JObj [(js ''intentId'', JStr iid), (js ''error'', JStr (error_text e))]"
| "payload_json num (PaymentRefundedP iid amount ref reason) =
     JObj [(js ''intentId'', JStr iid), (js ''amount'', JNum amount), (js ''refundRef'', JStr ref),
           (js ''reason'', json_opt JStr reason)]"
| "payload_json num (PaymentHaltedP iid ph h) =
     JObj [(js ''intentId'', JStr iid), (js ''phase'', JStr (phase_text ph)), (js ''reason'', JStr (halt_text h))]"
| "payload_json num (MandateGrantedP mid label) = JObj [(js ''id'', JStr mid), (js ''label'', JStr label)]"
| "payload_json num (MandateRevokedP mid) = JObj [(js ''id'', JStr mid)]"
| "payload_json num (MandateAmendedP mid p) = JObj [(js ''id'', JStr mid), (js ''patch'', patch_json p)]"
| "payload_json num (MandateExtendedP mid t) = JObj [(js ''id'', JStr mid), (js ''extendedTo'', JStr t)]"
| "payload_json num (JsonP j) = j"

lemma event_text_no_newline: "10 \<notin> set (event_text t)"
  by (cases t) (simp_all add: js_def)

lemma event_text_inject: "event_text t = event_text u \<Longrightarrow> t = u"
  by (cases t; cases u) simp_all

end
