(* ===== verification/Key_Custody.thy ===== *)
theory Key_Custody
  imports JS_Prelude
begin

text \<open>
  Custody of the audit-signing key, \<open>src/core/keyCustody.ts\<close>: the static, environment and key-ring
  providers, and the provider backed by an injected key-management service with its cache and
  rotation. The service is an argument, the function that answers \<open>getKey(keyId, version?)\<close> at the
  moment of the call.

  The locale \<open>key_custody\<close> is the law the audit log needs of a provider: the key it signs with is
  the key it later resolves for that version. Every provider of the source is an interpretation;
  for the key ring the law needs that no historical key reuses the current version's label.
\<close>

record versioned_key =
  vk_version :: str
  vk_material :: str

text \<open>\<open>KeyProvider\<close>: the key for new entries, and the key of any version.\<close>

record key_provider =
  kp_current :: "js_error + versioned_key"
  kp_resolve :: "str \<Rightarrow> js_error + versioned_key"

locale key_custody =
  fixes provider :: key_provider
  assumes current_resolves: "kp_current provider = Inr vk \<Longrightarrow> kp_resolve provider (vk_version vk) = Inr vk"
begin

lemma signing_key_resolves:
  assumes "kp_current provider = Inr vk"
  shows "\<exists>vk'. kp_resolve provider (vk_version vk) = Inr vk' \<and> vk_material vk' = vk_material vk"
  using current_resolves [OF assms] by blast

end

section \<open>Static and environment keys\<close>

definition fixed_provider :: "js_error \<Rightarrow> versioned_key \<Rightarrow> key_provider" where
  "fixed_provider unknown vk =
     \<lparr>kp_current = Inr vk,
      kp_resolve = (\<lambda>v. if v \<noteq> vk_version vk then Inl unknown else Inr vk)\<rparr>"

definition staticKeyProvider :: "str \<Rightarrow> str \<Rightarrow> js_error + key_provider" where
  "staticKeyProvider key version =
     (if key = [] then Inl (Thrown (js ''staticKeyProvider requires a non-empty key''))
      else Inr (fixed_provider (Thrown (js ''staticKeyProvider: unknown key version''))
             \<lparr>vk_version = version, vk_material = key\<rparr>))"

definition EnvKeyProvider :: "(str \<times> str) list \<Rightarrow> str \<Rightarrow> str \<Rightarrow> js_error + key_provider" where
  "EnvKeyProvider env varName version =
     (case map_of env varName of
        None \<Rightarrow> Inl (Thrown (js ''EnvKeyProvider: unset''))
      | Some raw \<Rightarrow>
          if raw = [] then Inl (Thrown (js ''EnvKeyProvider: unset''))
          else Inr (fixed_provider (Thrown (js ''EnvKeyProvider: unknown key version''))
                 \<lparr>vk_version = version, vk_material = raw\<rparr>))"

interpretation fixed: key_custody "fixed_provider e vk" for e vk
  by unfold_locales (simp add: fixed_provider_def)

section \<open>The key ring\<close>

type_synonym key_ring = "(str, str) omap"

definition ring_of :: "versioned_key list \<Rightarrow> key_ring" where
  "ring_of keys = fold (\<lambda>k. AList.update (vk_version k) (vk_material k)) keys []"

definition ring_add :: "versioned_key \<Rightarrow> key_ring \<Rightarrow> key_ring" where
  "ring_add k ring = AList.update (vk_version k) (vk_material k) ring"

definition ring_has :: "key_ring \<Rightarrow> str \<Rightarrow> bool" where
  "ring_has ring version \<longleftrightarrow> map_of ring version \<noteq> None"

definition ring_resolve :: "key_ring \<Rightarrow> str \<Rightarrow> js_error + versioned_key" where
  "ring_resolve ring version =
     (case map_of ring version of
        Some material \<Rightarrow>
          if material = [] then Inl (Thrown (js ''KeyRing: no key for version''))
          else Inr \<lparr>vk_version = version, vk_material = material\<rparr>
      | None \<Rightarrow> Inl (Thrown (js ''KeyRing: no key for version'')))"

definition keyRingProvider :: "versioned_key \<Rightarrow> versioned_key list \<Rightarrow> key_provider" where
  "keyRingProvider current historical =
     (let ring = ring_of (current # historical)
      in \<lparr>kp_current = Inr current, kp_resolve = ring_resolve ring\<rparr>)"

lemma map_of_ring_fold:
  "map_of (fold (\<lambda>k. AList.update (vk_version k) (vk_material k)) keys ring) v =
     (case List.find (\<lambda>k. vk_version k = v) (rev keys) of
        Some k \<Rightarrow> Some (vk_material k) | None \<Rightarrow> map_of ring v)"
proof (induction keys arbitrary: ring)
  case Nil
  then show ?case by simp
next
  case (Cons k keys)
  show ?case
    by (cases "List.find (\<lambda>k. vk_version k = v) (rev keys)"; cases "vk_version k = v")
      (simp_all add: Cons.IH find_append omap.get_put)
qed

lemma ring_resolve_of:
  "ring_resolve (ring_of keys) v =
     (case List.find (\<lambda>k. vk_version k = v) (rev keys) of
        Some k \<Rightarrow> if vk_material k = [] then Inl (Thrown (js ''KeyRing: no key for version''))
                 else Inr \<lparr>vk_version = v, vk_material = vk_material k\<rparr>
      | None \<Rightarrow> Inl (Thrown (js ''KeyRing: no key for version'')))"
  by (simp add: ring_resolve_def ring_of_def map_of_ring_fold split: option.split)

lemma find_rev_unique:
  assumes "\<forall>k \<in> set ks. vk_version k \<noteq> v"
  shows "List.find (\<lambda>k. vk_version k = v) (rev ks @ [c]) = (if vk_version c = v then Some c else None)"
  using assms by (induction ks rule: rev_induct) (auto simp: find_append)

lemma keyRingProvider_custody:
  assumes "vk_material current \<noteq> []" "\<forall>k \<in> set historical. vk_version k \<noteq> vk_version current"
  shows "key_custody (keyRingProvider current historical)"
  using assms
  by unfold_locales (auto simp: keyRingProvider_def Let_def ring_resolve_of find_rev_unique)

text \<open>A ring of one key is a provider for every key with material.\<close>

interpretation ring: key_custody "keyRingProvider \<lparr>vk_version = v, vk_material = c # m\<rparr> []" for v c m
  by (rule keyRingProvider_custody) simp_all

section \<open>The key-management service\<close>

text \<open>\<open>client keyId version\<close> is the service's answer: the version it served and the key bytes.\<close>

type_synonym kms_client = "str \<Rightarrow> str option \<Rightarrow> js_error + versioned_key"

record kms =
  kms_keyId :: str
  kms_cache :: "(str, str) omap"
  kms_currentVersion :: str

definition kms_fetch :: "kms_client \<Rightarrow> str \<Rightarrow> (str, str) omap \<Rightarrow> str option \<Rightarrow>
    (js_error + versioned_key) \<times> (str, str) omap" where
  "kms_fetch client keyId cache version =
     (case client keyId version of
        Inl e \<Rightarrow> (Inl e, cache)
      | Inr vk \<Rightarrow>
          if vk_material vk = []
          then (Inl (Thrown (js ''KmsKeyProvider: KMS returned empty key material'')), cache)
          else (Inr vk, AList.update (vk_version vk) (vk_material vk) cache))"

definition kms_new :: "kms_client option \<Rightarrow> str \<Rightarrow> str option \<Rightarrow> js_error + kms" where
  "kms_new client keyId version =
     (case client of
        None \<Rightarrow> Inl (Thrown (js ''KmsKeyProvider: no KmsClient injected''))
      | Some cl \<Rightarrow>
          if keyId = [] then Inl (Thrown (js ''KmsKeyProvider: keyId is required''))
          else (case kms_fetch cl keyId [] version of
                  (Inl e, _) \<Rightarrow> Inl e
                | (Inr vk, cache) \<Rightarrow>
                    Inr \<lparr>kms_keyId = keyId, kms_cache = cache, kms_currentVersion = vk_version vk\<rparr>))"

definition kms_rotate :: "kms_client \<Rightarrow> kms \<Rightarrow> (js_error + str) \<times> kms" where
  "kms_rotate client k =
     (case kms_fetch client (kms_keyId k) (kms_cache k) None of
        (Inl e, cache) \<Rightarrow> (Inl e, k\<lparr>kms_cache := cache\<rparr>)
      | (Inr vk, cache) \<Rightarrow>
          (Inr (vk_version vk), k\<lparr>kms_cache := cache, kms_currentVersion := vk_version vk\<rparr>))"

definition kms_current :: "kms \<Rightarrow> js_error + versioned_key" where
  "kms_current k =
     (case map_of (kms_cache k) (kms_currentVersion k) of
        Some material \<Rightarrow> Inr \<lparr>vk_version = kms_currentVersion k, vk_material = material\<rparr>
      | None \<Rightarrow> Inl (Thrown (js ''KmsKeyProvider: current key material missing'')))"

definition kms_resolve :: "kms_client \<Rightarrow> kms \<Rightarrow> str \<Rightarrow> (js_error + versioned_key) \<times> kms" where
  "kms_resolve client k version =
     (case map_of (kms_cache k) version of
        Some material \<Rightarrow> (Inr \<lparr>vk_version = version, vk_material = material\<rparr>, k)
      | None \<Rightarrow>
          (case kms_fetch client (kms_keyId k) (kms_cache k) (Some version) of
             (r, cache) \<Rightarrow> (r, k\<lparr>kms_cache := cache\<rparr>)))"

definition kms_provider :: "kms_client \<Rightarrow> kms \<Rightarrow> key_provider" where
  "kms_provider client k =
     \<lparr>kp_current = kms_current k, kp_resolve = (\<lambda>v. fst (kms_resolve client k v))\<rparr>"

interpretation kms: key_custody "kms_provider client k" for client k
  by unfold_locales (auto simp: kms_provider_def kms_current_def kms_resolve_def split: option.splits)

text \<open>Every cached key has material, and the current version is cached: so \<open>current\<close> never throws.\<close>

definition kms_wf :: "kms \<Rightarrow> bool" where
  "kms_wf k \<longleftrightarrow> map_of (kms_cache k) (kms_currentVersion k) \<noteq> None \<and>
     (\<forall>v m. map_of (kms_cache k) v = Some m \<longrightarrow> m \<noteq> [])"

lemma kms_new_wf: "kms_new client keyId version = Inr k \<Longrightarrow> kms_wf k"
  by (auto simp: kms_new_def kms_fetch_def kms_wf_def split: option.splits if_splits sum.splits)

lemma kms_rotate_wf: "kms_wf k \<Longrightarrow> kms_wf (snd (kms_rotate client k))"
  by (auto simp: kms_rotate_def kms_fetch_def kms_wf_def omap.get_put split: sum.splits if_splits)

lemma kms_resolve_wf: "kms_wf k \<Longrightarrow> kms_wf (snd (kms_resolve client k v))"
  by (auto simp: kms_resolve_def kms_fetch_def kms_wf_def omap.get_put
      split: option.splits sum.splits if_splits)

lemma kms_current_total: "kms_wf k \<Longrightarrow> \<exists>vk. kms_current k = Inr vk \<and> vk_material vk \<noteq> []"
  by (auto simp: kms_wf_def kms_current_def split: option.splits)

text \<open>
  Fact: rotating the key never breaks the verification of older entries. A version the provider
  has served stays resolvable to the same key after a rotation, unless the service re-issues that
  very version.
\<close>

theorem kms_rotate_keeps_versions:
  assumes "map_of (kms_cache k) v = Some m" "kms_rotate client k = (r, k')" "r \<noteq> Inr v"
  shows "fst (kms_resolve client' k' v) = Inr \<lparr>vk_version = v, vk_material = m\<rparr>"
  using assms
  by (auto simp: kms_rotate_def kms_fetch_def kms_resolve_def omap.get_put
      split: sum.splits if_splits option.splits)

theorem kms_rotate_keeps_versions_witness:
  "fst (kms_resolve (\<lambda>i v. Inl RangeError)
     (snd (kms_rotate (\<lambda>i v. Inr \<lparr>vk_version = js ''2'', vk_material = js ''new''\<rparr>)
        \<lparr>kms_keyId = js ''k'', kms_cache = [(js ''1'', js ''old'')], kms_currentVersion = js ''1''\<rparr>))
     (js ''1'')) = Inr \<lparr>vk_version = js ''1'', vk_material = js ''old''\<rparr>"
  by (rule kms_rotate_keeps_versions [where r = "Inr (js ''2'')" and
        client = "\<lambda>i v. Inr \<lparr>vk_version = js ''2'', vk_material = js ''new''\<rparr>" and
        k = "\<lparr>kms_keyId = js ''k'', kms_cache = [(js ''1'', js ''old'')], kms_currentVersion = js ''1''\<rparr>"])
    (simp_all add: kms_rotate_def kms_fetch_def)

end
