(* ===== verification/Audit_Log.thy ===== *)
theory Audit_Log
  imports Audit_Payload Key_Custody
begin

text \<open>
  The tamper-evident log, \<open>AuditLog\<close> of \<open>src/core/audit.ts\<close>: entries linked by hash, signed by a
  single key or by a versioned provider. SHA-256, HMAC and the number writer are the components of
  a \<open>crypto\<close> record, the arguments of everything that hashes; nothing is assumed of the two hash
  functions, and the tamper theorem instead exhibits the collision that an undetected change needs.

  The locale \<open>signed_log\<close> is what the rest of the kernel relies on: appending keeps a log valid and
  only adds one entry with the given type, payload and time. The single-key log interprets it.
\<close>

record crypto =
  sha256 :: "str \<Rightarrow> str"
  hmac_sha256 :: "str \<Rightarrow> str \<Rightarrow> str"
  num_text :: "jsnum \<Rightarrow> str"

record audit_entry =
  ae_seq :: nat
  ae_ts :: str
  ae_type :: event_type
  ae_payload :: payload
  ae_prevHash :: str
  ae_hash :: str
  ae_sig :: str
  ae_keyVersion :: "str option"

definition GENESIS :: str where
  "GENESIS = replicate 64 48"

section \<open>Hashing and signing\<close>

definition hash_input :: "crypto \<Rightarrow> nat \<Rightarrow> str \<Rightarrow> event_type \<Rightarrow> payload \<Rightarrow> str \<Rightarrow> str" where
  "hash_input c seq ts type pl prevHash =
     show_nat seq @ 10 # ts @ 10 # event_text type @ 10 #
     canonicalize (num_text c) (payload_json (num_text c) pl) @ 10 # prevHash"

definition hashEntry :: "crypto \<Rightarrow> nat \<Rightarrow> str \<Rightarrow> event_type \<Rightarrow> payload \<Rightarrow> str \<Rightarrow> str" where
  "hashEntry c seq ts type pl prevHash = sha256 c (hash_input c seq ts type pl prevHash)"

definition signHash :: "crypto \<Rightarrow> str \<Rightarrow> str \<Rightarrow> str" where
  "signHash c hash key = hmac_sha256 c key hash"

datatype signing = SingleKey str | ProviderKeys key_provider "str option"

text \<open>The constructor refuses an empty single key.\<close>

definition audit_new :: "signing \<Rightarrow> js_error + signing" where
  "audit_new signing =
     (case signing of
        SingleKey k \<Rightarrow>
          if k = [] then Inl (Thrown (js ''AuditLog requires a non-empty operator key'')) else Inr signing
      | ProviderKeys p legacy \<Rightarrow> Inr signing)"

fun sign_key :: "signing \<Rightarrow> js_error + str \<times> str option" where
  "sign_key (SingleKey k) = Inr (k, None)"
| "sign_key (ProviderKeys p legacyKey) =
     bindE (kp_current p) (\<lambda>cur. Inr (vk_material cur, Some (vk_version cur)))"

fun resolve_key :: "signing \<Rightarrow> str option \<Rightarrow> js_error + str" where
  "resolve_key (SingleKey k) version = Inr k"
| "resolve_key (ProviderKeys p legacyKey) None =
     (case legacyKey of
        Some k \<Rightarrow> if k = [] then Inl (Thrown (js ''entry has no keyVersion and no legacyKey was provided'')) else Inr k
      | None \<Rightarrow> Inl (Thrown (js ''entry has no keyVersion and no legacyKey was provided'')))"
| "resolve_key (ProviderKeys p legacyKey) (Some version) =
     bindE (kp_resolve p version) (\<lambda>k. Inr (vk_material k))"

section \<open>Appending\<close>

definition last_hash :: "audit_entry list \<Rightarrow> str" where
  "last_hash es = (if es = [] then GENESIS else ae_hash (last es))"

definition make_entry ::
  "crypto \<Rightarrow> audit_entry list \<Rightarrow> event_type \<Rightarrow> payload \<Rightarrow> str \<Rightarrow> str \<Rightarrow> str option \<Rightarrow> audit_entry" where
  "make_entry c es type pl ts material version =
     (let hash = hashEntry c (length es) ts type pl (last_hash es)
      in \<lparr>ae_seq = length es, ae_ts = ts, ae_type = type, ae_payload = pl, ae_prevHash = last_hash es,
          ae_hash = hash, ae_sig = signHash c hash material, ae_keyVersion = version\<rparr>)"

definition audit_append ::
  "crypto \<Rightarrow> signing \<Rightarrow> audit_entry list \<Rightarrow> event_type \<Rightarrow> payload \<Rightarrow> str \<Rightarrow>
   js_error + audit_entry \<times> audit_entry list" where
  "audit_append c sg es type pl ts =
     bindE (sign_key sg) (\<lambda>(material, version).
       let entry = make_entry c es type pl ts material version in Inr (entry, es @ [entry]))"

definition appendGateDecision ::
  "crypto \<Rightarrow> signing \<Rightarrow> audit_entry list \<Rightarrow> decision_payload \<Rightarrow> str \<Rightarrow> str \<Rightarrow>
   js_error + audit_entry \<times> audit_entry list" where
  "appendGateDecision c sg es pl policyHash ts =
     audit_append c sg es GateDecisionEvent (GateDecisionP (pl\<lparr>dp_policyHash := Some policyHash\<rparr>)) ts"

section \<open>Verification\<close>

datatype verify_reason = BrokenChainLink | ContentHashMismatch | KeyResolutionFailed js_error | SignatureMismatch

record verify_result =
  vr_valid :: bool
  vr_brokenAt :: "nat option"
  vr_reason :: "verify_reason option"

definition broken :: "nat \<Rightarrow> verify_reason \<Rightarrow> verify_result" where
  "broken n r = \<lparr>vr_valid = False, vr_brokenAt = Some n, vr_reason = Some r\<rparr>"

definition entry_hash :: "crypto \<Rightarrow> audit_entry \<Rightarrow> str" where
  "entry_hash c e = hashEntry c (ae_seq e) (ae_ts e) (ae_type e) (ae_payload e) (ae_prevHash e)"

fun verify_from :: "crypto \<Rightarrow> signing \<Rightarrow> str \<Rightarrow> audit_entry list \<Rightarrow> verify_result" where
  "verify_from c sg prevHash [] = \<lparr>vr_valid = True, vr_brokenAt = None, vr_reason = None\<rparr>"
| "verify_from c sg prevHash (e # es) =
     (if ae_prevHash e \<noteq> prevHash then broken (ae_seq e) BrokenChainLink
      else if entry_hash c e \<noteq> ae_hash e then broken (ae_seq e) ContentHashMismatch
      else
        (case resolve_key sg (ae_keyVersion e) of
           Inl err \<Rightarrow> broken (ae_seq e) (KeyResolutionFailed err)
         | Inr key \<Rightarrow>
             if signHash c (ae_hash e) key \<noteq> ae_sig e then broken (ae_seq e) SignatureMismatch
             else verify_from c sg (ae_hash e) es))"

definition audit_verify :: "crypto \<Rightarrow> signing \<Rightarrow> audit_entry list \<Rightarrow> verify_result" where
  "audit_verify c sg es = verify_from c sg GENESIS es"

section \<open>The chain as a predicate\<close>

text \<open>An entry that passes the three checks of the loop at a given predecessor hash.\<close>

definition entry_ok :: "crypto \<Rightarrow> signing \<Rightarrow> str \<Rightarrow> audit_entry \<Rightarrow> bool" where
  "entry_ok c sg prevHash e \<longleftrightarrow>
     ae_prevHash e = prevHash \<and> entry_hash c e = ae_hash e \<and>
     (case resolve_key sg (ae_keyVersion e) of
        Inl err \<Rightarrow> False | Inr key \<Rightarrow> signHash c (ae_hash e) key = ae_sig e)"

fun chain_ok :: "crypto \<Rightarrow> signing \<Rightarrow> str \<Rightarrow> audit_entry list \<Rightarrow> bool" where
  "chain_ok c sg prevHash [] = True"
| "chain_ok c sg prevHash (e # es) = (entry_ok c sg prevHash e \<and> chain_ok c sg (ae_hash e) es)"

lemma verify_from_cases:
  "verify_from c sg p (e # es) =
     (if entry_ok c sg p e then verify_from c sg (ae_hash e) es else verify_from c sg p [e])"
  by (auto simp: entry_ok_def broken_def split: sum.splits)

lemma verify_single_broken:
  "\<not> entry_ok c sg p e \<Longrightarrow> \<exists>r. verify_from c sg p [e] = broken (ae_seq e) r"
  by (auto simp: entry_ok_def split: sum.splits)

lemma verify_from_valid: "vr_valid (verify_from c sg p es) \<longleftrightarrow> chain_ok c sg p es"
proof (induction es arbitrary: p)
  case Nil
  show ?case by simp
next
  case (Cons e es)
  show ?case
  proof (cases "entry_ok c sg p e")
    case True
    with Cons verify_from_cases [of c sg p e es] show ?thesis by simp
  next
    case False
    with verify_single_broken [OF False] verify_from_cases [of c sg p e es] show ?thesis
      by (auto simp: broken_def)
  qed
qed

lemma audit_verify_valid [audit_simps]: "vr_valid (audit_verify c sg es) \<longleftrightarrow> chain_ok c sg GENESIS es"
  by (simp add: audit_verify_def verify_from_valid)

lemma chain_ok_append:
  "chain_ok c sg p (es @ fs) \<longleftrightarrow>
     chain_ok c sg p es \<and> chain_ok c sg (if es = [] then p else ae_hash (last es)) fs"
  by (induction es arbitrary: p) auto

lemma chain_ok_hash: "chain_ok c sg p es \<Longrightarrow> e \<in> set es \<Longrightarrow> ae_hash e = entry_hash c e"
  by (induction es arbitrary: p) (auto simp: entry_ok_def)

lemma chain_ok_prev:
  "chain_ok c sg p (es @ e # fs) \<Longrightarrow> ae_prevHash e = (if es = [] then p else ae_hash (last es))"
  by (simp add: chain_ok_append entry_ok_def)

section \<open>Appending keeps the chain\<close>

lemma make_entry_ok:
  assumes "resolve_key sg version = Inr material"
  shows "entry_ok c sg (last_hash es) (make_entry c es type pl ts material version)"
  using assms by (simp add: entry_ok_def make_entry_def entry_hash_def Let_def)

text \<open>Signing keys that resolve: a single key, or a provider under the custody law.\<close>

definition signing_ok :: "signing \<Rightarrow> bool" where
  "signing_ok sg \<longleftrightarrow>
     (\<forall>material version. sign_key sg = Inr (material, version) \<longrightarrow> resolve_key sg version = Inr material)"

lemma signing_ok_single [simp]: "signing_ok (SingleKey k)"
  by (simp add: signing_ok_def)

lemma signing_ok_provider: "key_custody p \<Longrightarrow> signing_ok (ProviderKeys p legacy)"
  by (auto simp: signing_ok_def bindE_Inr_iff dest: key_custody.current_resolves)

lemma audit_append_valid:
  assumes "vr_valid (audit_verify c sg es)" "signing_ok sg"
    "audit_append c sg es type pl ts = Inr (e, es')"
  shows "vr_valid (audit_verify c sg es') \<and> es' = es @ [e] \<and> ae_seq e = length es \<and>
    ae_type e = type \<and> ae_payload e = pl \<and> ae_ts e = ts"
proof -
  from assms(3) obtain material version where key: "sign_key sg = Inr (material, version)"
    and e: "e = make_entry c es type pl ts material version" "es' = es @ [e]"
    by (auto simp: audit_append_def bindE_Inr_iff Let_def)
  have "entry_ok c sg (last_hash es) e"
    using make_entry_ok assms(2) key unfolding signing_ok_def e(1) by blast
  with assms(1) have "vr_valid (audit_verify c sg es')"
    by (simp add: audit_simps chain_ok_append e(2) last_hash_def)
  with e show ?thesis by (simp add: make_entry_def Let_def)
qed

section \<open>A concrete log\<close>

text \<open>A number writer the laws admit, hash functions without collisions, and a log of two entries; the
  runs of the other theories use the same.\<close>

definition example_num :: "jsnum \<Rightarrow> str" where
  "example_num x = (case quotient_of x of (a, b) \<Rightarrow> show_int a @ 46 # show_nat (nat b))"

definition example_crypto :: crypto where
  "example_crypto = \<lparr>sha256 = (\<lambda>x. x), hmac_sha256 = (\<lambda>k x. k @ x), num_text = example_num\<rparr>"

lemma num_ok_example: "num_ok example_num"
proof -
  have dot: "46 \<notin> set (show_int a)" "46 \<notin> set (show_nat n)" for a n
    using set_show_int [of a] set_show_nat [of n] by auto
  have "inj example_num"
  proof (rule injI)
    fix x y assume eq: "example_num x = example_num y"
    obtain a b c d where q: "quotient_of x = (a, b)" "quotient_of y = (c, d)" by fastforce
    from eq q have "show_int a @ 46 # show_nat (nat b) = show_int c @ 46 # show_nat (nat d)"
      by (simp add: example_num_def)
    with dot have "show_int a = show_int c \<and> show_nat (nat b) = show_nat (nat d)"
      using append_Cons_eq_iff [of 46 "show_int a" "show_nat (nat b)" "show_int c" "show_nat (nat d)"] by auto
    moreover have "0 < b" "0 < d" using quotient_of_denom_pos q by blast+
    ultimately have "quotient_of x = quotient_of y" using q eq_nat_nat_iff [of b d] by simp
    then show "x = y" by (simp add: quotient_of_inject)
  qed
  moreover have "example_num x \<noteq> [] \<and> hd (example_num x) \<in> insert 45 {48..57} \<and>
      (\<forall>c \<in> set (example_num x). num_char c)" for x
  proof (cases "quotient_of x")
    case (Pair a b)
    have "hd (show_int a) \<in> set (show_int a)" by simp
    with set_show_int [of a] have "hd (show_int a) \<in> insert 45 {48..57}" by blast
    then show ?thesis
      using set_show_int [of a] set_show_nat [of "nat b"] Pair by (auto simp: example_num_def num_char_def)
  qed
  ultimately show ?thesis by (simp add: num_ok_def)
qed

definition example_log :: "audit_entry list" where
  "example_log =
     [make_entry example_crypto [] MandateRevoked (MandateRevokedP (js ''m_1'')) (js ''t'') (js ''k'') None]"

lemma example_log_valid: "vr_valid (audit_verify example_crypto (SingleKey (js ''k'')) example_log)"
  using make_entry_ok [of "SingleKey (js ''k'')" None "js ''k''" example_crypto "[]"]
  by (simp add: audit_simps example_log_def last_hash_def)

lemma example_log_entry:
  "\<exists>e. example_log = [e] \<and> ae_ts e = js ''t'' \<and> ae_seq e = 0 \<and>
     ae_type e = MandateRevoked \<and> ae_prevHash e = GENESIS"
  by (simp add: example_log_def make_entry_def Let_def last_hash_def)

text \<open>
  Property C15: the log stays verifiable. Whatever is appended, under a single key or under any provider
  that obeys the custody law, a chain that verified verifies with the new entry, which carries the
  next sequence number.
\<close>

theorem audit_append_verifies:
  assumes "vr_valid (audit_verify c sg es)" "signing_ok sg"
    "audit_append c sg es type pl ts = Inr (e, es')"
  shows "vr_valid (audit_verify c sg es') \<and> es' = es @ [e] \<and> ae_seq e = length es \<and>
    ae_type e = type \<and> ae_payload e = pl \<and> ae_ts e = ts"
  by (rule audit_append_valid [OF assms])

theorem audit_append_verifies_witness:
  "\<exists>e es'. audit_append example_crypto (SingleKey (js ''k'')) example_log PaymentRefunded
       (PaymentRefundedP (js ''pi'') 5 (js ''late'') None) (js ''t'') = Inr (e, es') \<and>
     vr_valid (audit_verify example_crypto (SingleKey (js ''k'')) es') \<and> ae_seq e = 1"
proof -
  obtain e es' where app: "audit_append example_crypto (SingleKey (js ''k'')) example_log PaymentRefunded
      (PaymentRefundedP (js ''pi'') 5 (js ''late'') None) (js ''t'') = Inr (e, es')"
    by (simp add: audit_append_def Let_def)
  from audit_append_verifies [OF example_log_valid signing_ok_single app] app show ?thesis
    by (auto simp: example_log_def)
qed

section \<open>Tamper evidence\<close>

text \<open>The text an entry's hash commits to, and entries that say the same.\<close>

definition entry_input :: "crypto \<Rightarrow> audit_entry \<Rightarrow> str" where
  "entry_input c e = hash_input c (ae_seq e) (ae_ts e) (ae_type e) (ae_payload e) (ae_prevHash e)"

definition same_content :: "crypto \<Rightarrow> audit_entry \<Rightarrow> audit_entry \<Rightarrow> bool" where
  "same_content c e f \<longleftrightarrow>
     ae_seq e = ae_seq f \<and> ae_ts e = ae_ts f \<and> ae_type e = ae_type f \<and>
     json_norm (payload_json (num_text c) (ae_payload e)) =
     json_norm (payload_json (num_text c) (ae_payload f)) \<and> ae_prevHash e = ae_prevHash f"

lemma entry_hash_input: "entry_hash c e = sha256 c (entry_input c e)"
  by (simp add: entry_hash_def entry_input_def hashEntry_def)

lemma split_newline:
  "10 \<notin> set a \<Longrightarrow> 10 \<notin> set b \<Longrightarrow> a @ 10 # x = b @ 10 # (y :: str) \<Longrightarrow> a = b \<and> x = y"
proof (induction a arbitrary: b)
  case Nil
  then show ?case by (cases b) auto
next
  case (Cons k a)
  then show ?case by (cases b) auto
qed

lemma entry_input_inject:
  assumes "num_ok (num_text c)" "10 \<notin> set (ae_ts e)" "10 \<notin> set (ae_ts f)"
    "entry_input c e = entry_input c f"
  shows "same_content c e f"
proof -
  have nat: "10 \<notin> set (show_nat n)" for n using set_show_nat [of n] by auto
  let ?j = "\<lambda>e. payload_json (num_text c) (ae_payload e)"
  have "show_nat (ae_seq e) @ 10 # ae_ts e @ 10 # event_text (ae_type e) @ 10 #
      canonicalize (num_text c) (?j e) @ 10 # ae_prevHash e =
    show_nat (ae_seq f) @ 10 # ae_ts f @ 10 # event_text (ae_type f) @ 10 #
      canonicalize (num_text c) (?j f) @ 10 # ae_prevHash f"
    using assms(4) by (simp only: entry_input_def hash_input_def)
  from split_newline [OF nat nat this] have "ae_seq e = ae_seq f" and 1:
    "ae_ts e @ 10 # event_text (ae_type e) @ 10 # canonicalize (num_text c) (?j e) @ 10 # ae_prevHash e =
     ae_ts f @ 10 # event_text (ae_type f) @ 10 # canonicalize (num_text c) (?j f) @ 10 # ae_prevHash f"
    by simp_all
  from split_newline [OF assms(2,3) 1] have "ae_ts e = ae_ts f" and 2:
    "event_text (ae_type e) @ 10 # canonicalize (num_text c) (?j e) @ 10 # ae_prevHash e =
     event_text (ae_type f) @ 10 # canonicalize (num_text c) (?j f) @ 10 # ae_prevHash f" by auto
  from split_newline [OF event_text_no_newline event_text_no_newline 2] have "ae_type e = ae_type f"
    and 3: "canonicalize (num_text c) (?j e) @ 10 # ae_prevHash e =
            canonicalize (num_text c) (?j f) @ 10 # ae_prevHash f" by (auto dest: event_text_inject)
  from canonicalize_inject [OF assms(1) _ _ 3] show ?thesis
    using \<open>ae_seq e = ae_seq f\<close> \<open>ae_ts e = ae_ts f\<close> \<open>ae_type e = ae_type f\<close>
    by (simp add: same_content_def)
qed

text \<open>What an undetected change would need: two different inputs of one hash among the entries of the
  two logs, or an entry whose hash is the genesis constant.\<close>

definition hash_break :: "crypto \<Rightarrow> audit_entry list \<Rightarrow> audit_entry list \<Rightarrow> bool" where
  "hash_break c es fs \<longleftrightarrow>
     (\<exists>e \<in> set es. \<exists>f \<in> set fs. entry_input c e \<noteq> entry_input c f \<and>
        sha256 c (entry_input c e) = sha256 c (entry_input c f)) \<or>
     (\<exists>e \<in> set es \<union> set fs. sha256 c (entry_input c e) = GENESIS)"

text \<open>
  Property C14: tamper evidence. Two logs that both verify (each under its own keys) and end in the same
  head hash say the same, entry by entry, in sequence number, time, type, payload and link; an
  edit, insertion, deletion or reordering before the head needs a SHA-256 collision or a preimage
  of the genesis hash among the very entries at hand. Payloads agree up to the order of object keys
  and undefined members.
\<close>

theorem audit_tamper_evident:
  assumes "num_ok (num_text c)"
    and "vr_valid (audit_verify c sg es)" "vr_valid (audit_verify c sg' fs)"
    and "last_hash es = last_hash fs"
    and "\<forall>e \<in> set es \<union> set fs. 10 \<notin> set (ae_ts e)" "\<not> hash_break c es fs"
  shows "list_all2 (same_content c) es fs"
  using assms(2-6)
proof (induction es arbitrary: fs rule: rev_induct)
  case Nil
  show ?case
  proof (cases fs rule: rev_cases)
    case (snoc gs f)
    with Nil have "sha256 c (entry_input c f) = GENESIS"
      by (auto simp: audit_simps last_hash_def entry_hash_input dest: chain_ok_hash)
    with Nil snoc show ?thesis by (auto simp: hash_break_def)
  qed simp
next
  case (snoc e es)
  have e: "ae_hash e = sha256 c (entry_input c e)" "ae_prevHash e = last_hash es" "chain_ok c sg GENESIS es"
    using snoc.prems(1) by (auto simp: audit_simps chain_ok_append entry_ok_def entry_hash_input last_hash_def)
  show ?case
  proof (cases fs rule: rev_cases)
    case Nil
    with snoc.prems e show ?thesis by (auto simp: last_hash_def hash_break_def)
  next
    case fs: (snoc gs f)
    have f: "ae_hash f = sha256 c (entry_input c f)" "ae_prevHash f = last_hash gs" "chain_ok c sg' GENESIS gs"
      using snoc.prems(2) fs
      by (auto simp: audit_simps chain_ok_append entry_ok_def entry_hash_input last_hash_def)
    have "entry_input c e = entry_input c f"
      using snoc.prems(3,5) e f fs by (auto simp: last_hash_def hash_break_def)
    with entry_input_inject [OF assms(1)] snoc.prems(4) fs have same: "same_content c e f" by simp
    then have "last_hash es = last_hash gs" using e f by (simp add: same_content_def)
    moreover have "\<not> hash_break c es gs" using snoc.prems(5) fs by (auto simp: hash_break_def)
    ultimately have "list_all2 (same_content c) es gs"
      using snoc.IH [of gs] e(3) f(3) snoc.prems(4) fs by (auto simp: audit_simps)
    with same fs show ?thesis by (simp add: list_all2_appendI)
  qed
qed

theorem audit_tamper_evident_witness:
  "\<exists>fs. vr_valid (audit_verify example_crypto (SingleKey (js ''k'')) fs) \<and> last_hash example_log = last_hash fs \<and>
     list_all2 (same_content example_crypto) example_log fs"
proof (intro exI conjI)
  have "10 \<notin> set GENESIS" and "10 \<in> set (entry_input c e)" for c e
    by (simp_all add: GENESIS_def entry_input_def hash_input_def)
  then have "entry_input c e \<noteq> GENESIS" for c e by metis
  moreover have "sha256 example_crypto x = x" for x by (simp add: example_crypto_def)
  ultimately have "\<not> hash_break example_crypto example_log example_log"
    by (simp add: hash_break_def)
  moreover have "\<forall>e \<in> set example_log. 10 \<notin> set (ae_ts e)"
    by (simp add: example_log_def make_entry_def Let_def js_def)
  moreover have "num_text example_crypto = example_num" by (simp add: example_crypto_def)
  ultimately show "list_all2 (same_content example_crypto) example_log example_log"
    using num_ok_example example_log_valid by (intro audit_tamper_evident) auto
qed (rule example_log_valid, rule refl)

text \<open>
  Fact: an edit in place is caught at the entry it was made to. Replace one entry of a verifying
  log by another with a different content under the same hash: verification fails with that entry's
  sequence number and "content hash mismatch", or the two contents collide under SHA-256.
\<close>

theorem audit_edit_located:
  assumes "vr_valid (audit_verify c sg (es @ e # fs))"
    and "ae_hash e' = ae_hash e" "ae_prevHash e' = ae_prevHash e" "entry_input c e' \<noteq> entry_input c e"
  shows "audit_verify c sg (es @ e' # fs) = broken (ae_seq e') ContentHashMismatch \<or>
    (entry_input c e' \<noteq> entry_input c e \<and> sha256 c (entry_input c e') = sha256 c (entry_input c e))"
proof (cases "sha256 c (entry_input c e') = sha256 c (entry_input c e)")
  case False
  have skip: "chain_ok c sg p es \<Longrightarrow> verify_from c sg p (es @ gs) =
      verify_from c sg (if es = [] then p else ae_hash (last es)) gs" for p gs
  proof (induction es arbitrary: p)
    case (Cons x es)
    then show ?case using verify_from_cases [of c sg p x "es @ gs"] by auto
  qed simp
  from assms(1) have ok: "chain_ok c sg GENESIS es"
    "entry_ok c sg (if es = [] then GENESIS else ae_hash (last es)) e"
    by (simp_all add: audit_simps chain_ok_append)
  with assms(2,3) False have "entry_hash c e' \<noteq> ae_hash e'"
    "ae_prevHash e' = (if es = [] then GENESIS else ae_hash (last es))"
    by (auto simp: entry_ok_def entry_hash_input)
  with skip [OF ok(1), of "e' # fs"] show ?thesis by (simp add: audit_verify_def)
qed (use assms(4) in simp)

theorem audit_edit_located_witness:
  "\<exists>e e'. example_log = [e] \<and> e' = e\<lparr>ae_payload := MandateRevokedP (js ''m_2'')\<rparr> \<and>
     audit_verify example_crypto (SingleKey (js ''k'')) [e'] = broken 0 ContentHashMismatch"
proof -
  obtain e where e: "example_log = [] @ e # []" "ae_seq e = 0" "ae_ts e = js ''t''"
    "ae_payload e = MandateRevokedP (js ''m_1'')"
    by (simp add: example_log_def make_entry_def Let_def)
  let ?e' = "e\<lparr>ae_payload := MandateRevokedP (js ''m_2'')\<rparr>"
  have "entry_input example_crypto ?e' \<noteq> entry_input example_crypto e"
  proof
    assume eq: "entry_input example_crypto ?e' = entry_input example_crypto e"
    have "10 \<notin> set (ae_ts e)" by (simp add: e(3) js_def)
    with eq have "same_content example_crypto ?e' e"
      using num_ok_example by (intro entry_input_inject) (simp_all add: example_crypto_def)
    then show False by (simp add: same_content_def e(4))
  qed
  moreover have "sha256 example_crypto x = x" for x by (simp add: example_crypto_def)
  ultimately have "audit_verify example_crypto (SingleKey (js ''k'')) [?e'] = broken (ae_seq ?e') ContentHashMismatch"
    using audit_edit_located [of example_crypto "SingleKey (js ''k'')" "[]" e "[]" ?e'] example_log_valid e(1)
    by simp
  with e(1,2) show ?thesis by (intro exI [of _ e] exI [of _ ?e']) simp
qed

text \<open>
  Fact: dropping the newest entries goes unnoticed. Every prefix of a verifying log verifies, so a
  deletion at the end of the chain does not break verification: only a head hash kept elsewhere
  (as in the previous theorem) shows it.
\<close>

theorem audit_truncation_verifies:
  assumes "vr_valid (audit_verify c sg (es @ fs))"
  shows "audit_verify c sg es = \<lparr>vr_valid = True, vr_brokenAt = None, vr_reason = None\<rparr>"
proof -
  have result: "chain_ok c sg p es \<Longrightarrow>
      verify_from c sg p es = \<lparr>vr_valid = True, vr_brokenAt = None, vr_reason = None\<rparr>" for p
  proof (induction es arbitrary: p)
    case (Cons x es)
    then show ?case using verify_from_cases [of c sg p x es] by simp
  qed simp
  from assms have "chain_ok c sg GENESIS es" by (simp add: audit_simps chain_ok_append)
  then show ?thesis by (simp add: audit_verify_def result)
qed

theorem audit_truncation_verifies_witness:
  "\<exists>fs. fs \<noteq> [] \<and> vr_valid (audit_verify example_crypto (SingleKey (js ''k'')) ([] @ fs)) \<and>
     vr_valid (audit_verify example_crypto (SingleKey (js ''k'')) [])"
proof (intro exI conjI)
  show "example_log \<noteq> []" by (simp add: example_log_def)
  show log: "vr_valid (audit_verify example_crypto (SingleKey (js ''k'')) ([] @ example_log))"
    using example_log_valid by simp
  show "vr_valid (audit_verify example_crypto (SingleKey (js ''k'')) [])"
    using audit_truncation_verifies [OF log] by simp
qed

section \<open>The interface the kernel uses\<close>

text \<open>Recording an event in a log that is signed with the operator's single key.\<close>

definition log_record :: "crypto \<Rightarrow> str \<Rightarrow> event_type \<Rightarrow> payload \<Rightarrow> str \<Rightarrow> audit_entry list \<Rightarrow> audit_entry list" where
  "log_record c key type pl ts es = es @ [make_entry c es type pl ts key None]"

lemma log_record_append:
  "audit_append c (SingleKey key) es type pl ts =
     Inr (make_entry c es type pl ts key None, log_record c key type pl ts es)"
  by (simp add: audit_append_def log_record_def Let_def)

locale signed_log =
  fixes record_event :: "event_type \<Rightarrow> payload \<Rightarrow> str \<Rightarrow> 'l \<Rightarrow> 'l"
    and entries :: "'l \<Rightarrow> audit_entry list"
    and valid :: "'l \<Rightarrow> bool"
  assumes valid_record: "valid l \<Longrightarrow> valid (record_event t p ts l)"
    and entries_record: "\<exists>e. entries (record_event t p ts l) = entries l @ [e] \<and>
          ae_type e = t \<and> ae_payload e = p \<and> ae_ts e = ts"
begin

definition record_all :: "(event_type \<times> payload \<times> str) list \<Rightarrow> 'l \<Rightarrow> 'l" where
  "record_all evs l = fold (\<lambda>(t, p, ts). record_event t p ts) evs l"

lemma valid_record_all: "valid l \<Longrightarrow> valid (record_all evs l)"
  unfolding record_all_def by (induction evs arbitrary: l) (auto simp: valid_record)

lemma entries_prefix: "\<exists>es. entries (record_event t p ts l) = entries l @ es"
  using entries_record by blast

lemma entries_record_all:
  "\<exists>es. entries (record_all evs l) = entries l @ es \<and>
     map (\<lambda>e. (ae_type e, ae_payload e, ae_ts e)) es = evs"
  unfolding record_all_def
proof (induction evs arbitrary: l)
  case (Cons ev evs)
  obtain t p ts where ev: "ev = (t, p, ts)" by (cases ev)
  obtain e where e: "entries (record_event t p ts l) = entries l @ [e]"
    "ae_type e = t" "ae_payload e = p" "ae_ts e = ts"
    using entries_record by blast
  from Cons [of "record_event t p ts l"] obtain es where
    "entries (fold (\<lambda>(t, p, ts). record_event t p ts) evs (record_event t p ts l)) =
       entries l @ e # es" "map (\<lambda>e. (ae_type e, ae_payload e, ae_ts e)) es = evs"
    using e(1) by auto
  with e ev show ?case by (intro exI [of _ "e # es"]) simp
qed simp

end

interpretation single_key_log: signed_log "log_record c key" "\<lambda>es. es"
  "\<lambda>es. vr_valid (audit_verify c (SingleKey key) es)" for c key
proof unfold_locales
  fix es t p ts
  assume "vr_valid (audit_verify c (SingleKey key) es)"
  from audit_append_valid [OF this signing_ok_single log_record_append]
  show "vr_valid (audit_verify c (SingleKey key) (log_record c key t p ts es))" by blast
next
  fix t p ts and es :: "audit_entry list"
  show "\<exists>e. log_record c key t p ts es = es @ [e] \<and> ae_type e = t \<and> ae_payload e = p \<and> ae_ts e = ts"
    by (simp add: log_record_def make_entry_def Let_def)
qed

end
