(* ===== verification/Deny_List.thy ===== *)
theory Deny_List
  imports Core_Types
begin

text \<open>
  Payee canonicalisation (\<open>src/core/payeeNormalize.ts\<close>) and the hard deny-list
  (\<open>src/core/denyList.ts\<close>).

  Unicode NFKC is a table the language's runtime holds; it is the argument \<open>nfkc\<close> of what uses it.
  \<open>toLowerCase\<close> is written out for ASCII, Latin-1, Greek and Cyrillic capitals, the scripts of the
  confusables table, and leaves every other character alone.

  The lemmas: a canonical form carries no invisible and no confusable character; what a spoofer
  inserts or substitutes from these tables does not change it; and the rules catch exactly what
  their text says.
\<close>

section \<open>Canonical payees\<close>

definition isInvisibleCodePoint :: "nat \<Rightarrow> bool" where
  "isInvisibleCodePoint cp \<longleftrightarrow>
     cp \<le> 0x1f \<or> (0x7f \<le> cp \<and> cp \<le> 0x9f) \<or> cp = 0xad \<or> (0x200b \<le> cp \<and> cp \<le> 0x200f) \<or>
     (0x202a \<le> cp \<and> cp \<le> 0x202e) \<or> (0x2060 \<le> cp \<and> cp \<le> 0x206f) \<or> cp = 0xfeff"

text \<open>Cyrillic and Greek look-alikes and the Latin letter each is folded to.\<close>

definition CONFUSABLES :: "(nat \<times> nat) list" where
  "CONFUSABLES =
     [(0x430, 97), (0x435, 101), (0x43e, 111), (0x440, 112), (0x441, 99), (0x443, 121), (0x445, 120),
      (0x455, 115), (0x456, 105), (0x458, 106), (0x501, 100), (0x43c, 109), (0x442, 116), (0x43a, 107),
      (0x432, 98), (0x43d, 104),
      (0x3bf, 111), (0x3c1, 112), (0x3b1, 97), (0x3b5, 101), (0x3b9, 105), (0x3ba, 107), (0x3bd, 118),
      (0x3c4, 116), (0x3c5, 117), (0x3c7, 120), (0x3b2, 98)]"

definition hasInvisibleChars :: "str \<Rightarrow> bool" where
  "hasInvisibleChars payee \<longleftrightarrow> list_ex isInvisibleCodePoint payee"

definition to_lower_char :: "nat \<Rightarrow> nat" where
  "to_lower_char c =
     (if 65 \<le> c \<and> c \<le> 90 then c + 32
      else if 0xc0 \<le> c \<and> c \<le> 0xde \<and> c \<noteq> 0xd7 then c + 32
      else if 0x391 \<le> c \<and> c \<le> 0x3a9 \<and> c \<noteq> 0x3a2 then c + 32
      else if 0x410 \<le> c \<and> c \<le> 0x42f then c + 32
      else if 0x400 \<le> c \<and> c \<le> 0x40f then c + 80 else c)"

definition to_lower :: "str \<Rightarrow> str" where
  "to_lower s = map to_lower_char s"

text \<open>The loop of \<open>normalizePayee\<close>: drop the invisible characters, fold the confusable ones.\<close>

fun fold_payee :: "str \<Rightarrow> str" where
  "fold_payee [] = []"
| "fold_payee (ch # rest) =
     (if isInvisibleCodePoint ch then fold_payee rest
      else nullish (map_of CONFUSABLES ch) ch # fold_payee rest)"

definition normalizePayee :: "(str \<Rightarrow> str) \<Rightarrow> str \<Rightarrow> str" where
  "normalizePayee nfkc payee = trim (fold_payee (to_lower (nfkc payee)))"

section \<open>The rules\<close>

definition IRREVERSIBLE_UNKNOWN_FLOOR_MINOR :: jsnum where
  "IRREVERSIBLE_UNKNOWN_FLOOR_MINOR = 5000"

definition irreversibleUnknownPayeeRule :: "jsnum \<Rightarrow> deny_rule" where
  "irreversibleUnknownPayeeRule floorMinor =
     \<lparr>dr_id = js ''irreversible_to_unknown_payee'',
      dr_reason = js ''irreversible payment to a payee with no prior history, above the hard floor'',
      dr_match = (\<lambda>intent knownPayees reversibility.
        reversibility = Irreversible \<and> i_payee intent \<notin> set knownPayees \<and>
        i_amount intent \<ge> floorMinor)\<rparr>"

definition spoofedPayeeRule :: deny_rule where
  "spoofedPayeeRule =
     \<lparr>dr_id = js ''spoofed_payee_identifier'',
      dr_reason = js ''payee identifier contains invisible or control characters (zero-width / BiDi) with no legitimate use'',
      dr_match = (\<lambda>intent knownPayees reversibility. hasInvisibleChars (i_payee intent))\<rparr>"

definition DEFAULT_DENY_RULES :: "deny_rule list" where
  "DEFAULT_DENY_RULES =
     [irreversibleUnknownPayeeRule IRREVERSIBLE_UNKNOWN_FLOOR_MINOR, spoofedPayeeRule]"

definition blocklistedPayeeRule :: "(str \<Rightarrow> str) \<Rightarrow> str list \<Rightarrow> deny_rule" where
  "blocklistedPayeeRule nfkc blocklist =
     (let normalized = map (normalizePayee nfkc) blocklist
      in \<lparr>dr_id = js ''blocklisted_payee'',
          dr_reason = js ''payee is on the operator's sanctioned / blocked payee list'',
          dr_match = (\<lambda>intent knownPayees reversibility.
            normalizePayee nfkc (i_payee intent) \<in> set normalized)\<rparr>)"

section \<open>What canonicalisation removes\<close>

lemma fold_payee_append: "fold_payee (s @ t) = fold_payee s @ fold_payee t"
  by (induction s) auto

lemma fold_payee_invisible: "list_all isInvisibleCodePoint z \<Longrightarrow> fold_payee z = []"
  by (induction z) auto

text \<open>The letters that confusables fold to are themselves visible, and fold to themselves.\<close>

lemma confusable_targets:
  "\<forall>(k, v) \<in> set CONFUSABLES. 97 \<le> v \<and> v \<le> 122"
  by (simp add: CONFUSABLES_def)

lemma confusable_keys: "map_of CONFUSABLES c = Some v \<Longrightarrow> 0x3b1 \<le> c \<and> c \<le> 0x501"
  by (auto simp: CONFUSABLES_def split: if_splits)

lemma confusable_lookup: "map_of CONFUSABLES c = Some v \<Longrightarrow> 97 \<le> v \<and> v \<le> 122"
  using confusable_targets by (auto dest: map_of_SomeD)

lemma fold_payee_clean:
  "c \<in> set (fold_payee s) \<Longrightarrow> \<not> isInvisibleCodePoint c \<and> map_of CONFUSABLES c = None"
proof (induction s)
  case Nil
  then show ?case by simp
next
  case (Cons ch s)
  show ?case
  proof (cases "isInvisibleCodePoint ch")
    case True
    with Cons show ?thesis by simp
  next
    case False
    with Cons.prems consider "c = nullish (map_of CONFUSABLES ch) ch" | "c \<in> set (fold_payee s)"
      by auto
    then show ?thesis
    proof cases
      case 1
      show ?thesis
      proof (cases "map_of CONFUSABLES ch")
        case None
        with 1 False show ?thesis by simp
      next
        case (Some v)
        with 1 confusable_lookup [OF Some] confusable_keys [of c] show ?thesis
          by (cases "map_of CONFUSABLES c") (auto simp: isInvisibleCodePoint_def)
      qed
    qed (rule Cons.IH)
  qed
qed

lemma fold_payee_fixed:
  "\<forall>c \<in> set s. \<not> isInvisibleCodePoint c \<and> map_of CONFUSABLES c = None \<Longrightarrow> fold_payee s = s"
  by (induction s) auto

lemma fold_payee_idem: "fold_payee (fold_payee s) = fold_payee s"
  by (rule fold_payee_fixed) (blast dest: fold_payee_clean)

lemma normalizePayee_clean:
  "c \<in> set (normalizePayee nfkc p) \<Longrightarrow> \<not> isInvisibleCodePoint c \<and> map_of CONFUSABLES c = None"
  using set_trim fold_payee_clean unfolding normalizePayee_def by blast

text \<open>Zero-width characters slipped anywhere into a payee do not change its canonical form.\<close>

lemma to_lower_invisible:
  "isInvisibleCodePoint c \<Longrightarrow> to_lower_char c = c"
  by (auto simp: isInvisibleCodePoint_def to_lower_char_def)

lemma fold_payee_strip:
  "fold_payee (to_lower s) = fold_payee (to_lower (filter (\<lambda>c. \<not> isInvisibleCodePoint c) s))"
  by (induction s) (auto simp: to_lower_def to_lower_invisible)

lemma normalizePayee_ignores_invisible:
  assumes "nfkc p = p" "nfkc q = q"
    and "filter (\<lambda>c. \<not> isInvisibleCodePoint c) p = filter (\<lambda>c. \<not> isInvisibleCodePoint c) q"
  shows "normalizePayee nfkc p = normalizePayee nfkc q"
  using assms fold_payee_strip [of p] fold_payee_strip [of q] by (simp add: normalizePayee_def)

text \<open>A code-point-wise look-alike of a payee has the same canonical form.\<close>

definition looks_like :: "nat \<Rightarrow> nat \<Rightarrow> bool" where
  "looks_like a b \<longleftrightarrow> fold_payee [to_lower_char a] = fold_payee [to_lower_char b]"

lemma fold_payee_looks_like:
  "list_all2 looks_like p q \<Longrightarrow> fold_payee (to_lower p) = fold_payee (to_lower q)"
proof (induction rule: list_all2_induct)
  case Nil
  show ?case by simp
next
  case (Cons a p b q)
  have "fold_payee (to_lower (x # xs)) = fold_payee [to_lower_char x] @ fold_payee (to_lower xs)" for x xs
    by (simp add: to_lower_def)
  with Cons show ?case by (simp only: looks_like_def)
qed

lemma normalizePayee_looks_like:
  assumes "nfkc p = p" "nfkc q = q" "list_all2 looks_like p q"
  shows "normalizePayee nfkc p = normalizePayee nfkc q"
  using assms fold_payee_looks_like by (simp add: normalizePayee_def)

section \<open>What the rules match\<close>

lemma blocklist_match_iff:
  "dr_match (blocklistedPayeeRule nfkc bl) intent kp rv \<longleftrightarrow>
     (\<exists>b \<in> set bl. normalizePayee nfkc b = normalizePayee nfkc (i_payee intent))"
  by (simp add: blocklistedPayeeRule_def Let_def image_iff) metis

lemma irreversible_match_iff:
  "dr_match (irreversibleUnknownPayeeRule fl) intent kp rv \<longleftrightarrow>
     rv = Irreversible \<and> i_payee intent \<notin> set kp \<and> fl \<le> i_amount intent"
  by (simp add: irreversibleUnknownPayeeRule_def)

lemma spoofed_match_iff:
  "dr_match spoofedPayeeRule intent kp rv \<longleftrightarrow> (\<exists>c \<in> set (i_payee intent). isInvisibleCodePoint c)"
  by (simp add: spoofedPayeeRule_def hasInvisibleChars_def list_ex_iff)

end
