(* ===== verification/Gate.thy ===== *)
theory Gate
  imports Risk Deny_List
begin

text \<open>
  The gate, \<open>evaluateGate\<close> of \<open>src/core/gate.ts\<close>: a pure function from an intent and a context to a
  decision. The six numbered steps of the source are four definitions: the boundary checks and the
  deny-list (\<open>gate_floor\<close>, steps 1 and 2), the search for an authorising mandate (\<open>gate_mandate\<close>,
  step 3), the caps (\<open>gate_caps\<close>, step 4) and the signals that route to the operator
  (\<open>gate_signals\<close>, step 5), with step 6 in \<open>evaluateGate\<close>. The only error is the \<open>RangeError\<close> of the
  velocity window's start, on an injected clock string that is not a date.

  The lemmas: each branch by its condition; \<open>auto_execute\<close> exactly when the declarative \<open>may_auto\<close>
  holds; a floor block that neither trust nor mandates nor the rationale's words can move; and
  the insensitivity of every verdict to the rationale beyond its length.
\<close>

section \<open>Authority\<close>

definition isLiveMandate :: "mandate \<Rightarrow> str \<Rightarrow> bool" where
  "isLiveMandate m now \<longleftrightarrow> m_status m = Active \<and> m_expiresAt m > now"

type_synonym converter = "jsnum \<Rightarrow> str \<Rightarrow> str \<Rightarrow> jsnum option"

definition covers :: "mandate \<Rightarrow> payment_intent \<Rightarrow> converter option \<Rightarrow> bool" where
  "covers m intent convert =
     (if i_rail intent \<notin> set (m_allowedRails m) then False
      else
        let scopeOk = (case m_scope m of
                         ScopeClass v \<Rightarrow> v = i_payeeClass intent
                       | ScopeAllowlist vs \<Rightarrow> i_payee intent \<in> set vs)
        in if \<not> scopeOk then False
           else if m_currency m = i_currency intent then True
           else (case convert of
                   Some conv \<Rightarrow> conv (i_amount intent) (i_currency intent) (m_currency m) \<noteq> None
                 | None \<Rightarrow> False))"

definition no_risk :: spend_risk where
  "no_risk = \<lparr>sr_tier = TierNone, sr_score = 0, sr_reasons = []\<rparr>"

definition block_decision :: "reason list \<Rightarrow> safe_fix option \<Rightarrow> gate_decision" where
  "block_decision reasons suggestedFix =
     \<lparr>gd_outcome = Block, gd_reasons = reasons, gd_mandateId = None, gd_risk = no_risk,
      gd_remaining = None, gd_fix = suggestedFix\<rparr>"

section \<open>Steps 1 and 2: boundary validation and the deny-list\<close>

definition gate_reversibility :: "payment_intent \<Rightarrow> gate_context \<Rightarrow> reversibility" where
  "gate_reversibility intent ctx = nullish (c_reversibility ctx) (RAIL_REVERSIBILITY (i_rail intent))"

definition gate_floor :: "payment_intent \<Rightarrow> gate_context \<Rightarrow> gate_decision option" where
  "gate_floor intent ctx =
     (if \<not> is_integer (i_amount intent) \<or> i_amount intent \<le> 0
      then Some (block_decision [AmountNotPositiveInteger] None)
      else if length (trim (i_rationale intent)) < minRationaleChars (c_config ctx)
      then Some (block_decision [RationaleTooShort (minRationaleChars (c_config ctx))]
                   (Some (ExpandRationale (minRationaleChars (c_config ctx)))))
      else
        (case List.find (\<lambda>rule. dr_match rule intent (c_knownPayees ctx) (gate_reversibility intent ctx))
                (c_denyRules ctx) of
           Some rule \<Rightarrow> Some (block_decision [DenyListed (dr_reason rule)] (Some DenyListBypass))
         | None \<Rightarrow> None))"

section \<open>Step 3: the authorising mandate\<close>

definition gate_mandate :: "payment_intent \<Rightarrow> gate_context \<Rightarrow> mandate option" where
  "gate_mandate intent ctx =
     List.find (\<lambda>m. isLiveMandate m (c_now ctx) \<and> covers m intent (c_convert ctx)) (c_mandates ctx)"

definition no_mandate_decision :: "payment_intent \<Rightarrow> gate_decision" where
  "no_mandate_decision intent =
     \<lparr>gd_outcome = ConfirmOperator, gd_reasons = [NoLiveMandate], gd_mandateId = None,
      gd_risk = no_risk, gd_remaining = None,
      gd_fix = Some (GrantMandate (i_payeeClass intent) (i_payee intent))\<rparr>"

section \<open>Step 4: risk and caps\<close>

definition gate_trust :: "payment_intent \<Rightarrow> gate_context \<Rightarrow> trust_level" where
  "gate_trust intent ctx =
     (case c_trustOf ctx of
        Some f \<Rightarrow> f (i_payee intent)
      | None \<Rightarrow> if i_payee intent \<in> set (c_knownPayees ctx) then TrustSeen else TrustNew)"

definition gate_risk :: "payment_intent \<Rightarrow> gate_context \<Rightarrow> prior_spend list \<Rightarrow> spend_risk" where
  "gate_risk intent ctx periodSpend =
     classifySpendRisk intent
       \<lparr>rc_trust = gate_trust intent ctx, rc_periodSpend = periodSpend, rc_config = c_config ctx,
        rc_reversibility = gate_reversibility intent ctx, rc_attestation = c_attestation ctx,
        rc_reputation = (case c_reputationOf ctx of Some f \<Rightarrow> f (i_payee intent) | None \<Rightarrow> None)\<rparr>"

definition amount_in_mandate :: "payment_intent \<Rightarrow> converter option \<Rightarrow> mandate \<Rightarrow> jsnum" where
  "amount_in_mandate intent convert m =
     (if m_currency m = i_currency intent then i_amount intent
      else nullish (case convert of
                      Some conv \<Rightarrow> conv (i_amount intent) (i_currency intent) (m_currency m)
                    | None \<Rightarrow> None)
             (i_amount intent))"

definition total_spent :: "prior_spend list \<Rightarrow> jsnum" where
  "total_spent periodSpend = sum_list (map ps_amount periodSpend)"

definition remaining_budget ::
  "payment_intent \<Rightarrow> converter option \<Rightarrow> mandate \<Rightarrow> prior_spend list \<Rightarrow> jsnum" where
  "remaining_budget intent convert m periodSpend =
     m_perPeriodCap m - total_spent periodSpend - amount_in_mandate intent convert m"

definition gate_caps ::
  "payment_intent \<Rightarrow> gate_context \<Rightarrow> mandate \<Rightarrow> prior_spend list \<Rightarrow> gate_decision option" where
  "gate_caps intent ctx m periodSpend =
     (let risk = gate_risk intent ctx periodSpend;
          amountInMandate = amount_in_mandate intent (c_convert ctx) m
      in if amountInMandate > m_perTxCap m
         then Some \<lparr>gd_outcome = Block,
                    gd_reasons = [OverTxCap amountInMandate (m_currency m) (m_perTxCap m)],
                    gd_mandateId = Some (m_id m), gd_risk = risk, gd_remaining = None,
                    gd_fix = Some (IncreaseTxCap (m_id m) (m_perTxCap m) (m_currency m))\<rparr>
         else if remaining_budget intent (c_convert ctx) m periodSpend < 0
         then Some \<lparr>gd_outcome = Block,
                    gd_reasons = [OverPeriodBudget (i_amount intent) (m_period m) (total_spent periodSpend)
                                    (m_perPeriodCap m)],
                    gd_mandateId = Some (m_id m), gd_risk = risk, gd_remaining = None,
                    gd_fix = Some (IncreasePeriodCap (m_id m) (m_perPeriodCap m) (total_spent periodSpend))\<rparr>
         else None)"

section \<open>Step 5: signals\<close>

text \<open>\<open>new Date(new Date(now).getTime() - minutes * 60000).toISOString()\<close>.\<close>

definition window_start :: "str \<Rightarrow> int \<Rightarrow> js_error + str" where
  "window_start now minutes =
     (case date_parse now of
        None \<Rightarrow> Inl RangeError
      | Some t \<Rightarrow> to_iso (t - minutes * 60000))"

definition recent_count :: "str \<Rightarrow> prior_spend list \<Rightarrow> nat" where
  "recent_count windowStart periodSpend = length (filter (\<lambda>s. ps_at s \<ge> windowStart) periodSpend)"

definition gate_signals ::
  "payment_intent \<Rightarrow> gate_context \<Rightarrow> prior_spend list \<Rightarrow> str \<Rightarrow> reason list" where
  "gate_signals intent ctx periodSpend windowStart =
     (if gate_trust intent ctx = TrustNew then [NewPayee] else []) @
     (if recent_count windowStart periodSpend \<ge> velocityMaxCount (c_config ctx)
      then [VelocityCeiling (recent_count windowStart periodSpend) (velocityWindowMinutes (c_config ctx))]
      else []) @
     (if sr_tier (gate_risk intent ctx periodSpend) = TierHigh then [ElevatedSpendRisk] else [])"

section \<open>The whole gate\<close>

definition gate_in_mandate ::
  "payment_intent \<Rightarrow> gate_context \<Rightarrow> mandate \<Rightarrow> prior_spend list \<Rightarrow> js_error + gate_decision" where
  "gate_in_mandate intent ctx m periodSpend =
     (case gate_caps intent ctx m periodSpend of
        Some d \<Rightarrow> Inr d
      | None \<Rightarrow>
          bindE (window_start (c_now ctx) (velocityWindowMinutes (c_config ctx))) (\<lambda>windowStart.
            let reasons = gate_signals intent ctx periodSpend windowStart;
                remaining = remaining_budget intent (c_convert ctx) m periodSpend
            in if reasons \<noteq> []
               then Inr \<lparr>gd_outcome = ConfirmOperator, gd_reasons = reasons, gd_mandateId = Some (m_id m),
                          gd_risk = gate_risk intent ctx periodSpend, gd_remaining = Some remaining,
                          gd_fix = Some (ConfirmOperatorFix (i_id intent))\<rparr>
               else Inr \<lparr>gd_outcome = AutoExecute, gd_reasons = [WithinMandate],
                          gd_mandateId = Some (m_id m), gd_risk = gate_risk intent ctx periodSpend,
                          gd_remaining = Some remaining, gd_fix = None\<rparr>))"

definition evaluateGate :: "payment_intent \<Rightarrow> gate_context \<Rightarrow> js_error + gate_decision" where
  "evaluateGate intent ctx =
     (case gate_floor intent ctx of
        Some d \<Rightarrow> Inr d
      | None \<Rightarrow>
          (case gate_mandate intent ctx of
             None \<Rightarrow> Inr (no_mandate_decision intent)
           | Some m \<Rightarrow>
               bindE (c_periodSpend ctx (m_id m)) (gate_in_mandate intent ctx m)))"

section \<open>Branches\<close>

lemma gate_floor_Some_Block: "gate_floor intent ctx = Some d \<Longrightarrow> gd_outcome d = Block \<and> gd_mandateId d = None"
  by (auto simp: gate_floor_def block_decision_def split: if_splits option.splits)

lemma gate_floor_None_iff:
  "gate_floor intent ctx = None \<longleftrightarrow>
     is_integer (i_amount intent) \<and> 0 < i_amount intent \<and>
     minRationaleChars (c_config ctx) \<le> length (trim (i_rationale intent)) \<and>
     (\<forall>rule \<in> set (c_denyRules ctx).
        \<not> dr_match rule intent (c_knownPayees ctx) (gate_reversibility intent ctx))"
  by (auto simp: gate_floor_def find_None_iff' not_less split: option.splits dest!: find_SomeD)

lemma gate_mandate_SomeD:
  "gate_mandate intent ctx = Some m \<Longrightarrow>
     m \<in> set (c_mandates ctx) \<and> isLiveMandate m (c_now ctx) \<and> covers m intent (c_convert ctx)"
  unfolding gate_mandate_def by (drule find_SomeD) simp

lemma gate_caps_Some_Block: "gate_caps intent ctx m sp = Some d \<Longrightarrow> gd_outcome d = Block"
  by (auto simp: gate_caps_def Let_def split: if_splits)

lemma gate_caps_None_iff:
  "gate_caps intent ctx m sp = None \<longleftrightarrow>
     amount_in_mandate intent (c_convert ctx) m \<le> m_perTxCap m \<and>
     0 \<le> remaining_budget intent (c_convert ctx) m sp"
  by (auto simp: gate_caps_def Let_def not_less)

lemma evaluateGate_cases:
  assumes "evaluateGate intent ctx = Inr d"
  obtains (floor) "gate_floor intent ctx = Some d" "gd_outcome d = Block"
  | (unauthorised) "gate_floor intent ctx = None" "gate_mandate intent ctx = None"
      "d = no_mandate_decision intent"
  | (capped) m sp where "gate_floor intent ctx = None" "gate_mandate intent ctx = Some m"
      "c_periodSpend ctx (m_id m) = Inr sp" "gate_caps intent ctx m sp = Some d" "gd_outcome d = Block"
  | (routed) m sp ws where "gate_floor intent ctx = None" "gate_mandate intent ctx = Some m"
      "c_periodSpend ctx (m_id m) = Inr sp" "gate_caps intent ctx m sp = None"
      "window_start (c_now ctx) (velocityWindowMinutes (c_config ctx)) = Inr ws"
      "gate_signals intent ctx sp ws \<noteq> []" "gd_outcome d = ConfirmOperator"
      "gd_mandateId d = Some (m_id m)" "gd_reasons d = gate_signals intent ctx sp ws"
      "gd_remaining d = Some (remaining_budget intent (c_convert ctx) m sp)"
      "gd_risk d = gate_risk intent ctx sp"
  | (auto) m sp ws where "gate_floor intent ctx = None" "gate_mandate intent ctx = Some m"
      "c_periodSpend ctx (m_id m) = Inr sp" "gate_caps intent ctx m sp = None"
      "window_start (c_now ctx) (velocityWindowMinutes (c_config ctx)) = Inr ws"
      "gate_signals intent ctx sp ws = []" "gd_outcome d = AutoExecute"
      "gd_mandateId d = Some (m_id m)" "gd_reasons d = [WithinMandate]"
      "gd_remaining d = Some (remaining_budget intent (c_convert ctx) m sp)"
      "gd_risk d = gate_risk intent ctx sp"
proof (cases "gate_floor intent ctx")
  case (Some d')
  with assms have "d' = d" by (simp add: evaluateGate_def)
  with Some show ?thesis by (intro floor) (simp_all add: gate_floor_Some_Block)
next
  case fl: None
  show ?thesis
  proof (cases "gate_mandate intent ctx")
    case None
    with assms fl show ?thesis by (intro unauthorised) (simp_all add: evaluateGate_def)
  next
    case (Some m)
    with assms fl obtain sp where sp: "c_periodSpend ctx (m_id m) = Inr sp"
      and inm: "gate_in_mandate intent ctx m sp = Inr d"
      by (auto simp: evaluateGate_def bindE_Inr_iff)
    show ?thesis
    proof (cases "gate_caps intent ctx m sp")
      case (Some d')
      with inm have "d' = d" by (simp add: gate_in_mandate_def)
      with fl sp Some \<open>gate_mandate intent ctx = Some m\<close> show ?thesis
        by (intro capped) (simp_all add: gate_caps_Some_Block)
    next
      case None
      with inm obtain ws where ws: "window_start (c_now ctx) (velocityWindowMinutes (c_config ctx)) = Inr ws"
        by (auto simp: gate_in_mandate_def bindE_Inr_iff)
      show ?thesis
        using fl \<open>gate_mandate intent ctx = Some m\<close> sp None ws inm routed auto
        by (cases "gate_signals intent ctx sp ws = []") (auto simp: gate_in_mandate_def)
    qed
  qed
qed

text \<open>The gate reads its arguments through these observations only.\<close>

lemma gate_in_mandate_cong:
  assumes "gate_caps i c = gate_caps i' c'" "gate_signals i c = gate_signals i' c'"
    "gate_risk i c = gate_risk i' c'" "remaining_budget i = remaining_budget i'" "i_id i = i_id i'"
    "c_now c = c_now c'" "c_config c = c_config c'" "c_convert c = c_convert c'"
  shows "gate_in_mandate i c = gate_in_mandate i' c'"
proof (intro ext)
  fix m sp
  show "gate_in_mandate i c m sp = gate_in_mandate i' c' m sp"
    unfolding gate_in_mandate_def assms by (rule refl)
qed

lemma evaluateGate_cong:
  assumes "gate_floor i c = gate_floor i' c'" "gate_mandate i c = gate_mandate i' c'"
    "no_mandate_decision i = no_mandate_decision i'" "c_periodSpend c = c_periodSpend c'"
    "gate_in_mandate i c = gate_in_mandate i' c'"
  shows "evaluateGate i c = evaluateGate i' c'"
  unfolding evaluateGate_def assms by (rule refl)

section \<open>What the gate promises\<close>

text \<open>
  The invariant the source states in prose: a payment may execute without the operator only inside
  a live mandate that covers it, under its caps, below the risk and velocity thresholds and clear
  of the deny-list.
\<close>

definition may_auto :: "payment_intent \<Rightarrow> gate_context \<Rightarrow> mandate \<Rightarrow> prior_spend list \<Rightarrow> str \<Rightarrow> bool" where
  "may_auto intent ctx m periodSpend windowStart \<longleftrightarrow>
     is_integer (i_amount intent) \<and> 0 < i_amount intent \<and>
     minRationaleChars (c_config ctx) \<le> length (trim (i_rationale intent)) \<and>
     list_all (\<lambda>rule. \<not> dr_match rule intent (c_knownPayees ctx) (gate_reversibility intent ctx))
       (c_denyRules ctx) \<and>
     isLiveMandate m (c_now ctx) \<and> covers m intent (c_convert ctx) \<and>
     amount_in_mandate intent (c_convert ctx) m \<le> m_perTxCap m \<and>
     total_spent periodSpend + amount_in_mandate intent (c_convert ctx) m \<le> m_perPeriodCap m \<and>
     gate_trust intent ctx \<noteq> TrustNew \<and>
     recent_count windowStart periodSpend < velocityMaxCount (c_config ctx) \<and>
     sr_tier (gate_risk intent ctx periodSpend) \<noteq> TierHigh"

lemma gate_signals_Nil_iff:
  "gate_signals intent ctx sp ws = [] \<longleftrightarrow>
     gate_trust intent ctx \<noteq> TrustNew \<and> recent_count ws sp < velocityMaxCount (c_config ctx) \<and>
     sr_tier (gate_risk intent ctx sp) \<noteq> TierHigh"
  by (auto simp: gate_signals_def not_le)

lemma gate_auto_intro:
  assumes "gate_mandate intent ctx = Some m" "c_periodSpend ctx (m_id m) = Inr sp"
    "window_start (c_now ctx) (velocityWindowMinutes (c_config ctx)) = Inr ws"
    "may_auto intent ctx m sp ws"
  shows "evaluateGate intent ctx =
    Inr \<lparr>gd_outcome = AutoExecute, gd_reasons = [WithinMandate], gd_mandateId = Some (m_id m),
         gd_risk = gate_risk intent ctx sp,
         gd_remaining = Some (remaining_budget intent (c_convert ctx) m sp), gd_fix = None\<rparr>"
proof -
  from assms(4) have "gate_floor intent ctx = None" "gate_caps intent ctx m sp = None"
    "gate_signals intent ctx sp ws = []"
    by (auto simp: gate_floor_None_iff gate_caps_None_iff gate_signals_Nil_iff may_auto_def
        remaining_budget_def list_all_iff)
  with assms show ?thesis by (simp add: evaluateGate_def gate_in_mandate_def)
qed

lemma gate_auto_sound:
  assumes "evaluateGate intent ctx = Inr d" and "gd_outcome d = AutoExecute"
  shows "\<exists>m sp ws. m \<in> set (c_mandates ctx) \<and> gd_mandateId d = Some (m_id m) \<and>
    c_periodSpend ctx (m_id m) = Inr sp \<and>
    window_start (c_now ctx) (velocityWindowMinutes (c_config ctx)) = Inr ws \<and>
    may_auto intent ctx m sp ws"
  using assms(1)
proof (cases rule: evaluateGate_cases)
  case (auto m sp ws)
  then have "may_auto intent ctx m sp ws"
    using gate_mandate_SomeD [of intent ctx m]
    by (auto simp: may_auto_def gate_floor_None_iff gate_caps_None_iff gate_signals_Nil_iff
        remaining_budget_def list_all_iff)
  with auto gate_mandate_SomeD [of intent ctx m] show ?thesis by blast
qed (use assms(2) in \<open>simp_all add: no_mandate_decision_def\<close>)

text \<open>The velocity window's start exists on every clock the kernel is handed.\<close>

lemma window_start_iso_text:
  assumes "iso_range t" "iso_range (t - minutes * 60000)"
  shows "window_start (iso_text t) minutes = Inr (iso_text (t - minutes * 60000))"
  using assms by (simp add: window_start_def date_parse_iso_text to_iso_range)

text \<open>With a valid clock reading and a readable period spend the gate does not throw.\<close>

lemma evaluateGate_total:
  assumes "c_now ctx = iso_text t" "iso_range t"
    "iso_range (t - velocityWindowMinutes (c_config ctx) * 60000)"
    and "\<forall>m \<in> set (c_mandates ctx). \<exists>sp. c_periodSpend ctx (m_id m) = Inr sp"
  shows "\<exists>d. evaluateGate intent ctx = Inr d"
proof (cases "gate_floor intent ctx")
  case (Some d)
  then show ?thesis by (simp add: evaluateGate_def)
next
  case fl: None
  show ?thesis
  proof (cases "gate_mandate intent ctx")
    case None
    with fl show ?thesis by (simp add: evaluateGate_def)
  next
    case (Some m)
    with assms(4) gate_mandate_SomeD obtain sp where "c_periodSpend ctx (m_id m) = Inr sp" by blast
    with fl Some show ?thesis
      by (simp add: evaluateGate_def gate_in_mandate_def assms(1) window_start_iso_text assms(2,3)
          Let_def split: option.split)
  qed
qed

section \<open>A concrete payment\<close>

definition gate_example_intent :: payment_intent where
  "gate_example_intent =
     \<lparr>i_id = js ''pi_1'', i_payee = js ''acme'', i_payeeClass = js ''saas'', i_amount = 2500,
      i_currency = js ''USD'', i_rail = Card, i_rationale = js ''x402 paywall: monthly plan on base (exact)'',
      i_createdAt = iso_text 1700000000000\<rparr>"

definition gate_example_mandate :: mandate where
  "gate_example_mandate =
     \<lparr>m_id = js ''m_1'', m_label = js ''tools'', m_scope = ScopeClass (js ''saas''), m_currency = js ''USD'',
      m_allowedRails = [Card], m_perTxCap = 5000, m_perPeriodCap = 10000, m_period = Month,
      m_grantedAt = iso_text 1690000000000, m_expiresAt = iso_text 1710000000000, m_status = Active\<rparr>"

definition gate_example_context :: gate_context where
  "gate_example_context =
     \<lparr>c_now = iso_text 1700000000000, c_mandates = [gate_example_mandate], c_periodSpend = (\<lambda>_. Inr []),
      c_knownPayees = [js ''acme''], c_trustOf = Some (\<lambda>_. TrustTrusted), c_convert = None,
      c_attestation = None, c_reputationOf = None, c_denyRules = [], c_config = DEFAULT_GATE_CONFIG,
      c_reversibility = None\<rparr>"

lemma gate_example_conditions:
  "gate_mandate gate_example_intent gate_example_context = Some gate_example_mandate"
  "c_periodSpend gate_example_context (m_id gate_example_mandate) = Inr []"
  "window_start (c_now gate_example_context) (velocityWindowMinutes (c_config gate_example_context)) =
     Inr (iso_text 1699996400000)"
  "may_auto gate_example_intent gate_example_context gate_example_mandate [] (iso_text 1699996400000)"
proof -
  have live: "isLiveMandate gate_example_mandate (iso_text 1700000000000)"
    using iso_text_less [of 1700000000000 1710000000000]
    by (simp add: isLiveMandate_def gate_example_mandate_def iso_range_def)
  have cov: "covers gate_example_mandate gate_example_intent None"
    by (simp add: covers_def gate_example_mandate_def gate_example_intent_def)
  show "gate_mandate gate_example_intent gate_example_context = Some gate_example_mandate"
    using live cov by (simp add: gate_mandate_def gate_example_context_def)
  show "c_periodSpend gate_example_context (m_id gate_example_mandate) = Inr []"
    by (simp add: gate_example_context_def)
  show "window_start (c_now gate_example_context) (velocityWindowMinutes (c_config gate_example_context)) =
      Inr (iso_text 1699996400000)"
    using window_start_iso_text [of 1700000000000 60]
    by (simp add: gate_example_context_def DEFAULT_GATE_CONFIG_def iso_range_def)
  have risk: "sr_tier (gate_risk gate_example_intent gate_example_context []) = TierNone"
    by (simp add: gate_risk_def classifySpendRisk_def gate_trust_def gate_reversibility_def bump_def tier_of_score_def median_def Let_def
        gate_example_context_def gate_example_intent_def DEFAULT_GATE_CONFIG_def)
  show "may_auto gate_example_intent gate_example_context gate_example_mandate [] (iso_text 1699996400000)"
    using live cov risk
    by (simp add: may_auto_def gate_example_context_def gate_trust_def amount_in_mandate_def total_spent_def
        recent_count_def gate_example_mandate_def gate_example_intent_def DEFAULT_GATE_CONFIG_def
        is_integer_def trim_def js_def is_space_def)
qed

lemma gate_example_auto:
  "\<exists>d. evaluateGate gate_example_intent gate_example_context = Inr d \<and> gd_outcome d = AutoExecute \<and>
     gd_mandateId d = Some (js ''m_1'')"
  using gate_auto_intro [OF gate_example_conditions] by (simp add: gate_example_mandate_def)

section \<open>Properties\<close>

text \<open>
  Property C3: the safety of autonomy. If the gate answers auto_execute, there is a live mandate of
  the context that covers the payment and that the decision names, the amount is a positive integer
  within its per-transaction cap, what was spent plus this payment is within its period cap, no
  deny rule matches, the payee is not new, the velocity ceiling is not reached and the risk is not
  high.
\<close>

theorem gate_auto_execute_sound:
  assumes "evaluateGate intent ctx = Inr d" and "gd_outcome d = AutoExecute"
  shows "\<exists>m sp ws. m \<in> set (c_mandates ctx) \<and> gd_mandateId d = Some (m_id m) \<and>
    c_periodSpend ctx (m_id m) = Inr sp \<and>
    window_start (c_now ctx) (velocityWindowMinutes (c_config ctx)) = Inr ws \<and>
    may_auto intent ctx m sp ws"
  using assms by (rule gate_auto_sound)

theorem gate_auto_execute_sound_witness:
  "\<exists>d m sp ws. evaluateGate gate_example_intent gate_example_context = Inr d \<and>
     m \<in> set (c_mandates gate_example_context) \<and> gd_mandateId d = Some (m_id m) \<and>
     may_auto gate_example_intent gate_example_context m sp ws"
  using gate_example_auto gate_auto_execute_sound by meson

text \<open>
  Property C4: the gate is complete as well as sound. With the first live covering mandate found and
  its period spend known, the answer is auto_execute exactly when the declarative conditions hold.
\<close>

theorem gate_auto_execute_iff:
  assumes "gate_mandate intent ctx = Some m" "c_periodSpend ctx (m_id m) = Inr sp"
    "window_start (c_now ctx) (velocityWindowMinutes (c_config ctx)) = Inr ws"
  shows "(\<exists>d. evaluateGate intent ctx = Inr d \<and> gd_outcome d = AutoExecute) \<longleftrightarrow>
    may_auto intent ctx m sp ws"
proof
  assume "\<exists>d. evaluateGate intent ctx = Inr d \<and> gd_outcome d = AutoExecute"
  then obtain d where d: "evaluateGate intent ctx = Inr d" "gd_outcome d = AutoExecute" by blast
  from d(1) show "may_auto intent ctx m sp ws"
  proof (cases rule: evaluateGate_cases)
    case (auto m' sp' ws')
    with assms have "m' = m" "sp' = sp" "ws' = ws" by auto
    with auto show ?thesis
      using gate_mandate_SomeD [of intent ctx m]
      by (auto simp: may_auto_def gate_floor_None_iff gate_caps_None_iff gate_signals_Nil_iff
          remaining_budget_def list_all_iff)
  qed (use d(2) in \<open>simp_all add: no_mandate_decision_def\<close>)
next
  assume "may_auto intent ctx m sp ws"
  from gate_auto_intro [OF assms this]
  show "\<exists>d. evaluateGate intent ctx = Inr d \<and> gd_outcome d = AutoExecute" by simp
qed

theorem gate_auto_execute_iff_witness:
  "\<exists>d. evaluateGate gate_example_intent gate_example_context = Inr d \<and> gd_outcome d = AutoExecute"
  using gate_auto_execute_iff [OF gate_example_conditions(1-3)] gate_example_conditions(4) by blast

text \<open>
  Property C5: the deny-list is absolute. A matching rule blocks the payment whatever mandates, trust,
  spend history or clock the rest of the context holds, and no mandate is named.
\<close>

theorem gate_deny_list_absolute:
  assumes "rule \<in> set (c_denyRules ctx)"
    and "dr_match rule intent (c_knownPayees ctx) (gate_reversibility intent ctx)"
  shows "\<exists>d. evaluateGate intent ctx = Inr d \<and> gd_outcome d = Block \<and> gd_mandateId d = None"
proof -
  from assms have "gate_floor intent ctx \<noteq> None" by (auto simp: gate_floor_None_iff)
  then obtain d where "gate_floor intent ctx = Some d" by blast
  with gate_floor_Some_Block show ?thesis by (auto simp: evaluateGate_def)
qed

definition gate_example_rule :: deny_rule where
  "gate_example_rule =
     \<lparr>dr_id = js ''no-acme'', dr_reason = js ''sanctioned'',
      dr_match = (\<lambda>i kp rv. i_payee i = js ''acme'')\<rparr>"

theorem gate_deny_list_absolute_witness:
  "\<exists>d. evaluateGate gate_example_intent (gate_example_context\<lparr>c_denyRules := [gate_example_rule]\<rparr>) = Inr d \<and>
     gd_outcome d = Block \<and> gd_mandateId d = None"
  by (rule gate_deny_list_absolute [of gate_example_rule])
     (simp_all add: gate_example_rule_def gate_example_intent_def)

text \<open>
  Fact: the gate reads numbers, not prose. Two intents that differ in their rationale only, both
  long enough or both too short after trimming, get the same answer, error or decision, on every
  context whose deny rules do not read the rationale.
\<close>

theorem gate_ignores_rationale_text:
  assumes "minRationaleChars (c_config ctx) \<le> length (trim (i_rationale intent)) \<longleftrightarrow>
      minRationaleChars (c_config ctx) \<le> length (trim text)"
    and "\<forall>rule \<in> set (c_denyRules ctx). \<forall>kp rv.
      dr_match rule (intent\<lparr>i_rationale := text\<rparr>) kp rv = dr_match rule intent kp rv"
  shows "evaluateGate (intent\<lparr>i_rationale := text\<rparr>) ctx = evaluateGate intent ctx"
proof -
  let ?i = "intent\<lparr>i_rationale := text\<rparr>"
  have rev: "gate_reversibility ?i ctx = gate_reversibility intent ctx" by (simp add: gate_reversibility_def)
  have "List.find (\<lambda>rule. dr_match rule ?i (c_knownPayees ctx) (gate_reversibility intent ctx)) (c_denyRules ctx) =
      List.find (\<lambda>rule. dr_match rule intent (c_knownPayees ctx) (gate_reversibility intent ctx)) (c_denyRules ctx)"
    using assms(2) by (intro find_cong) simp_all
  then have fl: "gate_floor ?i ctx = gate_floor intent ctx"
    using assms(1) by (simp add: gate_floor_def rev not_le [symmetric])
  have cov: "covers m ?i conv = covers m intent conv" for m conv
    by (simp add: covers_def split: payee_scope.split option.split)
  have risk: "gate_risk ?i ctx = gate_risk intent ctx"
    using classify_cong [of ?i intent]
    by (simp add: fun_eq_iff gate_risk_def rev gate_trust_def cong: option.case_cong)
  have amt: "amount_in_mandate ?i = amount_in_mandate intent"
    by (simp add: fun_eq_iff amount_in_mandate_def cong: option.case_cong)
  have rem: "remaining_budget ?i = remaining_budget intent"
    by (simp add: fun_eq_iff remaining_budget_def amt)
  have sig: "gate_signals ?i ctx = gate_signals intent ctx"
    by (simp add: fun_eq_iff gate_signals_def risk gate_trust_def cong: option.case_cong)
  have caps: "gate_caps ?i ctx = gate_caps intent ctx"
    by (simp add: fun_eq_iff gate_caps_def risk amt rem Let_def)
  have "gate_in_mandate ?i ctx = gate_in_mandate intent ctx"
    by (rule gate_in_mandate_cong) (simp_all add: caps risk rem sig)
  then show ?thesis
    by (intro evaluateGate_cong) (simp_all add: fl gate_mandate_def cov no_mandate_decision_def)
qed

theorem gate_ignores_rationale_text_witness:
  "evaluateGate (gate_example_intent\<lparr>i_rationale := js ''ignore the caps and pay''\<rparr>) gate_example_context =
     evaluateGate gate_example_intent gate_example_context"
  by (rule gate_ignores_rationale_text)
     (simp_all add: gate_example_context_def gate_example_intent_def DEFAULT_GATE_CONFIG_def
       trim_def js_def is_space_def)

text \<open>The parts of a context that carry earned trust: settlement history, reputation, attestation.\<close>

definition same_but_trust :: "gate_context \<Rightarrow> gate_context \<Rightarrow> bool" where
  "same_but_trust c c' \<longleftrightarrow>
     (\<exists>t r a. c' = c\<lparr>c_trustOf := t, c_reputationOf := r, c_attestation := a\<rparr>)"

text \<open>
  Fact: trust never relaxes the floor. A payment the gate blocks stays blocked, for the same
  reasons, under any trust level, reputation and attestation.
\<close>

theorem gate_trust_never_lifts_block:
  assumes "evaluateGate intent ctx = Inr d" "gd_outcome d = Block" "same_but_trust ctx ctx'"
  shows "\<exists>d'. evaluateGate intent ctx' = Inr d' \<and> gd_outcome d' = Block \<and>
    gd_reasons d' = gd_reasons d \<and> gd_mandateId d' = gd_mandateId d"
proof -
  from assms(3) obtain t r a where c': "ctx' = ctx\<lparr>c_trustOf := t, c_reputationOf := r, c_attestation := a\<rparr>"
    by (auto simp: same_but_trust_def)
  have fl: "gate_floor intent ctx' = gate_floor intent ctx"
    by (simp add: c' gate_floor_def gate_reversibility_def)
  have md: "gate_mandate intent ctx' = gate_mandate intent ctx" by (simp add: c' gate_mandate_def)
  from assms(1) show ?thesis
  proof (cases rule: evaluateGate_cases)
    case floor
    with fl show ?thesis by (simp add: evaluateGate_def assms(2))
  next
    case (capped m sp)
    then obtain d' where "gate_caps intent ctx' m sp = Some d'" "gd_reasons d' = gd_reasons d"
      "gd_mandateId d' = gd_mandateId d"
      by (auto simp: gate_caps_def Let_def c' split: if_splits)
    with capped fl md c' show ?thesis
      by (simp add: evaluateGate_def gate_in_mandate_def gate_caps_Some_Block)
  qed (use assms(2) in \<open>simp_all add: no_mandate_decision_def\<close>)
qed

theorem gate_trust_never_lifts_block_witness:
  "\<exists>d'. evaluateGate (gate_example_intent\<lparr>i_amount := - 5\<rparr>)
       (gate_example_context\<lparr>c_trustOf := Some (\<lambda>_. TrustTrusted), c_reputationOf := Some (\<lambda>_. Some RepGood),
          c_attestation := Some AttRegistryAttested\<rparr>) = Inr d' \<and>
     gd_outcome d' = Block \<and> gd_reasons d' = [AmountNotPositiveInteger] \<and> gd_mandateId d' = None"
proof -
  have "evaluateGate (gate_example_intent\<lparr>i_amount := - 5\<rparr>) gate_example_context =
      Inr (block_decision [AmountNotPositiveInteger] None)"
    by (simp add: evaluateGate_def gate_floor_def)
  from gate_trust_never_lifts_block [OF this] show ?thesis
    by (force simp: block_decision_def same_but_trust_def)
qed

text \<open>
  Fact: adding deny rules can only tighten. If the gate auto-executes under more rules, it gives
  the very same decision under fewer.
\<close>

theorem gate_deny_rules_antitone:
  assumes "evaluateGate intent (ctx\<lparr>c_denyRules := rules\<rparr>) = Inr d" "gd_outcome d \<noteq> Block"
    and "set rules' \<subseteq> set rules"
  shows "evaluateGate intent (ctx\<lparr>c_denyRules := rules'\<rparr>) = Inr d"
proof -
  let ?c = "ctx\<lparr>c_denyRules := rules\<rparr>" and ?c' = "ctx\<lparr>c_denyRules := rules'\<rparr>"
  have "gate_floor intent ?c = None"
    using assms(1,2) gate_floor_Some_Block by (cases "gate_floor intent ?c") (auto simp: evaluateGate_def)
  with assms(3) have "gate_floor intent ?c' = None"
    by (auto simp: gate_floor_None_iff gate_reversibility_def)
  have risk: "gate_risk intent ?c' = gate_risk intent ?c"
    by (simp add: gate_risk_def gate_trust_def gate_reversibility_def fun_eq_iff)
  have "gate_caps intent ?c' = gate_caps intent ?c" "gate_signals intent ?c' = gate_signals intent ?c"
    by (simp_all add: fun_eq_iff gate_caps_def gate_signals_def gate_trust_def risk Let_def)
  then have "gate_in_mandate intent ?c' = gate_in_mandate intent ?c"
    by (intro gate_in_mandate_cong) (simp_all add: risk)
  with \<open>gate_floor intent ?c = None\<close> \<open>gate_floor intent ?c' = None\<close>
  have "evaluateGate intent ?c' = evaluateGate intent ?c"
    by (intro evaluateGate_cong) (simp_all add: gate_mandate_def)
  with assms(1) show ?thesis by simp
qed

theorem gate_deny_rules_antitone_witness:
  "\<exists>d. evaluateGate gate_example_intent (gate_example_context\<lparr>c_denyRules := []\<rparr>) = Inr d \<and>
     gd_outcome d = AutoExecute"
proof -
  have same: "gate_example_context\<lparr>c_denyRules := []\<rparr> = gate_example_context"
    by (simp add: gate_example_context_def)
  with gate_example_auto obtain d where
    "evaluateGate gate_example_intent (gate_example_context\<lparr>c_denyRules := []\<rparr>) = Inr d" "gd_outcome d = AutoExecute"
    by auto
  with gate_deny_rules_antitone [where intent = gate_example_intent and ctx = gate_example_context
      and rules = "[]" and rules' = "[]" and d = d] show ?thesis by auto
qed

text \<open>
  Fact: the gate always answers. With an ISO clock string (and a window that stays in the years
  0 to 9999) and a store that answers for the period spend, there is a decision.
\<close>

theorem gate_total:
  assumes "c_now ctx = iso_text t" "iso_range t"
    "iso_range (t - velocityWindowMinutes (c_config ctx) * 60000)"
    and "\<forall>m \<in> set (c_mandates ctx). \<exists>sp. c_periodSpend ctx (m_id m) = Inr sp"
  shows "\<exists>d. evaluateGate intent ctx = Inr d"
  by (rule evaluateGate_total [OF assms])

theorem gate_total_witness: "\<exists>d. evaluateGate (gate_example_intent\<lparr>i_amount := 70000\<rparr>) gate_example_context = Inr d"
  by (rule gate_total [of gate_example_context 1700000000000])
     (simp_all add: gate_example_context_def DEFAULT_GATE_CONFIG_def iso_range_def)

end
