(* ===== verification/Memory_Store.thy ===== *)
theory Memory_Store
  imports Audit_Log Gate
begin

text \<open>
  The persistence boundary: the stored types and \<open>periodStart\<close> of \<open>src/core/store.ts\<close>, and the
  reference implementation \<open>createMemoryStore\<close> of \<open>src/store/memoryStore.ts\<close>. The store's maps are
  ordered dictionaries; an operation returns the new store, or the error it throws.

  The locale \<open>spend_ledger\<close> is the part of the contract the gate's budget rests on: what an insert
  or an update of an intent does to the spend attributed to a mandate. The memory store interprets
  it. The facts on \<open>periodStart\<close>: it is a midnight (a Monday, a first of the month) at or before
  now, and it never moves backwards as the clock advances.
\<close>

section \<open>Stored types\<close>

datatype intent_status = Pending | Settled | Blocked | Failed

record stored_intent =
  si_intent :: payment_intent
  si_status :: intent_status
  si_mandateId :: "str option"
  si_reasons :: "reason list"
  si_settledAt :: "str option"
  si_receiptId :: "str option"
  si_refundedMinor :: "jsnum option"

record intent_update =
  iu_status :: "intent_status option"
  iu_settledAt :: "str option"
  iu_receiptId :: "str option"
  iu_reasons :: "reason list option"
  iu_refundedMinor :: "jsnum option"

definition no_update :: intent_update where
  "no_update = \<lparr>iu_status = None, iu_settledAt = None, iu_receiptId = None, iu_reasons = None,
                iu_refundedMinor = None\<rparr>"

record mem_store =
  st_key :: str
  st_mandates :: "(str, mandate) omap"
  st_intents :: "(str, stored_intent) omap"
  st_receipts :: "(str, receipt) omap"
  st_audit :: "audit_entry list"
  st_meta :: "(str, str) omap"

section \<open>The start of a period\<close>

definition period_start_day :: "int \<Rightarrow> period \<Rightarrow> int" where
  "period_start_day t p =
     (case p of
        Day \<Rightarrow> date_utc (utc_full_year t) (int (utc_month t)) (utc_date t)
      | Month \<Rightarrow> date_utc (utc_full_year t) (int (utc_month t)) 1
      | Week \<Rightarrow>
          let daysSinceMonday = (utc_weekday t + 6) mod 7
          in date_utc (utc_full_year t) (int (utc_month t)) (utc_date t - daysSinceMonday))"

definition periodStart :: "str \<Rightarrow> period \<Rightarrow> js_error + str" where
  "periodStart now p =
     (case date_parse now of
        None \<Rightarrow> Inl RangeError
      | Some t \<Rightarrow> to_iso (period_start_day t p))"

section \<open>Operations\<close>

definition createMemoryStore :: "str \<Rightarrow> mem_store" where
  "createMemoryStore key =
     \<lparr>st_key = key, st_mandates = [], st_intents = [], st_receipts = [], st_audit = [], st_meta = []\<rparr>"

definition getMeta :: "mem_store \<Rightarrow> str \<Rightarrow> str option" where
  "getMeta s k = map_of (st_meta s) k"

definition setMeta :: "str \<Rightarrow> str \<Rightarrow> mem_store \<Rightarrow> mem_store" where
  "setMeta k v s = s\<lparr>st_meta := AList.update k v (st_meta s)\<rparr>"

definition insertMandate :: "mandate \<Rightarrow> mem_store \<Rightarrow> js_error + mem_store" where
  "insertMandate m s =
     (if map_of (st_mandates s) (m_id m) \<noteq> None then Inl (DuplicateKey (js ''mandate '' @ m_id m))
      else Inr (s\<lparr>st_mandates := AList.update (m_id m) m (st_mandates s)\<rparr>))"

definition getMandate :: "mem_store \<Rightarrow> str \<Rightarrow> mandate option" where
  "getMandate s i = map_of (st_mandates s) i"

definition listMandates :: "mem_store \<Rightarrow> mandate list" where
  "listMandates s = map snd (st_mandates s)"

definition listActiveMandates :: "mem_store \<Rightarrow> str \<Rightarrow> mandate list" where
  "listActiveMandates s now = filter (\<lambda>m. isLiveMandate m now) (map snd (st_mandates s))"

definition revokeMandate :: "str \<Rightarrow> mem_store \<Rightarrow> mem_store" where
  "revokeMandate i s =
     (case map_of (st_mandates s) i of
        Some m \<Rightarrow> s\<lparr>st_mandates := AList.update i (m\<lparr>m_status := Revoked\<rparr>) (st_mandates s)\<rparr>
      | None \<Rightarrow> s)"

definition apply_patch :: "mandate_patch \<Rightarrow> mandate \<Rightarrow> mandate" where
  "apply_patch p m =
     \<lparr>m_id = m_id m,
      m_label = nullish (mp_label p) (m_label m), m_scope = nullish (mp_scope p) (m_scope m),
      m_currency = nullish (mp_currency p) (m_currency m),
      m_allowedRails = nullish (mp_allowedRails p) (m_allowedRails m),
      m_perTxCap = nullish (mp_perTxCap p) (m_perTxCap m),
      m_perPeriodCap = nullish (mp_perPeriodCap p) (m_perPeriodCap m),
      m_period = nullish (mp_period p) (m_period m),
      m_grantedAt = nullish (mp_grantedAt p) (m_grantedAt m),
      m_expiresAt = nullish (mp_expiresAt p) (m_expiresAt m),
      m_status = nullish (mp_status p) (m_status m)\<rparr>"

definition updateMandate :: "str \<Rightarrow> mandate_patch \<Rightarrow> mem_store \<Rightarrow> mem_store" where
  "updateMandate i p s =
     (case map_of (st_mandates s) i of
        Some m \<Rightarrow> s\<lparr>st_mandates := AList.update i ((apply_patch p m)\<lparr>m_id := i\<rparr>) (st_mandates s)\<rparr>
      | None \<Rightarrow> s)"

definition insertIntent :: "stored_intent \<Rightarrow> mem_store \<Rightarrow> js_error + mem_store" where
  "insertIntent si s =
     (if map_of (st_intents s) (i_id (si_intent si)) \<noteq> None
      then Inl (DuplicateKey (js ''intent '' @ i_id (si_intent si)))
      else Inr (s\<lparr>st_intents := AList.update (i_id (si_intent si)) si (st_intents s)\<rparr>))"

definition getIntent :: "mem_store \<Rightarrow> str \<Rightarrow> stored_intent option" where
  "getIntent s i = map_of (st_intents s) i"

definition listPendingIntents :: "mem_store \<Rightarrow> stored_intent list" where
  "listPendingIntents s = filter (\<lambda>si. si_status si = Pending) (map snd (st_intents s))"

definition apply_update :: "intent_update \<Rightarrow> stored_intent \<Rightarrow> stored_intent" where
  "apply_update u si =
     si\<lparr>si_status := nullish (iu_status u) (si_status si),
        si_settledAt := or_else (iu_settledAt u) (si_settledAt si),
        si_receiptId := or_else (iu_receiptId u) (si_receiptId si),
        si_reasons := nullish (iu_reasons u) (si_reasons si),
        si_refundedMinor := or_else (iu_refundedMinor u) (si_refundedMinor si)\<rparr>"

definition updateIntent :: "str \<Rightarrow> intent_update \<Rightarrow> mem_store \<Rightarrow> js_error + mem_store" where
  "updateIntent i u s =
     (case map_of (st_intents s) i of
        None \<Rightarrow> Inl (NotFound (js ''intent '' @ i))
      | Some si \<Rightarrow> Inr (s\<lparr>st_intents := AList.update i (apply_update u si) (st_intents s)\<rparr>))"

definition insertReceipt :: "receipt \<Rightarrow> mem_store \<Rightarrow> mem_store" where
  "insertReceipt r s = s\<lparr>st_receipts := AList.update (r_id r) r (st_receipts s)\<rparr>"

definition getReceipt :: "mem_store \<Rightarrow> str \<Rightarrow> receipt option" where
  "getReceipt s i = map_of (st_receipts s) i"

definition counts_towards :: "str \<Rightarrow> str \<Rightarrow> stored_intent \<Rightarrow> bool" where
  "counts_towards mandateId start si \<longleftrightarrow>
     si_status si = Settled \<and> si_mandateId si = Some mandateId \<and>
     (case si_settledAt si of None \<Rightarrow> False | Some t \<Rightarrow> t \<ge> start)"

definition net_amount :: "stored_intent \<Rightarrow> jsnum" where
  "net_amount si = i_amount (si_intent si) - nullish (si_refundedMinor si) 0"

definition periodSpend :: "mem_store \<Rightarrow> str \<Rightarrow> str \<Rightarrow> js_error + prior_spend list" where
  "periodSpend s mandateId now =
     (case map_of (st_mandates s) mandateId of
        None \<Rightarrow> Inr []
      | Some m \<Rightarrow>
          bindE (periodStart now (m_period m)) (\<lambda>start.
            Inr (map (\<lambda>si. \<lparr>ps_amount = net_amount si, ps_at = nullish (si_settledAt si) []\<rparr>)
                  (filter (counts_towards mandateId start) (map snd (st_intents s))))))"

definition knownPayees :: "mem_store \<Rightarrow> str list" where
  "knownPayees s =
     js_set (map (\<lambda>si. i_payee (si_intent si))
       (filter (\<lambda>si. si_status si = Settled) (map snd (st_intents s))))"

definition payeeSettledCount :: "mem_store \<Rightarrow> str \<Rightarrow> nat" where
  "payeeSettledCount s payee =
     length (filter (\<lambda>si. si_status si = Settled \<and> i_payee (si_intent si) = payee) (map snd (st_intents s)))"

definition appendAudit :: "audit_entry \<Rightarrow> mem_store \<Rightarrow> mem_store" where
  "appendAudit e s = s\<lparr>st_audit := st_audit s @ [e]\<rparr>"

section \<open>What each operation leaves alone\<close>

lemma store_frame [ledger_simps]:
  "st_intents (setMeta k v s) = st_intents s" "st_mandates (setMeta k v s) = st_mandates s"
  "st_receipts (setMeta k v s) = st_receipts s"
  "st_intents (revokeMandate i s) = st_intents s" "st_intents (updateMandate i p s) = st_intents s"
  "st_meta (revokeMandate i s) = st_meta s" "st_meta (updateMandate i p s) = st_meta s"
  "st_intents (insertReceipt r s) = st_intents s" "st_mandates (insertReceipt r s) = st_mandates s"
  "st_meta (insertReceipt r s) = st_meta s"
  "st_intents (appendAudit e s) = st_intents s" "st_mandates (appendAudit e s) = st_mandates s"
  "st_receipts (appendAudit e s) = st_receipts s" "st_meta (appendAudit e s) = st_meta s"
  by (simp_all add: setMeta_def revokeMandate_def updateMandate_def insertReceipt_def appendAudit_def
      split: option.splits)

lemma getMeta_setMeta [ledger_simps]: "getMeta (setMeta k v s) k' = (if k' = k then Some v else getMeta s k')"
  by (simp add: getMeta_def setMeta_def omap.get_put)

lemma insertIntent_Inr_iff:
  "insertIntent si s = Inr s' \<longleftrightarrow>
     map_of (st_intents s) (i_id (si_intent si)) = None \<and>
     s' = s\<lparr>st_intents := st_intents s @ [(i_id (si_intent si), si)]\<rparr>"
  by (auto simp: insertIntent_def map_of_eq_None_iff update_absent)

lemma updateIntent_Inr_iff:
  "updateIntent i u s = Inr s' \<longleftrightarrow>
     (\<exists>si. map_of (st_intents s) i = Some si \<and>
        s' = s\<lparr>st_intents := AList.update i (apply_update u si) (st_intents s)\<rparr>)"
  by (auto simp: updateIntent_def split: option.splits)

text \<open>Well-formed stores: distinct keys, and each record filed under its own id.\<close>

definition keyed :: "('v \<Rightarrow> 'k) \<Rightarrow> ('k, 'v) omap \<Rightarrow> bool" where
  "keyed f m \<longleftrightarrow> (\<forall>(k, v) \<in> set m. f v = k)"

lemma keyed_update [intro]: "keyed f m \<Longrightarrow> f x = i \<Longrightarrow> keyed f (AList.update i x m)"
  unfolding keyed_def by (induction m) auto

lemma keyed_map_of: "keyed f m \<Longrightarrow> map_of m k = Some v \<Longrightarrow> f v = k"
  unfolding keyed_def by (auto dest: map_of_SomeD)

lemma keyed_mem: "keyed f m \<Longrightarrow> (k, v) \<in> set m \<Longrightarrow> f v = k"
  unfolding keyed_def by auto

definition store_wf :: "mem_store \<Rightarrow> bool" where
  "store_wf s \<longleftrightarrow>
     wf_omap (st_mandates s) \<and> wf_omap (st_intents s) \<and> wf_omap (st_receipts s) \<and> wf_omap (st_meta s) \<and>
     keyed m_id (st_mandates s) \<and> keyed (i_id \<circ> si_intent) (st_intents s) \<and> keyed r_id (st_receipts s)"

lemma store_wf_init: "store_wf (createMemoryStore key)"
  by (simp add: store_wf_def createMemoryStore_def keyed_def)

lemma store_wf_setMeta [intro]: "store_wf s \<Longrightarrow> store_wf (setMeta k v s)"
  and store_wf_insertReceipt [intro]: "store_wf s \<Longrightarrow> store_wf (insertReceipt r s)"
  and store_wf_appendAudit [intro]: "store_wf s \<Longrightarrow> store_wf (appendAudit e s)"
  by (simp_all add: store_wf_def setMeta_def insertReceipt_def appendAudit_def distinct_update keyed_update)

lemma store_wf_revokeMandate [intro]:
  assumes wf: "store_wf s" shows "store_wf (revokeMandate i s)"
proof (cases "map_of (st_mandates s) i")
  case None
  then show ?thesis using wf by (simp add: revokeMandate_def)
next
  case (Some m)
  have "keyed m_id (st_mandates s)" using wf by (simp add: store_wf_def)
  from keyed_map_of [OF this Some] have "m_id m = i" .
  with wf Some show ?thesis
    by (simp add: store_wf_def revokeMandate_def distinct_update keyed_update)
qed

lemma store_wf_updateMandate [intro]:
  assumes "store_wf s" shows "store_wf (updateMandate i p s)"
  using assms by (cases "map_of (st_mandates s) i")
    (simp_all add: store_wf_def updateMandate_def distinct_update keyed_update)

lemma store_wf_insertIntent: "store_wf s \<Longrightarrow> insertIntent si s = Inr s' \<Longrightarrow> store_wf s'"
  by (auto simp: store_wf_def insertIntent_def distinct_update keyed_update split: if_splits)

lemma store_wf_insertMandate: "store_wf s \<Longrightarrow> insertMandate m s = Inr s' \<Longrightarrow> store_wf s'"
  by (auto simp: store_wf_def insertMandate_def distinct_update keyed_update split: if_splits)

lemma si_intent_apply_update [simp]: "si_intent (apply_update u si) = si_intent si"
  and si_mandateId_apply_update [simp]: "si_mandateId (apply_update u si) = si_mandateId si"
  by (simp_all add: apply_update_def)

lemma store_wf_updateIntent:
  assumes wf: "store_wf s" and up: "updateIntent i u s = Inr s'"
  shows "store_wf s'"
proof -
  obtain si where si: "map_of (st_intents s) i = Some si"
    and s': "s' = s\<lparr>st_intents := AList.update i (apply_update u si) (st_intents s)\<rparr>"
    using up by (auto simp: updateIntent_Inr_iff)
  have keyed: "keyed (i_id \<circ> si_intent) (st_intents s)" and dist: "wf_omap (st_intents s)"
    using wf unfolding store_wf_def by blast+
  from keyed_map_of [OF keyed si] have "(i_id \<circ> si_intent) (apply_update u si) = i" by simp
  with keyed dist have "keyed (i_id \<circ> si_intent) (st_intents s') \<and> wf_omap (st_intents s')"
    using s' by (simp add: distinct_update keyed_update del: o_apply)
  with wf s' show ?thesis
    unfolding store_wf_def by simp
qed

section \<open>The spend attributed to a mandate\<close>

definition counted :: "str \<Rightarrow> str \<Rightarrow> stored_intent \<Rightarrow> jsnum" where
  "counted mandateId start si = (if counts_towards mandateId start si then net_amount si else 0)"

definition spent_since :: "mem_store \<Rightarrow> str \<Rightarrow> str \<Rightarrow> jsnum" where
  "spent_since s mandateId start = sum_list (map (counted mandateId start \<circ> snd) (st_intents s))"

lemma sum_list_counted:
  "sum_list (map net_amount (filter (counts_towards i start) (map snd xs))) =
     sum_list (map (counted i start \<circ> snd) xs)"
  by (induction xs) (auto simp: counted_def)

lemma spent_since_cong: "st_intents s = st_intents s' \<Longrightarrow> spent_since s = spent_since s'"
  by (simp add: spent_since_def fun_eq_iff)

lemma periodSpend_total:
  assumes "map_of (st_mandates s) i = Some m" "periodSpend s i now = Inr sp"
  shows "\<exists>start. periodStart now (m_period m) = Inr start \<and> total_spent sp = spent_since s i start"
  using assms
  by (auto simp: periodSpend_def bindE_Inr_iff total_spent_def spent_since_def o_def
      sum_list_counted [unfolded o_def])

text \<open>
  The contract of the ledger of intents. \<open>spend\<close> is a quantity that each record contributes to, such
  as the spend attributed to one mandate since one instant.
\<close>

locale spend_ledger =
  fixes find_rec :: "'l \<Rightarrow> str \<Rightarrow> 'r option"
    and insert_rec :: "'r \<Rightarrow> 'l \<Rightarrow> js_error + 'l"
    and update_rec :: "str \<Rightarrow> 'u \<Rightarrow> 'l \<Rightarrow> js_error + 'l"
    and change :: "'u \<Rightarrow> 'r \<Rightarrow> 'r"
    and key_of :: "'r \<Rightarrow> str"
    and contrib :: "'r \<Rightarrow> jsnum"
    and spend :: "'l \<Rightarrow> jsnum"
    and ok :: "'l \<Rightarrow> bool"
  assumes insert_taken: "find_rec l (key_of r) = Some x \<Longrightarrow> \<exists>e. insert_rec r l = Inl (DuplicateKey e)"
    and insert_fresh: "find_rec l (key_of r) = None \<Longrightarrow>
      \<exists>l'. insert_rec r l = Inr l' \<and> find_rec l' = (find_rec l)(key_of r \<mapsto> r) \<and>
        spend l' = spend l + contrib r \<and> (ok l \<longrightarrow> ok l')"
    and update_absent: "find_rec l i = None \<Longrightarrow> \<exists>e. update_rec i u l = Inl (NotFound e)"
    and update_present: "ok l \<Longrightarrow> find_rec l i = Some r \<Longrightarrow>
      \<exists>l'. update_rec i u l = Inr l' \<and> find_rec l' = (find_rec l)(i \<mapsto> change u r) \<and>
        spend l' = spend l - contrib r + contrib (change u r) \<and> ok l'"
begin

lemma insert_InrD:
  assumes "insert_rec r l = Inr l'"
  shows "find_rec l (key_of r) = None" "find_rec l' = (find_rec l)(key_of r \<mapsto> r)"
    "spend l' = spend l + contrib r" "ok l \<Longrightarrow> ok l'"
proof -
  show none: "find_rec l (key_of r) = None"
    using assms insert_taken by (cases "find_rec l (key_of r)") fastforce+
  from insert_fresh [OF none] assms
  show "find_rec l' = (find_rec l)(key_of r \<mapsto> r)" "spend l' = spend l + contrib r" "ok l \<Longrightarrow> ok l'"
    by auto
qed

lemma update_InrD:
  assumes "ok l" "update_rec i u l = Inr l'"
  shows "\<exists>r. find_rec l i = Some r \<and> find_rec l' = (find_rec l)(i \<mapsto> change u r) \<and>
           spend l' = spend l - contrib r + contrib (change u r) \<and> ok l'"
proof (cases "find_rec l i")
  case None
  from update_absent [OF this, of u] assms(2) show ?thesis by auto
next
  case (Some r)
  from update_present [OF assms(1) this, of u] assms(2) Some show ?thesis by auto
qed

lemma update_neutral:
  assumes "ok l" "update_rec i u l = Inr l'" "\<And>r. find_rec l i = Some r \<Longrightarrow> contrib (change u r) = contrib r"
  shows "spend l' = spend l"
  using update_InrD [OF assms(1,2)] assms(3) by auto

end

lemma spend_update:
  assumes "wf_omap m" "map_of m k = Some w"
  shows "sum_list (map (f \<circ> snd) (AList.update k v m)) = sum_list (map (f \<circ> snd) m) - f w + (f v :: jsnum)"
proof -
  from update_present_split [OF assms] obtain xs ys where
    "m = xs @ (k, w) # ys" "AList.update k v m = xs @ (k, v) # ys" by blast
  then show ?thesis by simp
qed

interpretation ledger: spend_ledger getIntent insertIntent updateIntent apply_update
  "\<lambda>si. i_id (si_intent si)" "counted mandateId start" "\<lambda>s. spent_since s mandateId start" store_wf
  for mandateId start
proof unfold_locales
  fix s :: mem_store and si x u i
  show "getIntent s (i_id (si_intent si)) = Some x \<Longrightarrow> \<exists>e. insertIntent si s = Inl (DuplicateKey e)"
    by (simp add: getIntent_def insertIntent_def)
  show "\<exists>s'. insertIntent si s = Inr s' \<and> getIntent s' = (getIntent s)(i_id (si_intent si) \<mapsto> si) \<and>
      spent_since s' mandateId start = spent_since s mandateId start + counted mandateId start si \<and>
      (store_wf s \<longrightarrow> store_wf s')"
    if none: "getIntent s (i_id (si_intent si)) = None"
  proof -
    have ins: "insertIntent si s = Inr (s\<lparr>st_intents := AList.update (i_id (si_intent si)) si (st_intents s)\<rparr>)"
      using none by (simp add: getIntent_def insertIntent_def)
    have "AList.update (i_id (si_intent si)) si (st_intents s) = st_intents s @ [(i_id (si_intent si), si)]"
      using none by (intro update_absent) (simp add: getIntent_def map_of_eq_None_iff)
    then have "spent_since (s\<lparr>st_intents := AList.update (i_id (si_intent si)) si (st_intents s)\<rparr>) mandateId start =
        spent_since s mandateId start + counted mandateId start si"
      by (simp add: spent_since_def)
    with ins store_wf_insertIntent [OF _ ins] show ?thesis
      by (simp add: getIntent_def fun_eq_iff omap.get_put)
  qed
  show "getIntent s i = None \<Longrightarrow> \<exists>e. updateIntent i u s = Inl (NotFound e)"
    by (simp add: getIntent_def updateIntent_def)
  show "\<exists>s'. updateIntent i u s = Inr s' \<and> getIntent s' = (getIntent s)(i \<mapsto> apply_update u x) \<and>
      spent_since s' mandateId start =
        spent_since s mandateId start - counted mandateId start x + counted mandateId start (apply_update u x) \<and>
      store_wf s'"
    if wf: "store_wf s" and some: "getIntent s i = Some x"
  proof -
    have up: "updateIntent i u s = Inr (s\<lparr>st_intents := AList.update i (apply_update u x) (st_intents s)\<rparr>)"
      using some by (simp add: getIntent_def updateIntent_def)
    moreover have "wf_omap (st_intents s)" using wf unfolding store_wf_def by blast
    ultimately show ?thesis
      using store_wf_updateIntent [OF wf up] some
      by (simp add: getIntent_def fun_eq_iff spent_since_def omap.get_put spend_update)
  qed
qed

section \<open>The period window\<close>

lemma make_day_shift: "make_day y m d = make_day y m e + (d - e)"
  by (simp add: make_day_def Let_def)

definition first_day :: "int \<Rightarrow> period \<Rightarrow> int" where
  "first_day t p =
     (case p of
        Day \<Rightarrow> utc_day t
      | Month \<Rightarrow> utc_day t - (utc_date t - 1)
      | Week \<Rightarrow> utc_day t - (utc_day t + 3) mod 7)"

lemma period_start_first_day:
  assumes "100 \<le> utc_full_year t"
  shows "period_start_day t p = first_day t p * ms_per_day"
proof -
  have md: "make_day (utc_full_year t) (int (utc_month t)) d = utc_day t + (d - utc_date t)" for d
    using make_day_shift [of "utc_full_year t" "int (utc_month t)" d "utc_date t"] by simp
  have wd: "(utc_weekday t + 6) mod 7 = (utc_day t + 3) mod 7"
    using mod_add_left_eq [of "utc_day t + 4" 7 6] mod_add_self2 [of "utc_day t + 3" 7]
    by (simp add: utc_weekday_def)
  show ?thesis
    using assms wd by (cases p) (simp_all add: period_start_day_def date_utc_def first_day_def md Let_def)
qed

lemma first_day_bounds: "first_day t p \<le> utc_day t" "utc_day t - first_day t p \<le> 30"
  using utc_date_bounds [of t] pos_mod_bound [of 7 "utc_day t + 3"] pos_mod_sign [of 7 "utc_day t + 3"]
  by (cases p; simp add: first_day_def)+

lemma utc_day_mono: "t \<le> u \<Longrightarrow> utc_day t \<le> utc_day u"
  by (simp add: utc_day_def ms_per_day_def zdiv_mono1)

lemma first_of_month: "utc_day t - (utc_date t - 1) =
    days_from_year (utc_full_year t) + month_offset (leap_year (utc_full_year t)) (utc_month t)"
  by (simp add: utc_date_def utc_doy_def)

lemma first_day_mono:
  assumes "t \<le> u"
  shows "first_day t p \<le> first_day u p"
proof (cases p)
  case Day
  then show ?thesis using utc_day_mono [OF assms] by (simp add: first_day_def)
next
  case Week
  have "d - (d + 3) mod 7 = 7 * ((d + 3) div 7) - 3" for d :: int
    using mult_div_mod_eq [of 7 "d + 3"] by linarith
  with Week utc_day_mono [OF assms] show ?thesis
    by (simp add: first_day_def zdiv_mono1)
next
  case Month
  have y: "utc_full_year t \<le> utc_full_year u"
    unfolding utc_full_year_def by (intro year_from_day_mono utc_day_mono assms)
  show ?thesis
  proof (cases "utc_full_year t = utc_full_year u")
    case True
    then have "utc_doy t \<le> utc_doy u" using utc_day_mono [OF assms] by (simp add: utc_doy_def)
    then have "utc_month t \<le> utc_month u"
      unfolding utc_month_def True using utc_doy_bounds [of t] utc_doy_bounds [of u] True
      by (intro month_from_doy_mono) auto
    then have "month_offset l (utc_month t) \<le> month_offset l (utc_month u)" for l
      using utc_month_bound [of u] by (intro month_offset_mono) auto
    with True Month show ?thesis by (simp add: first_day_def first_of_month del: month_offset.simps)
  next
    case False
    then have "utc_day t < days_from_year (utc_full_year t + 1)"
      and "days_from_year (utc_full_year t + 1) \<le> days_from_year (utc_full_year u)"
      using y year_from_day(2) [of "utc_day t"] by (auto simp: utc_full_year_def intro: days_from_year_mono)
    moreover have "days_from_year (utc_full_year u) \<le> first_day u Month"
      using month_offset_mono [of 0 "utc_month u" "leap_year (utc_full_year u)"] utc_month_bound [of u]
      by (simp add: first_day_def first_of_month)
    ultimately show ?thesis using Month first_day_bounds(1) [of t Month] by simp
  qed
qed

lemma month_from_doy_offset: "m < 12 \<Longrightarrow> month_from_doy l (month_offset l m) = m"
proof -
  have "\<forall>m < 12. month_from_doy l (month_offset l m) = m"
    by (cases l) (simp_all add: less_Suc_eq numeral_nat month_from_doy_def upt_rec)
  then show "m < 12 \<Longrightarrow> ?thesis" by blast
qed

lemma midnight_fields: "utc_day (d * ms_per_day) = d" "utc_time_in_day (d * ms_per_day) = 0"
  by (simp_all add: utc_day_def utc_time_in_day_def ms_per_day_def)

lemma first_of_month_fields:
  assumes "s = first_day t Month * ms_per_day"
  shows "utc_full_year s = utc_full_year t" "utc_month s = utc_month t" "utc_date s = 1"
proof -
  let ?l = "leap_year (utc_full_year t)"
  have d: "utc_day s = days_from_year (utc_full_year t) + month_offset ?l (utc_month t)"
    using first_of_month [of t] by (simp add: assms midnight_fields first_day_def)
  have "month_offset ?l 0 \<le> month_offset ?l (utc_month t)" "utc_day s \<le> utc_day t"
    using utc_month_bound [of t] first_day_bounds(1) [of t Month]
    by (auto simp only: assms midnight_fields intro: month_offset_mono)
  with d show y: "utc_full_year s = utc_full_year t"
    using year_from_day(2) [of "utc_day t"] unfolding utc_full_year_def
    by (intro year_from_day_unique) (auto simp del: month_offset.simps simp: month_offset.simps [of _ 0])
  show m: "utc_month s = utc_month t"
    unfolding utc_month_def [of s] utc_doy_def y d
    using month_from_doy_offset [OF utc_month_bound, of ?l t] by (simp del: month_offset.simps)
  show "utc_date s = 1"
    unfolding utc_date_def utc_doy_def y m d by simp
qed

definition period_window :: "period \<Rightarrow> int \<Rightarrow> int \<Rightarrow> bool" where
  "period_window p s t \<longleftrightarrow>
     s \<le> t \<and> utc_time_in_day s = 0 \<and>
     (case p of
        Day \<Rightarrow> t - s < ms_per_day
      | Week \<Rightarrow> utc_weekday s = 1 \<and> t - s < 7 * ms_per_day
      | Month \<Rightarrow> utc_full_year s = utc_full_year t \<and> utc_month s = utc_month t \<and> utc_date s = 1)"

lemma period_window_first_day: "period_window p (first_day t p * ms_per_day) t"
proof -
  have le: "first_day t p * ms_per_day \<le> t" and lt: "t < (utc_day t + 1) * ms_per_day"
    using first_day_bounds(1) [of t p] time_split [of t] time_in_day_bound [of t]
    by (simp_all add: ms_per_day_def algebra_simps)
  have week: "utc_weekday (first_day t Week * ms_per_day) = 1"
  proof -
    have "d - (d + 3) mod 7 + 4 = 1 + 7 * ((d + 3) div 7)" for d :: int
      using mult_div_mod_eq [of 7 "d + 3"] by linarith
    then have "(d - (d + 3) mod 7 + 4) mod 7 = 1" for d :: int
      by (simp only: mod_mult_self2) simp
    then show ?thesis by (simp add: utc_weekday_def midnight_fields first_day_def)
  qed
  have t0: "utc_time_in_day (first_day t p * ms_per_day) = 0" by (rule midnight_fields)
  show ?thesis
  proof (cases p)
    case Day
    with le lt t0 show ?thesis by (simp add: period_window_def first_day_def algebra_simps)
  next
    case Week
    have "t < (first_day t Week + 7) * ms_per_day"
      using lt pos_mod_bound [of 7 "utc_day t + 3"] by (simp add: first_day_def ms_per_day_def)
    with Week le t0 week show ?thesis by (simp add: period_window_def algebra_simps)
  next
    case Month
    with le t0 first_of_month_fields [OF refl, of t] show ?thesis by (simp add: period_window_def)
  qed
qed

lemma periodStart_iso:
  assumes "iso_range t" "100 \<le> utc_full_year t"
  shows "periodStart (iso_text t) p = Inr (iso_text (first_day t p * ms_per_day))"
    "iso_range (first_day t p * ms_per_day)"
proof -
  have "days_from_year 100 \<le> utc_day t"
    using assms(2) year_from_day(1) [of "utc_day t"] days_from_year_mono [of 100 "utc_full_year t"]
    unfolding utc_full_year_def by linarith
  then show r: "iso_range (first_day t p * ms_per_day)"
    using first_day_bounds [of t p] period_window_first_day [of p t] assms(1)
    by (simp add: iso_range_def days_from_year_def period_window_def ms_per_day_def)
  show "periodStart (iso_text t) p = Inr (iso_text (first_day t p * ms_per_day))"
    using assms by (simp add: periodStart_def date_parse_iso_text period_start_first_day to_iso_range [OF r])
qed

lemma periodStart_iso_mono:
  assumes "iso_range t" "iso_range u" "100 \<le> utc_full_year t" "t \<le> u" "periodStart (iso_text u) p = Inr b"
  obtains a where "periodStart (iso_text t) p = Inr a" "a \<le> b"
proof
  have y: "100 \<le> utc_full_year u"
    using assms(3) year_from_day_mono [OF utc_day_mono [OF assms(4)]] by (simp add: utc_full_year_def)
  note pt = periodStart_iso [OF assms(1,3), of p] and pu = periodStart_iso [OF assms(2) y, of p]
  show "periodStart (iso_text t) p = Inr (iso_text (first_day t p * ms_per_day))" by (rule pt(1))
  have "first_day t p * ms_per_day \<le> first_day u p * ms_per_day"
    using first_day_mono [OF assms(4)] by (simp add: ms_per_day_def)
  with pt(2) pu assms(5) show "iso_text (first_day t p * ms_per_day) \<le> b" by (auto simp: iso_text_le)
qed

section \<open>Properties\<close>

text \<open>
  Fact: for every clock reading of the years 100 to 9999 \<open>periodStart\<close> returns an instant at
  midnight, at or before now: of the same day, of the Monday less than seven days ago, or of the
  first of the same month.
\<close>

theorem periodStart_window:
  assumes "iso_range t" "100 \<le> utc_full_year t"
  shows "\<exists>s. periodStart (iso_text t) p = Inr (iso_text s) \<and> iso_range s \<and> period_window p s t"
  using periodStart_iso [OF assms] period_window_first_day by blast

theorem periodStart_window_witness:
  "\<exists>s. periodStart (iso_text 1700000000000) Week = Inr (iso_text s) \<and> iso_range s \<and>
     period_window Week s 1700000000000"
  by (rule periodStart_window) code_simp+

text \<open>
  Fact: the start of a period never moves backwards as the clock advances, so a settlement that
  has left the window never counts towards the budget again.
\<close>

theorem periodStart_monotone:
  assumes "iso_range t" "iso_range u" "100 \<le> utc_full_year t" "t \<le> u"
    and "periodStart (iso_text t) p = Inr a" "periodStart (iso_text u) p = Inr b"
    and "counts_towards i b si"
  shows "a \<le> b \<and> counts_towards i a si"
proof -
  from periodStart_iso_mono [OF assms(1-4,6)] assms(5) have "a \<le> b" by (metis Inr_inject)
  with assms(7) show ?thesis by (auto simp: counts_towards_def split: option.splits)
qed

definition settled_example :: stored_intent where
  "settled_example =
     \<lparr>si_intent = \<lparr>i_id = js ''pi_1'', i_payee = js ''acme'', i_payeeClass = js ''saas'', i_amount = 250,
        i_currency = js ''USD'', i_rail = Card, i_rationale = js ''monthly plan'', i_createdAt = []\<rparr>,
      si_status = Settled, si_mandateId = Some (js ''m_1''), si_reasons = [],
      si_settledAt = Some (js ''2023-11-20T08:00:00.000Z''), si_receiptId = None, si_refundedMinor = None\<rparr>"

lemma november_2023:
  "periodStart (iso_text 1700000000000) Month = Inr (iso_text 1698796800000)"
  "periodStart (iso_text 1700500000000) Month = Inr (iso_text 1698796800000)"
proof -
  have first: "first_day 1700000000000 Month * ms_per_day = 1698796800000"
    "first_day 1700500000000 Month * ms_per_day = 1698796800000"
    by code_simp+
  have "iso_range 1700000000000" "iso_range 1700500000000"
    "100 \<le> utc_full_year 1700000000000" "100 \<le> utc_full_year 1700500000000"
    by code_simp+
  then show "periodStart (iso_text 1700000000000) Month = Inr (iso_text 1698796800000)"
    "periodStart (iso_text 1700500000000) Month = Inr (iso_text 1698796800000)"
    using periodStart_iso(1) [of 1700000000000 Month] periodStart_iso(1) [of 1700500000000 Month]
    unfolding first by blast+
qed

theorem periodStart_monotone_witness:
  "iso_text 1698796800000 \<le> iso_text 1698796800000 \<and>
   counts_towards (js ''m_1'') (iso_text 1698796800000) settled_example"
proof (rule periodStart_monotone [of 1700000000000 1700500000000 Month])
  show "iso_range 1700000000000" "iso_range 1700500000000" "100 \<le> utc_full_year 1700000000000"
    "(1700000000000 :: int) \<le> 1700500000000"
    by code_simp+
  have "iso_text 1698796800000 = js ''2023-11-01T00:00:00.000Z''" by (simp add: iso_eval js_def)
  then show "counts_towards (js ''m_1'') (iso_text 1698796800000) settled_example"
    by (simp add: counts_towards_def settled_example_def js_def)
qed (rule november_2023)+

end
