(* ===== verification/Rails.thy ===== *)
theory Rails
  imports Core_Types Gate
begin

text \<open>
  The settlement rails: the provider interface of \<open>src/rails/provider.ts\<close>, the registry
  (\<open>src/rails/registry.ts\<close>), the in-process rail (\<open>src/rails/fakeRail.ts\<close>), the builder of the network
  rails (\<open>src/rails/networkRail.ts\<close>), the credential broker (\<open>src/core/credentialBroker.ts\<close>) and the
  governed wallet (\<open>src/rails/governedWallet.ts\<close>).

  What a rail changes in the world is a state of an arbitrary type \<open>'r\<close>, passed through its calls. A
  fact that holds for every \<open>'r\<close> and says that the state is unchanged says that the rail was not called.
  The operator's network clients are arguments.
\<close>

section \<open>Providers\<close>

datatype finality_mode = Instant | Delayed

record 'r provider =
  pv_id :: str
  pv_rail :: rail_kind
  pv_reversibility :: reversibility
  pv_finality :: finality_mode
  pv_settle :: "payment_intent \<Rightarrow> str \<Rightarrow> 'r \<Rightarrow> (js_error + receipt) \<times> 'r"
  pv_verifyReceipt :: "receipt \<Rightarrow> 'r \<Rightarrow> js_error + bool"
  pv_refund :: "(receipt \<Rightarrow> jsnum \<Rightarrow> str \<Rightarrow> 'r \<Rightarrow> (js_error + str) \<times> 'r) option"

section \<open>The registry\<close>

record 'r rail_registry =
  rg_providers :: "'r provider list"
  rg_routes :: "(rail_kind \<times> str) list"

definition registry_map :: "'r rail_registry \<Rightarrow> (str, 'r provider) omap" where
  "registry_map reg = fromEntries (map (\<lambda>p. (pv_id p, p)) (rg_providers reg))"

definition registry_byId :: "'r rail_registry \<Rightarrow> str \<Rightarrow> 'r provider option" where
  "registry_byId reg i = map_of (registry_map reg) i"

definition registry_get :: "'r rail_registry \<Rightarrow> rail_kind \<Rightarrow> 'r provider option" where
  "registry_get reg rail =
     (let ofKind = filter (\<lambda>p. pv_rail p = rail) (rg_providers reg);
          sole = (if length ofKind = 1 then Some (hd ofKind) else None)
      in case map_of (rg_routes reg) rail of
           Some routed \<Rightarrow>
             if routed \<noteq> [] \<and> map_of (registry_map reg) routed \<noteq> None
             then map_of (registry_map reg) routed else sole
         | None \<Rightarrow> sole)"

definition registry_ids :: "'r rail_registry \<Rightarrow> str list" where
  "registry_ids reg = map fst (registry_map reg)"

definition registry_rails :: "'r rail_registry \<Rightarrow> rail_kind list" where
  "registry_rails reg = js_set (map pv_rail (rg_providers reg))"

lemma registry_byId_SomeD:
  assumes "registry_byId reg i = Some p"
  shows "p \<in> set (rg_providers reg) \<and> pv_id p = i"
proof -
  from assms have "(i, p) \<in> set (rev (map (\<lambda>p. (pv_id p, p)) (rg_providers reg)))"
    unfolding registry_byId_def registry_map_def map_of_fromEntries by (rule map_of_SomeD)
  then show ?thesis by auto
qed

lemma registry_get_cases:
  assumes "registry_get reg rail = Some p"
  obtains (routed) i where "map_of (rg_routes reg) rail = Some i" "registry_byId reg i = Some p"
  | (sole) "filter (\<lambda>p. pv_rail p = rail) (rg_providers reg) = [p]"
proof (cases "filter (\<lambda>p. pv_rail p = rail) (rg_providers reg) = [p]")
  case False
  have "length xs = 1 \<and> xs \<noteq> [p] \<longrightarrow> hd xs \<noteq> p" for xs :: "'a provider list"
    by (cases xs) auto
  with False assms obtain i where "map_of (rg_routes reg) rail = Some i" "registry_byId reg i = Some p"
    by (auto simp: registry_get_def registry_byId_def Let_def split: option.splits if_splits)
  then show ?thesis by (rule routed)
qed (rule sole)

section \<open>The in-process rail\<close>

definition fake_prefix :: "rail_kind \<Rightarrow> str" where
  "fake_prefix rail = js ''fake:'' @ rail_text rail @ js '':''"

definition createFakeRail ::
  "(jsnum \<Rightarrow> str) \<Rightarrow> rail_kind \<Rightarrow> (payment_intent \<Rightarrow> bool) option \<Rightarrow> 'r provider" where
  "createFakeRail num rail failOn =
     \<lparr>pv_id = js ''fake-'' @ rail_text rail, pv_rail = rail, pv_reversibility = RAIL_REVERSIBILITY rail,
      pv_finality = Instant,
      pv_settle = (\<lambda>intent now r.
        (if (case failOn of Some f \<Rightarrow> f intent | None \<Rightarrow> False)
         then Inl (Thrown (js ''fake-rail('' @ rail_text rail @ js ''): settlement declined''))
         else Inr \<lparr>r_id = js ''rcpt_'' @ i_id intent, r_intentId = i_id intent, r_rail = rail,
                   r_amount = i_amount intent, r_currency = i_currency intent, r_settledAt = now,
                   r_providerRef = fake_prefix rail @ i_id intent,
                   r_finality = (if RAIL_REVERSIBILITY rail = Irreversible then Final else ReversibleFinality),
                   r_providerId = None\<rparr>, r)),
      pv_verifyReceipt = (\<lambda>receipt r.
        Inr (starts_with (r_providerRef receipt) (fake_prefix rail) \<and>
             r_id receipt = js ''rcpt_'' @ r_intentId receipt)),
      pv_refund = Some (\<lambda>receipt amountMinor now r.
        (Inr (fake_prefix rail @ js ''refund:'' @ r_intentId receipt @ js '':'' @ num amountMinor), r))\<rparr>"

section \<open>Network rails\<close>

record rail_settlement =
  rs_providerRef :: str
  rs_finality :: "settlement_finality option"

record 'r rail_client =
  cl_settle :: "payment_intent \<Rightarrow> 'r \<Rightarrow> (js_error + rail_settlement) \<times> 'r"
  cl_verifyReceipt :: "(receipt \<Rightarrow> 'r \<Rightarrow> js_error + bool) option"

record 'r network_rail_spec =
  ns_id :: str
  ns_rail :: rail_kind
  ns_reversibility :: reversibility
  ns_finality :: finality_mode
  ns_defaultFinality :: settlement_finality
  ns_client :: "'r rail_client option"

definition network_receipt_id :: "'r network_rail_spec \<Rightarrow> str \<Rightarrow> str" where
  "network_receipt_id spec i = js ''rcpt_'' @ ns_id spec @ js ''_'' @ i"

definition createNetworkRail :: "'r network_rail_spec \<Rightarrow> 'r provider" where
  "createNetworkRail spec =
     \<lparr>pv_id = ns_id spec, pv_rail = ns_rail spec, pv_reversibility = ns_reversibility spec,
      pv_finality = ns_finality spec,
      pv_settle = (\<lambda>intent now r.
        (case ns_client spec of
           None \<Rightarrow>
             (Inl (Thrown (ns_id spec @ js '' rail not configured: provide a RailClient with live credentials. Refusing to fabricate a settlement.'')), r)
         | Some client \<Rightarrow>
             (case cl_settle client intent r of
                (Inl e, r') \<Rightarrow> (Inl e, r')
              | (Inr settlement, r') \<Rightarrow>
                  (Inr \<lparr>r_id = network_receipt_id spec (i_id intent), r_intentId = i_id intent,
                        r_rail = ns_rail spec, r_amount = i_amount intent, r_currency = i_currency intent,
                        r_settledAt = now, r_providerRef = rs_providerRef settlement,
                        r_finality = nullish (rs_finality settlement) (ns_defaultFinality spec),
                        r_providerId = None\<rparr>, r')))),
      pv_verifyReceipt = (\<lambda>receipt r.
        (case (case ns_client spec of Some client \<Rightarrow> cl_verifyReceipt client | None \<Rightarrow> None) of
           Some verify \<Rightarrow> verify receipt r
         | None \<Rightarrow> Inr (r_id receipt = network_receipt_id spec (r_intentId receipt) \<and> r_providerRef receipt \<noteq> []))),
      pv_refund = None\<rparr>"

section \<open>The credential broker\<close>

text \<open>
  A brokered provider reads the secret that the broker attaches to the intent, so its settlement takes
  the intent and the optional secret.
\<close>

type_synonym vault = "(str, str) omap"

definition storeCredential :: "str \<Rightarrow> str \<Rightarrow> vault \<Rightarrow> vault" where
  "storeCredential key secret vault = AList.update key secret vault"

definition retrieveCredential :: "str \<Rightarrow> vault \<Rightarrow> js_error + str" where
  "retrieveCredential key vault =
     (case map_of vault key of
        Some val \<Rightarrow>
          if val = [] then Inl (Thrown (js ''CredentialBroker: credential '' @ [34] @ key @ [34] @ js '' is not registered or configured.''))
          else Inr val
      | None \<Rightarrow> Inl (Thrown (js ''CredentialBroker: credential '' @ [34] @ key @ [34] @ js '' is not registered or configured.'')))"

definition hasCredential :: "str \<Rightarrow> vault \<Rightarrow> bool" where
  "hasCredential key vault \<longleftrightarrow> map_of vault key \<noteq> None"

definition clearCredentials :: "vault \<Rightarrow> vault" where
  "clearCredentials vault = []"

definition brokerProvider ::
  "vault \<Rightarrow> 'r provider \<Rightarrow> (payment_intent \<Rightarrow> str option \<Rightarrow> str \<Rightarrow> 'r \<Rightarrow> (js_error + receipt) \<times> 'r) \<Rightarrow>
   str \<Rightarrow> 'r provider" where
  "brokerProvider vault inner settle_with credentialKey =
     inner\<lparr>pv_settle := (\<lambda>intent now r.
       (case retrieveCredential credentialKey vault of
          Inl e \<Rightarrow> (Inl e, r)
        | Inr secret \<Rightarrow> settle_with intent (Some secret) now r))\<rparr>"

section \<open>The governed wallet\<close>

record wallet_request =
  wr_wallet :: str
  wr_to :: str
  wr_amount :: jsnum
  wr_token :: "str option"
  wr_currency :: "str option"
  wr_network :: "str option"
  wr_rationale :: "str option"
  wr_payeeClass :: "str option"
  wr_payee :: "str option"
  wr_id :: "str option"

definition FALLBACK_RATIONALE :: str where
  "FALLBACK_RATIONALE = js ''agent wallet spend gated through AgentWorth before execution''"

definition cdpSpendToIntent ::
  "(jsnum \<Rightarrow> str) \<Rightarrow> wallet_request \<Rightarrow> str \<Rightarrow> str option \<Rightarrow> rail_kind option \<Rightarrow> js_error + payment_intent" where
  "cdpSpendToIntent num req now idOverride rail =
     (case or_else (wr_currency req) (wr_token req) of
        None \<Rightarrow> Inl (Thrown (js ''wallet spend is missing a token/currency''))
      | Some currency \<Rightarrow>
          if currency = [] then Inl (Thrown (js ''wallet spend is missing a token/currency''))
          else
            let payee = nullish (wr_payee req) (wr_to req)
            in Inr \<lparr>i_id = nullish (or_else (wr_id req) idOverride)
                             (js ''cdp_'' @ payee @ js ''_'' @ num (wr_amount req) @ js ''_'' @ now),
                    i_payee = payee,
                    i_payeeClass = nullish (or_else (wr_payeeClass req) (wr_network req)) (js ''wallet_spend''),
                    i_amount = wr_amount req, i_currency = currency,
                    i_rail = nullish rail Onchain,
                    i_rationale = nullish (wr_rationale req) FALLBACK_RATIONALE,
                    i_createdAt = now\<rparr>)"

record ('w) wallet_result =
  gw_decision :: gate_decision
  gw_intent :: payment_intent
  gw_executed :: bool
  gw_receipt :: "'w option"

definition wallet_spend ::
  "(jsnum \<Rightarrow> str) \<Rightarrow> (payment_intent \<Rightarrow> gate_context) \<Rightarrow>
   (wallet_request \<Rightarrow> payment_intent \<Rightarrow> 'r \<Rightarrow> (js_error + 'w) \<times> 'r) \<Rightarrow> rail_kind option \<Rightarrow>
   wallet_request \<Rightarrow> str \<Rightarrow> attestation option \<Rightarrow> 'r \<Rightarrow> (js_error + 'w wallet_result) \<times> 'r" where
  "wallet_spend num contextFor seam rail req now att r =
     (case cdpSpendToIntent num req now None rail of
        Inl e \<Rightarrow> (Inl e, r)
      | Inr intent \<Rightarrow>
          let ctx = contextFor intent
          in (case evaluateGate intent (ctx\<lparr>c_attestation := or_else att (c_attestation ctx)\<rparr>) of
                Inl e \<Rightarrow> (Inl e, r)
              | Inr decision \<Rightarrow>
                  if gd_outcome decision \<noteq> AutoExecute
                  then (Inr \<lparr>gw_decision = decision, gw_intent = intent, gw_executed = False, gw_receipt = None\<rparr>, r)
                  else (case seam req intent r of
                          (Inl e, r') \<Rightarrow> (Inl e, r')
                        | (Inr receipt, r') \<Rightarrow>
                            (Inr \<lparr>gw_decision = decision, gw_intent = intent, gw_executed = True,
                                  gw_receipt = Some receipt\<rparr>, r'))))"

section \<open>What a rail promises the executor\<close>

text \<open>
  A settlement's receipt is bound to its intent, and the rail recognises it afterwards, also with the
  provider id that the executor adds.
\<close>

locale honest_rail =
  fixes p :: "'r provider"
  assumes binds: "pv_settle p intent now r = (Inr rc, r') \<Longrightarrow>
      r_intentId rc = i_id intent \<and> r_amount rc = i_amount intent \<and>
      r_currency rc = i_currency intent \<and> r_settledAt rc = now"
    and verifies: "pv_settle p intent now r = (Inr rc, r') \<Longrightarrow>
      pv_verifyReceipt p (rc\<lparr>r_providerId := x\<rparr>) r'' = Inr True"
begin

lemma stamped_binds:
  "pv_settle p intent now r = (Inr rc, r') \<Longrightarrow>
     r_intentId (rc\<lparr>r_providerId := x\<rparr>) = i_id intent \<and> r_amount (rc\<lparr>r_providerId := x\<rparr>) = i_amount intent \<and>
     r_currency (rc\<lparr>r_providerId := x\<rparr>) = i_currency intent \<and> r_settledAt (rc\<lparr>r_providerId := x\<rparr>) = now"
  using binds by simp

end

interpretation fake: honest_rail "createFakeRail num rail failOn" for num rail failOn
  by unfold_locales (auto simp: createFakeRail_def split: if_splits)

text \<open>A network rail keeps the promise when its client names every settlement and does not verify itself.\<close>

definition naming_client :: "'r rail_client \<Rightarrow> bool" where
  "naming_client client \<longleftrightarrow>
     cl_verifyReceipt client = None \<and>
     (\<forall>intent r st r'. cl_settle client intent r = (Inr st, r') \<longrightarrow> rs_providerRef st \<noteq> [])"

lemma network_honest:
  assumes "ns_client spec = Some client" "naming_client client"
  shows "honest_rail (createNetworkRail spec)"
proof
  have ref: "rs_providerRef st \<noteq> []" if "cl_settle client intent r = (Inr st, r')" for intent r st r'
    using assms(2) that unfolding naming_client_def by blast
  fix intent now r rc r' x r''
  assume settle: "pv_settle (createNetworkRail spec) intent now r = (Inr rc, r')"
  then obtain st where "cl_settle client intent r = (Inr st, r')"
    by (auto simp: createNetworkRail_def assms(1) split: prod.splits sum.splits)
  with ref settle assms show "pv_verifyReceipt (createNetworkRail spec) (rc\<lparr>r_providerId := x\<rparr>) r'' = Inr True"
    by (auto simp: createNetworkRail_def naming_client_def)
  from \<open>cl_settle client intent r = (Inr st, r')\<close> settle
  show "r_intentId rc = i_id intent \<and> r_amount rc = i_amount intent \<and>
      r_currency rc = i_currency intent \<and> r_settledAt rc = now"
    by (auto simp: createNetworkRail_def assms(1))
qed

section \<open>Properties\<close>

text \<open>
  Fact: routing is never a guess. A kind of rail resolves to a provider only if the operator's
  route names a registered provider or if exactly one provider of that kind is registered; with several
  and no usable route it resolves to nothing.
\<close>

theorem registry_get_deterministic:
  assumes "registry_get reg rail = Some p"
  shows "p \<in> set (rg_providers reg) \<and>
    (map_of (rg_routes reg) rail = Some (pv_id p) \<or> filter (\<lambda>q. pv_rail q = rail) (rg_providers reg) = [p])"
  using assms
proof (cases rule: registry_get_cases)
  case (routed i)
  with registry_byId_SomeD [OF routed(2)] show ?thesis by auto
next
  case sole
  from sole have "set (filter (\<lambda>q. pv_rail q = rail) (rg_providers reg)) = {p}" by (simp only: list.set)
  then have "p \<in> set (rg_providers reg)" by auto
  with sole show ?thesis by simp
qed

text \<open>A provider that stands for the in-process card rail in the examples.\<close>

definition card_rail :: "unit provider" where
  "card_rail = createFakeRail (\<lambda>_. []) Card None"

theorem registry_get_deterministic_witness:
  "card_rail \<in> set [card_rail] \<and>
    (map_of [] Card = Some (pv_id card_rail) \<or> filter (\<lambda>q. pv_rail q = Card) [card_rail] = [card_rail])"
  using registry_get_deterministic [of "\<lparr>rg_providers = [card_rail], rg_routes = []\<rparr>" Card card_rail]
  by (simp add: registry_get_def card_rail_def createFakeRail_def)

text \<open>
  Fact: an unconfigured network rail fails closed: without a client its settlement throws for
  every intent, and nothing in the world changes.
\<close>

theorem network_rail_fails_closed:
  assumes "ns_client spec = None"
  shows "\<exists>msg. pv_settle (createNetworkRail spec) intent now r = (Inl (Thrown msg), r)"
  using assms by (simp add: createNetworkRail_def)

theorem network_rail_fails_closed_witness:
  "\<exists>msg. pv_settle (createNetworkRail \<lparr>ns_id = js ''x402'', ns_rail = Onchain,
      ns_reversibility = Irreversible, ns_finality = Instant, ns_defaultFinality = Final,
      ns_client = None\<rparr>) gate_example_intent (js ''now'') 0 = (Inl (Thrown msg), 0 :: nat)"
  by (rule network_rail_fails_closed) simp

text \<open>
  Fact: a network rail whose client names its settlements issues receipts for the intent, its
  amount and its currency, and verifies each of them, also after the executor has stamped it.
\<close>

theorem network_receipts_verify:
  assumes "ns_client spec = Some client" "naming_client client"
    and "pv_settle (createNetworkRail spec) intent now r = (Inr rc, r')"
  shows "pv_verifyReceipt (createNetworkRail spec) (rc\<lparr>r_providerId := x\<rparr>) r'' = Inr True \<and>
    r_intentId rc = i_id intent \<and> r_amount rc = i_amount intent \<and> r_currency rc = i_currency intent"
  using honest_rail.binds [OF network_honest [OF assms(1,2)] assms(3)]
    honest_rail.verifies [OF network_honest [OF assms(1,2)] assms(3)] by simp

definition example_client :: "nat rail_client" where
  "example_client =
     \<lparr>cl_settle = (\<lambda>i n. (Inr \<lparr>rs_providerRef = js ''tx_'' @ show_nat n, rs_finality = None\<rparr>, n + 1)),
      cl_verifyReceipt = None\<rparr>"

definition example_spec :: "nat network_rail_spec" where
  "example_spec =
     \<lparr>ns_id = js ''x402'', ns_rail = Onchain, ns_reversibility = Irreversible, ns_finality = Instant,
      ns_defaultFinality = Final, ns_client = Some example_client\<rparr>"

theorem network_receipts_verify_witness:
  "\<exists>rc. pv_settle (createNetworkRail example_spec) gate_example_intent [] 0 = (Inr rc, 1) \<and>
     pv_verifyReceipt (createNetworkRail example_spec) (rc\<lparr>r_providerId := Some (js ''x402'')\<rparr>) 5 = Inr True"
proof -
  have "naming_client example_client" by (simp add: naming_client_def example_client_def)
  moreover obtain rc where rc: "pv_settle (createNetworkRail example_spec) gate_example_intent [] 0 = (Inr rc, 1)"
    by (simp add: createNetworkRail_def example_spec_def example_client_def)
  ultimately have "pv_verifyReceipt (createNetworkRail example_spec) (rc\<lparr>r_providerId := Some (js ''x402'')\<rparr>) 5 =
      Inr True"
    using network_receipts_verify [of example_spec example_client gate_example_intent "[]" 0 rc 1]
    by (simp add: example_spec_def)
  with rc show ?thesis by blast
qed

text \<open>
  Fact: the governed wallet runs the wallet's own spend only on auto_execute: if the seam was
  reached, so that the world may have changed, the gate auto-executed this very intent; otherwise the
  world is as before and no receipt is given.
\<close>

theorem governed_wallet_gated:
  assumes "wallet_spend num contextFor seam rail req now att r = (res, r')"
  shows "(r' = r \<and> (\<forall>w. res = Inr w \<longrightarrow> \<not> gw_executed w \<and> gw_receipt w = None)) \<or>
    (\<exists>intent d m sp ws. cdpSpendToIntent num req now None rail = Inr intent \<and>
       may_auto intent ((contextFor intent)\<lparr>c_attestation := or_else att (c_attestation (contextFor intent))\<rparr>) m sp ws \<and>
       m \<in> set (c_mandates (contextFor intent)) \<and> snd (seam req intent r) = r' \<and>
       (\<forall>w. res = Inr w \<longrightarrow> gw_executed w \<and> gd_outcome (gw_decision w) = AutoExecute \<and> gd_mandateId (gw_decision w) = Some (m_id m)))"
proof (cases "cdpSpendToIntent num req now None rail")
  case (Inl e)
  with assms show ?thesis by (auto simp: wallet_spend_def)
next
  case (Inr intent)
  let ?ctx = "(contextFor intent)\<lparr>c_attestation := or_else att (c_attestation (contextFor intent))\<rparr>"
  show ?thesis
  proof (cases "evaluateGate intent ?ctx")
    case (Inl e)
    with Inr assms show ?thesis by (auto simp: wallet_spend_def Let_def)
  next
    case gate: (Inr d)
    show ?thesis
    proof (cases "gd_outcome d = AutoExecute")
      case True
      from gate_auto_sound [OF gate True] obtain m sp ws where m: "m \<in> set (c_mandates (contextFor intent))"
        "gd_mandateId d = Some (m_id m)" "may_auto intent ?ctx m sp ws" by auto
      have "snd (seam req intent r) = r'"
        "\<forall>w. res = Inr w \<longrightarrow> gw_executed w \<and> gd_outcome (gw_decision w) = AutoExecute \<and>
          gd_mandateId (gw_decision w) = Some (m_id m)"
        using assms Inr gate True m(2)
        by (auto simp: wallet_spend_def Let_def split: prod.splits sum.splits)
      with Inr m show ?thesis by blast
    next
      case False
      with assms Inr gate show ?thesis by (auto simp: wallet_spend_def Let_def)
    qed
  qed
qed

definition example_request :: wallet_request where
  "example_request =
     \<lparr>wr_wallet = js ''0xabc'', wr_to = js ''acme'', wr_amount = 2500, wr_token = None,
      wr_currency = Some (js ''USD''), wr_network = Some (js ''saas''),
      wr_rationale = Some (js ''x402 paywall: monthly plan on base (exact)''), wr_payeeClass = None, wr_payee = None,
      wr_id = Some (js ''pi_1'')\<rparr>"

definition count_seam :: "wallet_request \<Rightarrow> payment_intent \<Rightarrow> nat \<Rightarrow> (js_error + str) \<times> nat" where
  "count_seam req intent n = (Inr (i_id intent), Suc n)"

theorem governed_wallet_gated_witness:
  "\<exists>w. wallet_spend (\<lambda>_. []) (\<lambda>_. gate_example_context) count_seam (Some Card) example_request
     (iso_text 1700000000000) None 0 = (Inr w, 1) \<and> gw_executed w \<and> gd_outcome (gw_decision w) = AutoExecute"
proof -
  have intent: "cdpSpendToIntent (\<lambda>_. []) example_request (iso_text 1700000000000) None (Some Card) =
      Inr gate_example_intent"
    by (simp add: cdpSpendToIntent_def example_request_def gate_example_intent_def Let_def)
  have "gate_example_context\<lparr>c_attestation := or_else None (c_attestation gate_example_context)\<rparr> =
      gate_example_context"
    by (simp add: gate_example_context_def)
  with intent gate_example_auto obtain w where
    w: "wallet_spend (\<lambda>_. []) (\<lambda>_. gate_example_context) count_seam (Some Card) example_request
      (iso_text 1700000000000) None 0 = (Inr w, 1)"
    by (auto simp: wallet_spend_def count_seam_def)
  with governed_wallet_gated [OF w] show ?thesis by auto
qed

text \<open>
  Fact: a missing or empty credential fails closed: the brokered settlement throws and the
  provider behind the broker is not reached.
\<close>

theorem broker_fails_closed:
  assumes "map_of vault key \<in> {None, Some []}"
  shows "\<exists>msg. pv_settle (brokerProvider vault inner settle_with key) intent now r = (Inl (Thrown msg), r)"
  using assms by (auto simp: brokerProvider_def retrieveCredential_def split: sum.split)

theorem broker_fails_closed_witness:
  "\<exists>msg. pv_settle (brokerProvider (storeCredential (js ''visa'') (js ''sk_1'') []) card_rail
      (\<lambda>i secret now r. pv_settle card_rail i now r) (js ''stripe'')) gate_example_intent (js ''now'') () =
    (Inl (Thrown msg), ())"
  by (rule broker_fails_closed) (simp add: storeCredential_def)

end
