(* ===== verification/Risk_Chain.thy ===== *)
theory Risk_Chain
  imports Audit_Log
begin

text \<open>
  The multi-step spend detector of \<open>src/core/riskChain.ts\<close>, over the entries of the audit log. Times
  are numbers of milliseconds, None for an unreadable date (NaN in the source, where every comparison
  with it is false). An alert is its type and its reason; None is the answer that nothing triggered.

  The lemmas say when each alert triggers, that the detector looks at the window of recent decisions
  only, and that the entries added later never clear an alert.
\<close>

record chain_opts =
  co_isStreaming :: bool
  co_windowMinutes :: "jsnum option"
  co_now :: "str option"
  co_drainFraction :: "jsnum option"
  co_drainAfterGrantMinutes :: "jsnum option"

section \<open>The window of recent decisions\<close>

definition time_of :: "str \<Rightarrow> jsnum option" where
  "time_of ts = map_option of_int (date_parse ts)"

definition window_minutes :: "chain_opts \<Rightarrow> jsnum" where
  "window_minutes opts = nullish (co_windowMinutes opts) 15"

definition start_ms :: "payment_intent \<Rightarrow> chain_opts \<Rightarrow> jsnum option" where
  "start_ms intent opts =
     map_option (\<lambda>now. now - window_minutes opts * 60 * 1000)
       (time_of (nullish (co_now opts) (i_createdAt intent)))"

definition not_before :: "jsnum option \<Rightarrow> jsnum option \<Rightarrow> bool" where
  "not_before t start \<longleftrightarrow> (case (t, start) of (Some a, Some b) \<Rightarrow> a \<ge> b | _ \<Rightarrow> False)"

definition before :: "jsnum option \<Rightarrow> jsnum option \<Rightarrow> bool" where
  "before t start \<longleftrightarrow> (case (t, start) of (Some a, Some b) \<Rightarrow> a < b | _ \<Rightarrow> False)"

text \<open>A decision payload that carries its intent.\<close>

definition decision_of :: "audit_entry \<Rightarrow> (payment_intent \<times> decision_payload) option" where
  "decision_of e =
     (case ae_payload e of
        GateDecisionP p \<Rightarrow> map_option (\<lambda>i. (i, p)) (dp_intent p)
      | _ \<Rightarrow> None)"

definition recent_decisions ::
  "payment_intent \<Rightarrow> chain_opts \<Rightarrow> audit_entry list \<Rightarrow> (payment_intent \<times> decision_payload) list" where
  "recent_decisions intent opts entries =
     List.map_filter decision_of
       (filter (\<lambda>e. ae_type e = GateDecisionEvent \<and> not_before (time_of (ae_ts e)) (start_ms intent opts)) entries)"

section \<open>The four detectors\<close>

definition same_payee_auto ::
  "payment_intent \<Rightarrow> (payment_intent \<times> decision_payload) list \<Rightarrow> (payment_intent \<times> decision_payload) list" where
  "same_payee_auto intent ds =
     filter (\<lambda>(i, p). i_payee i = i_payee intent \<and> dp_outcome p = AutoExecute) ds"

definition total_amount :: "payment_intent \<Rightarrow> (payment_intent \<times> decision_payload) list \<Rightarrow> jsnum" where
  "total_amount intent ds = sum_list (map (\<lambda>(i, p). i_amount i) ds) + i_amount intent"

type_synonym alert = "(chain_type \<times> chain_reason) option"

definition smurfing :: "payment_intent \<Rightarrow> chain_opts \<Rightarrow> (payment_intent \<times> decision_payload) list \<Rightarrow> alert" where
  "smurfing intent opts recent =
     (let same = same_payee_auto intent recent
      in if \<not> co_isStreaming opts \<and> length same \<ge> 3
         then Some (Smurfing, SmurfingReason (length same + 1) (i_payee intent) (window_minutes opts)
                (total_amount intent same))
         else None)"

definition splitting :: "payment_intent \<Rightarrow> chain_opts \<Rightarrow> (payment_intent \<times> decision_payload) list \<Rightarrow> alert" where
  "splitting intent opts recent =
     (let same = same_payee_auto intent recent;
          rails = set (map (\<lambda>(i, p). i_rail i) same) \<union> {i_rail intent}
      in if \<not> co_isStreaming opts \<and> length same \<ge> 2 \<and> card rails \<ge> 2
         then Some (Splitting, SplittingReason (i_payee intent) (card rails) (window_minutes opts)
                (total_amount intent same))
         else None)"

definition probing :: "payment_intent \<Rightarrow> chain_opts \<Rightarrow> (payment_intent \<times> decision_payload) list \<Rightarrow> alert" where
  "probing intent opts recent =
     (let nonAllowed = filter (\<lambda>(i, p). dp_outcome p = Block \<or> dp_outcome p = ConfirmOperator) recent;
          payees = set (map (\<lambda>(i, p). i_payee i) nonAllowed) \<union> {i_payee intent}
      in if length nonAllowed \<ge> 4 \<and> card payees \<ge> 2
         then Some (Probing, ProbingReason (length nonAllowed) (card payees) (window_minutes opts))
         else None)"

definition drain_fraction :: "chain_opts \<Rightarrow> jsnum" where
  "drain_fraction opts = nullish (co_drainFraction opts) (8 / 10)"

definition drain_after_grant_ms :: "chain_opts \<Rightarrow> jsnum" where
  "drain_after_grant_ms opts = nullish (co_drainAfterGrantMinutes opts) 60 * 60 * 1000"

fun latestGrantTsBefore :: "audit_entry list \<Rightarrow> str \<Rightarrow> jsnum \<Rightarrow> jsnum option \<Rightarrow> jsnum option" where
  "latestGrantTsBefore [] mandateId beforeMs latest = latest"
| "latestGrantTsBefore (e # es) mandateId beforeMs latest =
     latestGrantTsBefore es mandateId beforeMs
       (case (ae_type e, ae_payload e, time_of (ae_ts e)) of
          (MandateGranted, MandateGrantedP i label, Some t) \<Rightarrow>
            if i = mandateId \<and> t \<le> beforeMs \<and> (case latest of None \<Rightarrow> True | Some l \<Rightarrow> t > l)
            then Some t else latest
        | _ \<Rightarrow> latest)"

definition drain_at ::
  "payment_intent \<Rightarrow> chain_opts \<Rightarrow> audit_entry list \<Rightarrow> audit_entry \<Rightarrow> alert" where
  "drain_at intent opts entries e =
     (if ae_type e \<noteq> GateDecisionEvent then None
      else if before (time_of (ae_ts e)) (start_ms intent opts) then None
      else case decision_of e of
        None \<Rightarrow> None
      | Some (i, p) \<Rightarrow>
          (case (dp_mandateId p, dp_verdict p) of
             (Some mandateId, Some verdict) \<Rightarrow>
               if mandateId = [] then None
               else (case (gd_remaining verdict, time_of (ae_ts e)) of
                  (Some remaining, Some tMs) \<Rightarrow>
                    let budgetBefore = i_amount i + remaining;
                        fraction = i_amount i / budgetBefore
                    in if budgetBefore \<le> 0 \<or> fraction < drain_fraction opts then None
                       else (case latestGrantTsBefore entries mandateId tMs None of
                          None \<Rightarrow> None
                        | Some grantTs \<Rightarrow>
                            if tMs - grantTs > drain_after_grant_ms opts then None
                            else Some (DrainAfterGrant, DrainReason (i_amount i)
                                   (math_round (fraction * 100)) mandateId
                                   (math_round ((tMs - grantTs) / 60000))))
                | _ \<Rightarrow> None)
           | _ \<Rightarrow> None))"

fun first_alert :: "('a \<Rightarrow> 'b option) \<Rightarrow> 'a list \<Rightarrow> 'b option" where
  "first_alert f [] = None"
| "first_alert f (x # xs) = (case f x of Some y \<Rightarrow> Some y | None \<Rightarrow> first_alert f xs)"

definition evaluateRiskChain :: "payment_intent \<Rightarrow> audit_entry list \<Rightarrow> chain_opts \<Rightarrow> alert" where
  "evaluateRiskChain intent entries opts =
     (let recent = recent_decisions intent opts entries
      in case smurfing intent opts recent of Some a \<Rightarrow> Some a | None \<Rightarrow>
         (case splitting intent opts recent of Some a \<Rightarrow> Some a | None \<Rightarrow>
         (case probing intent opts recent of Some a \<Rightarrow> Some a | None \<Rightarrow>
            first_alert (drain_at intent opts entries) entries)))"

section \<open>When an alert triggers\<close>

lemma first_alert_None_iff: "first_alert f xs = None \<longleftrightarrow> (\<forall>x \<in> set xs. f x = None)"
  by (induction xs) (auto split: option.splits)

lemma evaluateRiskChain_None_iff:
  "evaluateRiskChain intent entries opts = None \<longleftrightarrow>
     smurfing intent opts (recent_decisions intent opts entries) = None \<and>
     splitting intent opts (recent_decisions intent opts entries) = None \<and>
     probing intent opts (recent_decisions intent opts entries) = None \<and>
     (\<forall>e \<in> set entries. drain_at intent opts entries e = None)"
  by (auto simp: evaluateRiskChain_def Let_def first_alert_None_iff split: option.splits)

lemma map_filter_append: "List.map_filter f (xs @ ys) = List.map_filter f xs @ List.map_filter f ys"
  by (simp add: List.map_filter_def)

lemma recent_decisions_append:
  "recent_decisions intent opts (es @ es') = recent_decisions intent opts es @ recent_decisions intent opts es'"
  by (simp add: recent_decisions_def map_filter_append)

lemma smurfing_append: "smurfing intent opts (xs @ ys) = None \<Longrightarrow> smurfing intent opts xs = None"
  by (auto simp: smurfing_def same_payee_auto_def Let_def split: if_splits)

lemma card_grow: "finite T \<Longrightarrow> S \<subseteq> T \<Longrightarrow> k \<le> card S \<Longrightarrow> k \<le> card T"
  using card_mono le_trans by blast

lemma splitting_append:
  assumes "splitting intent opts (xs @ ys) = None"
  shows "splitting intent opts xs = None"
proof (rule ccontr)
  let ?rails = "\<lambda>ds. set (map (\<lambda>(i, p). i_rail i) (same_payee_auto intent ds)) \<union> {i_rail intent}"
  assume some: "splitting intent opts xs \<noteq> None"
  then have c: "2 \<le> card (?rails xs)" "\<not> co_isStreaming opts" "length (same_payee_auto intent xs) \<ge> 2"
    by (auto simp: splitting_def Let_def split: if_splits)
  have "2 \<le> card (?rails (xs @ ys))"
    by (rule card_grow [OF _ _ c(1)]) (auto simp: same_payee_auto_def)
  moreover have "length (same_payee_auto intent (xs @ ys)) \<ge> 2"
    using c(3) by (simp add: same_payee_auto_def)
  ultimately show False
    using assms c(2) unfolding splitting_def Let_def by (metis option.distinct(1))
qed

lemma probing_append:
  assumes "probing intent opts (xs @ ys) = None"
  shows "probing intent opts xs = None"
proof (rule ccontr)
  let ?no = "filter (\<lambda>(i, p). dp_outcome p = Block \<or> dp_outcome p = ConfirmOperator)"
  let ?payees = "\<lambda>ds. set (map (\<lambda>(i, p). i_payee i) (?no ds)) \<union> {i_payee intent}"
  assume some: "probing intent opts xs \<noteq> None"
  then have c: "2 \<le> card (?payees xs)" "length (?no xs) \<ge> 4"
    by (auto simp: probing_def Let_def split: if_splits)
  have "2 \<le> card (?payees (xs @ ys))"
    by (rule card_grow [OF _ _ c(1)]) auto
  moreover have "length (?no (xs @ ys)) \<ge> 4" using c(2) by simp
  ultimately show False
    using assms unfolding probing_def Let_def by (metis option.distinct(1))
qed

text \<open>Later entries can only move the latest grant closer to the payment.\<close>

lemma latestGrant_append:
  "latestGrantTsBefore (es @ es') i b l = latestGrantTsBefore es' i b (latestGrantTsBefore es i b l)"
  by (induction es arbitrary: l) simp_all

lemma latestGrant_ge:
  "l = Some g \<Longrightarrow> \<exists>g'. latestGrantTsBefore es i b l = Some g' \<and> g \<le> g'"
proof (induction es arbitrary: l g)
  case (Cons e es)
  let ?l = "case (ae_type e, ae_payload e, time_of (ae_ts e)) of
          (MandateGranted, MandateGrantedP j label, Some t) \<Rightarrow>
            if j = i \<and> t \<le> b \<and> (case l of None \<Rightarrow> True | Some l \<Rightarrow> t > l) then Some t else l
        | _ \<Rightarrow> l"
  have "\<exists>g1. ?l = Some g1 \<and> g \<le> g1"
    using Cons.prems by (auto split: event_type.splits payload.splits option.splits)
  then obtain g1 where g1: "?l = Some g1" "g \<le> g1" by blast
  from Cons.IH [OF g1(1)] g1(2) show ?case by auto
qed simp

lemma latestGrant_later:
  "latestGrantTsBefore es i b None = Some g \<Longrightarrow>
     \<exists>g'. latestGrantTsBefore (es @ es') i b None = Some g' \<and> g \<le> g'"
  by (simp add: latestGrant_append latestGrant_ge)

lemma drain_append: "drain_at intent opts (es @ es') e = None \<Longrightarrow> drain_at intent opts es e = None"
proof (rule ccontr)
  assume none: "drain_at intent opts (es @ es') e = None" and some: "drain_at intent opts es e \<noteq> None"
  from some obtain i p m v r t g where e: "ae_type e = GateDecisionEvent"
    "\<not> before (time_of (ae_ts e)) (start_ms intent opts)" "decision_of e = Some (i, p)"
    "dp_mandateId p = Some m" "m \<noteq> []" "dp_verdict p = Some v" "gd_remaining v = Some r"
    "time_of (ae_ts e) = Some t" "\<not> i_amount i + r \<le> 0" "\<not> i_amount i / (i_amount i + r) < drain_fraction opts"
    "latestGrantTsBefore es m t None = Some g" "\<not> t - g > drain_after_grant_ms opts"
    by (auto simp: drain_at_def Let_def split: if_splits option.splits prod.splits)
  from latestGrant_later [OF e(11), of es'] obtain g' where
    "latestGrantTsBefore (es @ es') m t None = Some g'" "g \<le> g'" by blast
  with none e show False by (simp add: drain_at_def Let_def split: if_splits)
qed

section \<open>A concrete log\<close>

definition chain_intent :: payment_intent where
  "chain_intent =
     \<lparr>i_id = js ''pi_4'', i_payee = js ''acme'', i_payeeClass = js ''saas'', i_amount = 250,
      i_currency = js ''USD'', i_rail = Card, i_rationale = js ''monthly plan'', i_createdAt = []\<rparr>"

definition chain_decision :: "gate_outcome \<Rightarrow> str \<Rightarrow> decision_payload" where
  "chain_decision out payee =
     \<lparr>dp_intentId = js ''pi_1'', dp_phase = PhaseAgent, dp_outcome = out, dp_reasons = [],
      dp_mandateId = None, dp_riskTier = None, dp_verdict = None, dp_ctxDigest = None,
      dp_intent = Some (chain_intent\<lparr>i_payee := payee\<rparr>), dp_inputs = None, dp_operatorRationale = None,
      dp_acknowledged = None, dp_policyHash = None\<rparr>"

definition chain_entry :: "gate_outcome \<Rightarrow> str \<Rightarrow> audit_entry" where
  "chain_entry out payee =
     \<lparr>ae_seq = 0, ae_ts = iso_text 1700000000000, ae_type = GateDecisionEvent,
      ae_payload = GateDecisionP (chain_decision out payee), ae_prevHash = [], ae_hash = [], ae_sig = [],
      ae_keyVersion = None\<rparr>"

definition chain_opts_at :: "bool \<Rightarrow> chain_opts" where
  "chain_opts_at streaming =
     \<lparr>co_isStreaming = streaming, co_windowMinutes = None, co_now = Some (iso_text 1700000000000),
      co_drainFraction = None, co_drainAfterGrantMinutes = None\<rparr>"

lemma chain_example_time: "time_of (iso_text 1700000000000) = Some 1700000000000"
  by (simp add: time_of_def date_parse_iso_text iso_range_def)

lemmas chain_example_simps = chain_entry_def chain_decision_def chain_opts_at_def chain_example_time
  recent_decisions_def start_ms_def not_before_def before_def window_minutes_def decision_of_def
  List.map_filter_simps same_payee_auto_def total_amount_def

section \<open>Properties\<close>

text \<open>
  Fact: an alert is never cleared by what is recorded afterwards: at the same clock reading, if
  the detector triggers on a log it triggers on every extension of the log.
\<close>

theorem risk_chain_alert_persists:
  assumes "evaluateRiskChain intent entries opts \<noteq> None"
  shows "evaluateRiskChain intent (entries @ later) opts \<noteq> None"
proof
  assume "evaluateRiskChain intent (entries @ later) opts = None"
  then have "evaluateRiskChain intent entries opts = None"
    unfolding evaluateRiskChain_None_iff recent_decisions_append
    using smurfing_append splitting_append probing_append drain_append by (metis UnI1 set_append)
  with assms show False ..
qed

theorem risk_chain_alert_persists_witness:
  "evaluateRiskChain chain_intent
     (replicate 3 (chain_entry AutoExecute (js ''acme'')) @ [chain_entry Block (js ''bolt'')])
     (chain_opts_at False) \<noteq> None"
  by (rule risk_chain_alert_persists)
     (simp add: evaluateRiskChain_def smurfing_def chain_intent_def numeral_3_eq_3 chain_example_simps)

text \<open>
  Fact: the window is anchored on the trusted clock: when the caller passes its clock, the
  creation time that the agent wrote into the intent has no influence on the alert.
\<close>

theorem risk_chain_ignores_createdAt:
  "evaluateRiskChain (intent\<lparr>i_createdAt := t\<rparr>) entries (opts\<lparr>co_now := Some now\<rparr>) =
     evaluateRiskChain intent entries (opts\<lparr>co_now := Some now\<rparr>)"
proof -
  have start: "start_ms (intent\<lparr>i_createdAt := t\<rparr>) (opts\<lparr>co_now := Some now\<rparr>) =
      start_ms intent (opts\<lparr>co_now := Some now\<rparr>)"
    by (simp add: start_ms_def)
  have "drain_at (intent\<lparr>i_createdAt := t\<rparr>) (opts\<lparr>co_now := Some now\<rparr>) entries =
      drain_at intent (opts\<lparr>co_now := Some now\<rparr>) entries"
    by (simp add: fun_eq_iff drain_at_def start)
  then show ?thesis
    by (simp add: evaluateRiskChain_def recent_decisions_def start smurfing_def splitting_def probing_def
        same_payee_auto_def total_amount_def Let_def)
qed



text \<open>
  Fact: a streaming mandate is exempt from the two count-based detectors and from nothing else:
  its alerts are those of probing and of draining, and the detector without the exemption raises one
  of those whenever the exempted one does.
\<close>

theorem risk_chain_streaming_exemption:
  assumes "evaluateRiskChain intent entries (opts\<lparr>co_isStreaming := True\<rparr>) = Some (ty, why)"
  shows "ty \<in> {Probing, DrainAfterGrant} \<and>
     (\<exists>ty' why'. evaluateRiskChain intent entries (opts\<lparr>co_isStreaming := b\<rparr>) = Some (ty', why'))"
proof
  let ?s = "opts\<lparr>co_isStreaming := True\<rparr>" and ?n = "opts\<lparr>co_isStreaming := b\<rparr>"
  have dr: "drain_at intent o' es e = Some (ty, why) \<Longrightarrow> ty = DrainAfterGrant" for o' es e
    by (auto simp: drain_at_def Let_def split: if_splits option.splits prod.splits)
  have fa: "first_alert f xs = Some y \<Longrightarrow> \<exists>x. f x = Some y" for f :: "audit_entry \<Rightarrow> alert" and xs y
    by (induction xs) (auto split: option.splits)
  show "ty \<in> {Probing, DrainAfterGrant}"
    using assms dr fa
    by (fastforce simp: evaluateRiskChain_def smurfing_def splitting_def probing_def Let_def
        split: if_splits option.splits)
  have same: "start_ms intent ?n = start_ms intent ?s" "window_minutes ?n = window_minutes ?s"
    "drain_fraction ?n = drain_fraction ?s" "drain_after_grant_ms ?n = drain_after_grant_ms ?s"
    by (simp_all add: start_ms_def window_minutes_def drain_fraction_def drain_after_grant_ms_def)
  have "recent_decisions intent ?n entries = recent_decisions intent ?s entries"
    "probing intent ?n = probing intent ?s" "drain_at intent ?n = drain_at intent ?s"
    unfolding recent_decisions_def probing_def drain_at_def same fun_eq_iff by simp_all
  moreover have "smurfing intent ?s ds = None" "splitting intent ?s ds = None" for ds
    by (simp_all add: smurfing_def splitting_def Let_def)
  moreover have "evaluateRiskChain intent entries ?s \<noteq> None" using assms by simp
  ultimately have "evaluateRiskChain intent entries ?n \<noteq> None"
    unfolding evaluateRiskChain_None_iff by simp
  then show "\<exists>ty' why'. evaluateRiskChain intent entries ?n = Some (ty', why')" by auto
qed

theorem risk_chain_streaming_exemption_witness:
  "Probing \<in> {Probing, DrainAfterGrant} \<and>
     (\<exists>ty' why'. evaluateRiskChain chain_intent (replicate 4 (chain_entry Block (js ''bolt'')))
        ((chain_opts_at True)\<lparr>co_isStreaming := False\<rparr>) = Some (ty', why'))"
proof (rule risk_chain_streaming_exemption [where why = "ProbingReason 4 2 15"])
  have four: "replicate 4 e = [e, e, e, e]" for e :: audit_entry
    by (simp add: eval_nat_numeral)
  show "evaluateRiskChain chain_intent (replicate 4 (chain_entry Block (js ''bolt'')))
      ((chain_opts_at True)\<lparr>co_isStreaming := True\<rparr>) = Some (Probing, ProbingReason 4 2 15)"
    unfolding four
    by (simp add: evaluateRiskChain_def smurfing_def splitting_def probing_def chain_intent_def
        chain_example_simps card_insert_if Let_def del: set_filter)
qed

end
