(* ===== verification/Fx.thy ===== *)
theory Fx
  imports Core_Types
begin

text \<open>
  Currency conversion, \<open>src/core/fx.ts\<close>: the injected rate source, the same-scale conversion and
  the cross-decimal conversion that the executor hands to the gate. Rates and products are exact
  rationals. The optional \<open>dinero.js\<close> package is not in the repository: its factory is an argument
  of \<open>convertMinorCrossDecimalDinero\<close>, absent (None) or the function from an amount and an integer
  multiplier to the product.

  The lemmas: conversion is monotone, gives integers, is the identity at rate 1 between equal
  scales, and equals the same-scale conversion there; the package's path agrees with it exactly
  when the scaled rate fits the nine decimals it keeps.
\<close>

section \<open>Rate sources\<close>

type_synonym fx_rate_source = "str \<Rightarrow> str \<Rightarrow> jsnum option"

definition fx_key :: "str \<Rightarrow> str \<Rightarrow> str" where
  "fx_key from_cur to_cur = from_cur @ js ''/'' @ to_cur"

definition fixedRateSource :: "(str \<times> jsnum) list \<Rightarrow> fx_rate_source" where
  "fixedRateSource rates from_cur to_cur =
     (if from_cur = to_cur then Some 1 else map_of rates (fx_key from_cur to_cur))"

definition convertMinor :: "jsnum \<Rightarrow> jsnum \<Rightarrow> jsnum" where
  "convertMinor amountMinor rate = math_round (amountMinor * rate)"

section \<open>Minor-unit exponents\<close>

text \<open>\<open>toUpperCase\<close> on the ASCII letters; currency codes and token symbols use no others.\<close>

definition to_upper_char :: "nat \<Rightarrow> nat" where
  "to_upper_char c = (if 97 \<le> c \<and> c \<le> 122 then c - 32 else c)"

definition MINOR_UNIT_EXPONENT :: "(str \<times> nat) list" where
  "MINOR_UNIT_EXPONENT =
     [(js ''JPY'', 0), (js ''KRW'', 0), (js ''CLP'', 0), (js ''ISK'', 0), (js ''VND'', 0),
      (js ''XOF'', 0), (js ''XAF'', 0), (js ''XPF'', 0), (js ''BHD'', 3), (js ''KWD'', 3),
      (js ''OMR'', 3), (js ''TND'', 3), (js ''JOD'', 3), (js ''IQD'', 3), (js ''LYD'', 3)]"

type_synonym token_decimals = "(str \<times> nat) list option"

definition minorUnitExponent :: "str \<Rightarrow> token_decimals \<Rightarrow> nat" where
  "minorUnitExponent currency tokenDecimals =
     (let c = map to_upper_char currency
      in nullish
           (or_else (case tokenDecimals of Some t \<Rightarrow> map_of t c | None \<Rightarrow> None)
             (map_of MINOR_UNIT_EXPONENT c))
           2)"

section \<open>Cross-decimal conversion\<close>

definition decimal_scale :: "str \<Rightarrow> str \<Rightarrow> token_decimals \<Rightarrow> jsnum" where
  "decimal_scale from_cur to_cur tokenDecimals =
     10 ^ minorUnitExponent to_cur tokenDecimals / 10 ^ minorUnitExponent from_cur tokenDecimals"

definition convertMinorCrossDecimal ::
  "jsnum \<Rightarrow> jsnum \<Rightarrow> str \<Rightarrow> str \<Rightarrow> token_decimals \<Rightarrow> jsnum" where
  "convertMinorCrossDecimal amountMinor rate from_cur to_cur tokenDecimals =
     math_round (amountMinor * rate * decimal_scale from_cur to_cur tokenDecimals)"

text \<open>The package's factory as a function of the amount and the multiplier, None if not installed.\<close>

definition convertMinorCrossDecimalDinero ::
  "(jsnum \<Rightarrow> jsnum \<Rightarrow> jsnum) option \<Rightarrow>
   jsnum \<Rightarrow> jsnum \<Rightarrow> str \<Rightarrow> str \<Rightarrow> token_decimals \<Rightarrow> jsnum" where
  "convertMinorCrossDecimalDinero factory amountMinor rate from_cur to_cur tokenDecimals =
     (case factory of
        None \<Rightarrow> convertMinorCrossDecimal amountMinor rate from_cur to_cur tokenDecimals
      | Some multiply \<Rightarrow>
          let scaledRate = math_round (rate * 10 ^ 9 * decimal_scale from_cur to_cur tokenDecimals);
              product = multiply amountMinor scaledRate
          in math_round (product / 10 ^ 9))"

section \<open>Facts\<close>

lemma decimal_scale_pos: "0 < decimal_scale a b t"
  by (simp add: decimal_scale_def)

lemma decimal_scale_same: "minorUnitExponent a t = minorUnitExponent b t \<Longrightarrow> decimal_scale a b t = 1"
  by (simp add: decimal_scale_def)

lemma convert_integer [simp]: "is_integer (convertMinorCrossDecimal x r a b t)"
  by (simp add: convertMinorCrossDecimal_def)

lemma convert_same_scale:
  "minorUnitExponent a t = minorUnitExponent b t \<Longrightarrow>
   convertMinorCrossDecimal x r a b t = convertMinor x r"
  by (simp add: convertMinorCrossDecimal_def convertMinor_def decimal_scale_same)

lemma convert_mono:
  assumes "0 \<le> r" "x \<le> y"
  shows "convertMinorCrossDecimal x r a b t \<le> convertMinorCrossDecimal y r a b t"
proof -
  have "x * r \<le> y * r" using assms by (rule mult_right_mono [rotated])
  then have "x * r * decimal_scale a b t \<le> y * r * decimal_scale a b t"
    by (rule mult_right_mono) (simp add: decimal_scale_pos less_imp_le)
  then show ?thesis by (simp add: convertMinorCrossDecimal_def math_round_mono)
qed

lemma convert_nonneg: "0 \<le> r \<Longrightarrow> 0 \<le> x \<Longrightarrow> 0 \<le> convertMinorCrossDecimal x r a b t"
proof -
  have "math_round 0 = 0" using math_round_integer [of 0] by simp
  then show "0 \<le> r \<Longrightarrow> 0 \<le> x \<Longrightarrow> 0 \<le> convertMinorCrossDecimal x r a b t"
    using convert_mono [of r 0 x a b t] by (simp add: convertMinorCrossDecimal_def)
qed

text \<open>A conversion is off by at most half a minor unit of the target currency.\<close>

lemma convert_error:
  "\<bar>convertMinorCrossDecimal x r a b t - x * r * decimal_scale a b t\<bar> \<le> 1 / 2"
  using math_round_bounds [of "x * r * decimal_scale a b t"]
  unfolding convertMinorCrossDecimal_def abs_le_iff by linarith

text \<open>With an exact multiplication, the package's path agrees when nine decimals hold the scaled rate.\<close>

lemma dinero_agrees:
  assumes "is_integer (rate * 10 ^ 9 * decimal_scale a b t)" "\<And>m. multiply x m = x * m"
  shows "convertMinorCrossDecimalDinero (Some multiply) x rate a b t =
    convertMinorCrossDecimal x rate a b t"
proof -
  from assms(1) have "math_round (rate * 10 ^ 9 * decimal_scale a b t) = rate * 10 ^ 9 * decimal_scale a b t"
    by (metis is_integer_iff math_round_integer)
  then show ?thesis
    by (simp add: convertMinorCrossDecimalDinero_def convertMinorCrossDecimal_def assms(2) Let_def
        mult.assoc)
qed

end
