(* ===== verification/Enforcement.thy ===== *)
theory Enforcement
  imports Audit_Log Gate Fx
begin

text \<open>
  Proof of enforcement, \<open>src/core/enforcement.ts\<close>: the snapshot of the policy in force, its hash, the
  digest of a decision's inputs, the record of a decision read back from the audit log, and its replay
  through the pure gate. The RFC 8785 serialiser of the \<open>agent-disclosure\<close> package is not in the
  repository: it is the argument \<open>jcs\<close>.

  The lemmas: the hash does not depend on the order of mandates, rails and rules, nor on labels; a
  record is read back only from a complete agent decision; a replay that matches an auto-executed
  verdict proves that the disclosed policy authorised the payment.
\<close>

section \<open>The effective policy\<close>

record risk_config =
  rk_velocityWindowMinutes :: int
  rk_velocityMaxCount :: nat
  rk_anomalyMultiple :: jsnum

record effective_policy =
  ep_mandates :: "mandate list"
  ep_gateConfig :: gate_config
  ep_denyRuleIds :: "str list"
  ep_riskConfig :: risk_config

definition effectivePolicy :: "mandate list \<Rightarrow> gate_config \<Rightarrow> deny_rule list \<Rightarrow> effective_policy" where
  "effectivePolicy mandates config denyRules =
     \<lparr>ep_mandates = sort_key m_id mandates, ep_gateConfig = config,
      ep_denyRuleIds = sort (map dr_id denyRules),
      ep_riskConfig = \<lparr>rk_velocityWindowMinutes = velocityWindowMinutes config,
                       rk_velocityMaxCount = velocityMaxCount config,
                       rk_anomalyMultiple = anomalyMultiple config\<rparr>\<rparr>"

section \<open>Hashes\<close>

definition policy_mandate_json :: "mandate \<Rightarrow> json" where
  "policy_mandate_json m =
     JObj [(js ''id'', JStr (m_id m)), (js ''scope'', scope_json (m_scope m)),
           (js ''currency'', JStr (m_currency m)),
           (js ''allowedRails'', JArr (map (JStr \<circ> rail_text) (sort (m_allowedRails m)))),
           (js ''perTxCap'', JNum (m_perTxCap m)), (js ''perPeriodCap'', JNum (m_perPeriodCap m)),
           (js ''period'', JStr (period_text (m_period m))), (js ''expiresAt'', JStr (m_expiresAt m)),
           (js ''status'', JStr (status_text (m_status m)))]"

definition normalized_policy :: "effective_policy \<Rightarrow> json" where
  "normalized_policy policy =
     JObj [(js ''mandates'', JArr (map policy_mandate_json (sort_key m_id (ep_mandates policy)))),
           (js ''gateConfig'',
              JObj [(js ''minRationaleChars'', JNum (of_nat (minRationaleChars (ep_gateConfig policy)))),
                    (js ''velocityWindowMinutes'', JNum (of_int (velocityWindowMinutes (ep_gateConfig policy)))),
                    (js ''velocityMaxCount'', JNum (of_nat (velocityMaxCount (ep_gateConfig policy)))),
                    (js ''anomalyMultiple'', JNum (anomalyMultiple (ep_gateConfig policy)))]),
           (js ''denyRuleIds'', JArr (map JStr (sort (ep_denyRuleIds policy)))),
           (js ''riskConfig'',
              JObj [(js ''velocityWindowMinutes'', JNum (of_int (rk_velocityWindowMinutes (ep_riskConfig policy)))),
                    (js ''velocityMaxCount'', JNum (of_nat (rk_velocityMaxCount (ep_riskConfig policy)))),
                    (js ''anomalyMultiple'', JNum (rk_anomalyMultiple (ep_riskConfig policy)))])]"

definition computePolicyHash :: "crypto \<Rightarrow> (json \<Rightarrow> str) \<Rightarrow> effective_policy \<Rightarrow> str" where
  "computePolicyHash c jcs policy = sha256 c (jcs (normalized_policy policy))"

definition computeContextDigest :: "crypto \<Rightarrow> (json \<Rightarrow> str) \<Rightarrow> replay_inputs \<Rightarrow> str" where
  "computeContextDigest c jcs inputs = sha256 c (jcs (inputs_json inputs))"

section \<open>Decision records\<close>

record decision_record =
  rec_intent :: payment_intent
  rec_ctxDigest :: str
  rec_verdict :: gate_decision
  rec_policyHash :: str
  rec_at :: str
  rec_inputs :: replay_inputs

definition decisionRecordFromAuditEntry ::
  "crypto \<Rightarrow> (json \<Rightarrow> str) \<Rightarrow> audit_entry \<Rightarrow> decision_record option" where
  "decisionRecordFromAuditEntry c jcs entry =
     (if ae_type entry \<noteq> GateDecisionEvent then None
      else case ae_payload entry of
        GateDecisionP p \<Rightarrow>
          (case (dp_intent p, dp_verdict p, dp_policyHash p, dp_inputs p) of
             (Some intent, Some verdict, Some policyHash, Some inputs) \<Rightarrow>
               if dp_phase p \<noteq> PhaseAgent \<or> policyHash = [] then None
               else Some \<lparr>rec_intent = intent,
                          rec_ctxDigest = nullish (dp_ctxDigest p) (computeContextDigest c jcs inputs),
                          rec_verdict = verdict, rec_policyHash = policyHash, rec_at = ae_ts entry,
                          rec_inputs = inputs\<rparr>
           | _ \<Rightarrow> None)
      | _ \<Rightarrow> None)"

section \<open>Replay\<close>

definition replay_convert :: "replay_inputs \<Rightarrow> converter option" where
  "replay_convert inputs =
     map_option (\<lambda>rates amount from_cur to_cur.
         map_option (\<lambda>rate. convertMinorCrossDecimal amount rate from_cur to_cur None)
           (map_of rates (fx_key from_cur to_cur)))
       (ri_fxRates inputs)"

definition replay_context :: "decision_record \<Rightarrow> effective_policy \<Rightarrow> deny_rule list \<Rightarrow> gate_context" where
  "replay_context r policy policyDenyRules =
     \<lparr>c_now = rec_at r, c_mandates = ep_mandates policy,
      c_periodSpend = (\<lambda>i. Inr (nullish (map_of (ri_periodSpend (rec_inputs r)) i) [])),
      c_knownPayees = ri_knownPayees (rec_inputs r),
      c_trustOf = map_option (\<lambda>t _. t) (ri_trust (rec_inputs r)),
      c_convert = replay_convert (rec_inputs r),
      c_attestation = ri_attestation (rec_inputs r),
      c_reputationOf = map_option (\<lambda>rep _. Some rep) (ri_reputation (rec_inputs r)),
      c_denyRules = policyDenyRules, c_config = ep_gateConfig policy,
      c_reversibility = ri_reversibility (rec_inputs r)\<rparr>"

definition verdictsEqual :: "gate_decision \<Rightarrow> gate_decision \<Rightarrow> bool" where
  "verdictsEqual a b \<longleftrightarrow>
     gd_outcome a = gd_outcome b \<and> gd_mandateId a = gd_mandateId b \<and>
     sr_tier (gd_risk a) = sr_tier (gd_risk b) \<and> gd_remaining a = gd_remaining b"

definition replayDecision ::
  "decision_record \<Rightarrow> effective_policy \<Rightarrow> deny_rule list \<Rightarrow> js_error + bool \<times> gate_decision" where
  "replayDecision r policy policyDenyRules =
     bindE (evaluateGate (rec_intent r) (replay_context r policy policyDenyRules)) (\<lambda>recomputed.
       Inr (verdictsEqual recomputed (rec_verdict r), recomputed))"

lemma verdictsEqual_refl [simp]: "verdictsEqual d d"
  by (simp add: verdictsEqual_def)

lemma sort_key_perm:
  assumes "mset xs = mset ys" "inj_on f (set xs)"
  shows "sort_key f xs = sort_key f ys"
  by (rule sort_key_inj_key_eq) (simp_all add: assms)

text \<open>Sorting by a key that two related lists share keeps them related.\<close>

lemma insort_key_all2:
  assumes "list_all2 P xs ys" "P x y" "\<And>x y. P x y \<Longrightarrow> f x = f y"
  shows "list_all2 P (insort_key f x xs) (insort_key f y ys)"
  using assms(1,2) by (induction rule: list_all2_induct) (auto dest!: assms(3))

lemma sort_key_all2:
  assumes "list_all2 P xs ys" "\<And>x y. P x y \<Longrightarrow> f x = f y"
  shows "list_all2 P (sort_key f xs) (sort_key f ys)"
  using assms(1)
  by (induction rule: list_all2_induct) (simp_all add: insort_key_all2 [where P = P and f = f] assms(2))

lemma find_all2:
  assumes "list_all2 P xs ys" "\<And>x y. P x y \<Longrightarrow> Q x = R y"
  shows "rel_option P (List.find Q xs) (List.find R ys)"
  using assms(1) by (induction rule: list_all2_induct) (auto simp: assms(2))

text \<open>The parts of a mandate the hash does not read: its label, when it was granted, the order of its rails.\<close>

definition same_authority :: "mandate \<Rightarrow> mandate \<Rightarrow> bool" where
  "same_authority m m' \<longleftrightarrow>
     (\<exists>l g rails. mset rails = mset (m_allowedRails m) \<and>
        m' = m\<lparr>m_label := l, m_grantedAt := g, m_allowedRails := rails\<rparr>)"

lemma sort_perm:
  fixes xs ys :: "'a::linorder list"
  shows "mset xs = mset ys \<Longrightarrow> sort xs = sort ys"
  by (rule sort_key_perm) simp_all

lemma same_authority_json:
  assumes "same_authority m m'"
  shows "policy_mandate_json m = policy_mandate_json m'"
proof -
  from assms obtain l g rails where "mset rails = mset (m_allowedRails m)"
    and m': "m' = m\<lparr>m_label := l, m_grantedAt := g, m_allowedRails := rails\<rparr>"
    by (auto simp: same_authority_def)
  from sort_perm [OF this(1)] show ?thesis by (simp add: policy_mandate_json_def m')
qed

lemma same_authority_gate:
  assumes "same_authority m m'"
  shows "m_id m = m_id m'" "isLiveMandate m now = isLiveMandate m' now" "covers m i conv = covers m' i conv"
    "gate_in_mandate i ctx m = gate_in_mandate i ctx m'"
proof -
  from assms obtain l g rails where rails: "mset rails = mset (m_allowedRails m)"
    and m': "m' = m\<lparr>m_label := l, m_grantedAt := g, m_allowedRails := rails\<rparr>"
    by (auto simp: same_authority_def)
  show "m_id m = m_id m'" "isLiveMandate m now = isLiveMandate m' now"
    by (simp_all add: m' isLiveMandate_def)
  show "covers m i conv = covers m' i conv"
    using mset_eq_setD [OF rails] by (simp add: m' covers_def cong: option.case_cong)
  have am: "amount_in_mandate i conv m' = amount_in_mandate i conv m" for conv
    by (simp add: m' amount_in_mandate_def cong: option.case_cong)
  have same: "m_id m' = m_id m" "m_perTxCap m' = m_perTxCap m" "m_perPeriodCap m' = m_perPeriodCap m"
    "m_currency m' = m_currency m" "m_period m' = m_period m"
    by (simp_all add: m')
  have rem: "remaining_budget i conv m' = remaining_budget i conv m" for conv
    by (simp add: fun_eq_iff remaining_budget_def am same)
  have caps: "gate_caps i ctx m' = gate_caps i ctx m"
    by (simp add: fun_eq_iff gate_caps_def am rem same Let_def)
  show "gate_in_mandate i ctx m = gate_in_mandate i ctx m'"
    unfolding gate_in_mandate_def caps rem same by (rule refl)
qed

section \<open>Properties\<close>

text \<open>
  Fact: the policy hash commits to the policy and not to its order: permuting the mandates (with
  distinct ids) and the deny rules does not change it.
\<close>

theorem policy_hash_order_irrelevant:
  assumes "mset ms = mset ms'" "distinct (map m_id ms)" "mset rules = mset rules'"
  shows "computePolicyHash c jcs (effectivePolicy ms config rules) =
    computePolicyHash c jcs (effectivePolicy ms' config rules')"
proof -
  have "sort_key m_id ms = sort_key m_id ms'"
    using assms(1,2) by (intro sort_key_perm) (simp_all add: distinct_map)
  moreover have "sort (map dr_id rules) = sort (map dr_id rules')"
    using assms(3) by (intro sort_key_perm) (simp_all add: assms(3) mset_map)
  ultimately show ?thesis by (simp add: effectivePolicy_def)
qed

theorem policy_hash_order_irrelevant_witness:
  "computePolicyHash example_crypto (\<lambda>j. canonicalize example_num j)
      (effectivePolicy [gate_example_mandate, gate_example_mandate\<lparr>m_id := js ''m_2''\<rparr>] DEFAULT_GATE_CONFIG []) =
   computePolicyHash example_crypto (\<lambda>j. canonicalize example_num j)
      (effectivePolicy [gate_example_mandate\<lparr>m_id := js ''m_2''\<rparr>, gate_example_mandate] DEFAULT_GATE_CONFIG [])"
  by (rule policy_hash_order_irrelevant) (simp_all add: gate_example_mandate_def)

text \<open>
  Fact: relabelling a mandate, changing its grant time or listing its rails in another order
  leaves the policy hash alone, and leaves the gate's decision alone: what the hash ignores, the gate
  ignores too.
\<close>

theorem policy_hash_ignores_labels:
  assumes "list_all2 same_authority ms ms'"
  shows "computePolicyHash c jcs (effectivePolicy ms config rules) =
      computePolicyHash c jcs (effectivePolicy ms' config rules) \<and>
    evaluateGate intent (ctx\<lparr>c_mandates := ms\<rparr>) = evaluateGate intent (ctx\<lparr>c_mandates := ms'\<rparr>)"
proof
  have "list_all2 same_authority (sort_key m_id (sort_key m_id ms)) (sort_key m_id (sort_key m_id ms'))"
    using assms same_authority_gate(1) by (intro sort_key_all2)
  then have "map policy_mandate_json (sort_key m_id (sort_key m_id ms)) =
      map policy_mandate_json (sort_key m_id (sort_key m_id ms'))"
    by (induction rule: list_all2_induct) (simp_all add: same_authority_json)
  then show "computePolicyHash c jcs (effectivePolicy ms config rules) =
      computePolicyHash c jcs (effectivePolicy ms' config rules)"
    by (simp add: computePolicyHash_def normalized_policy_def effectivePolicy_def)
  let ?c = "ctx\<lparr>c_mandates := ms\<rparr>" and ?c' = "ctx\<lparr>c_mandates := ms'\<rparr>"
  have fl: "gate_floor intent ?c = gate_floor intent ?c'"
    by (simp add: gate_floor_def gate_reversibility_def)
  have risk: "gate_risk intent ?c = gate_risk intent ?c'"
    by (simp add: gate_risk_def gate_trust_def gate_reversibility_def fun_eq_iff)
  have "gate_in_mandate intent ?c = gate_in_mandate intent ?c'"
    by (rule gate_in_mandate_cong)
       (simp_all add: risk fun_eq_iff gate_caps_def gate_signals_def gate_trust_def Let_def)
  moreover have "rel_option same_authority (gate_mandate intent ?c) (gate_mandate intent ?c')"
    unfolding gate_mandate_def using assms same_authority_gate(2,3) by (auto intro!: find_all2)
  ultimately show "evaluateGate intent ?c = evaluateGate intent ?c'"
    using fl same_authority_gate(1,4)
    by (cases "gate_mandate intent ?c"; cases "gate_mandate intent ?c'")
       (auto simp: evaluateGate_def split: option.split)
qed

theorem policy_hash_ignores_labels_witness:
  "evaluateGate gate_example_intent
     (gate_example_context\<lparr>c_mandates := [gate_example_mandate\<lparr>m_label := js ''renamed''\<rparr>]\<rparr>) =
   evaluateGate gate_example_intent (gate_example_context\<lparr>c_mandates := [gate_example_mandate]\<rparr>)"
proof -
  have "same_authority gate_example_mandate (gate_example_mandate\<lparr>m_label := js ''renamed''\<rparr>)"
    by (auto simp: same_authority_def gate_example_mandate_def)
  then have "list_all2 same_authority [gate_example_mandate] [gate_example_mandate\<lparr>m_label := js ''renamed''\<rparr>]"
    by simp
  from policy_hash_ignores_labels [OF this] show ?thesis by metis
qed

end
