(* ===== verification/Executor.thy ===== *)
theory Executor
  imports Memory_Store Rails Risk_Chain Enforcement
begin

text \<open>
  The executor, \<open>createExecutor\<close> of \<open>src/core/executor.ts\<close>: the only path from an intent to a rail.
  Its state is the store, the audit log and the world behind the rails; an operation takes the
  dependencies, the clock reading and its arguments, and returns its result or the error it throws,
  together with the state, which keeps what was written before an error.

  \<open>execute\<close> is split where the source awaits the rail: \<open>execute_decide\<close> runs up to the call of
  \<open>provider.settle\<close>, \<open>execute_record\<close> is what follows it. Run one after the other they are \<open>execute\<close>;
  the theory Interleaving runs them concurrently.

  Not modelled: the tracer and the notifier, which only observe, the durability barrier \<open>commit\<close>,
  which does not change the state, and a log signed by a key provider that can throw: the log here
  is signed by the operator's single key.
\<close>

section \<open>Dependencies and state\<close>

record 'r exec_deps =
  xd_crypto :: crypto
  xd_jcs :: "json \<Rightarrow> str"
  xd_key :: str
  xd_rails :: "'r rail_registry"
  xd_config :: gate_config
  xd_denyRules :: "deny_rule list"
  xd_breaker :: "nat option"
  xd_challenge :: "jsnum option"
  xd_fxRates :: "fx_rate_source option"
  xd_tokenDecimals :: token_decimals
  xd_reputation :: "(str \<Rightarrow> reputation_level option) option"

record 'r exec_state =
  xs_store :: mem_store
  xs_log :: "audit_entry list"
  xs_world :: 'r

datatype challenge_line =
    RecognisePayee str jsnum str
  | AcceptIrreversible
  | AcceptRisk "risk_reason list"
  | NoSaferAlternative

record execute_result =
  xr_intentId :: str
  xr_status :: intent_status
  xr_decision :: gate_decision
  xr_receipt :: "receipt option"
  xr_verified :: "bool option"
  xr_challenge :: "challenge_line list option"

section \<open>Recording\<close>

definition record_event ::
  "'r exec_deps \<Rightarrow> event_type \<Rightarrow> payload \<Rightarrow> str \<Rightarrow> 'r exec_state \<Rightarrow> 'r exec_state" where
  "record_event deps type pl ts st =
     (let log' = log_record (xd_crypto deps) (xd_key deps) type pl ts (xs_log st)
      in st\<lparr>xs_log := log', xs_store := appendAudit (last log') (xs_store st)\<rparr>)"

definition current_policy_hash :: "'r exec_deps \<Rightarrow> 'r exec_state \<Rightarrow> str" where
  "current_policy_hash deps st =
     computePolicyHash (xd_crypto deps) (xd_jcs deps)
       (effectivePolicy (listMandates (xs_store st)) (xd_config deps) (xd_denyRules deps))"

definition record_decision :: "'r exec_deps \<Rightarrow> decision_payload \<Rightarrow> str \<Rightarrow> 'r exec_state \<Rightarrow> 'r exec_state" where
  "record_decision deps p ts st =
     record_event deps GateDecisionEvent
       (GateDecisionP (p\<lparr>dp_policyHash := Some (current_policy_hash deps st)\<rparr>)) ts st"

section \<open>Kill switch and circuit breaker\<close>

definition KILL_KEY :: str where
  "KILL_KEY = js ''kill_switch''"

definition FAIL_KEY :: str where
  "FAIL_KEY = js ''consecutive_failures''"

text \<open>\<open>Number(s)\<close> on the texts the counter holds: digits, or nothing; None is NaN.\<close>

definition js_number :: "str \<Rightarrow> nat option" where
  "js_number s = (if all_digits s then Some (digits_value s) else None)"

definition isKilled :: "mem_store \<Rightarrow> bool" where
  "isKilled s \<longleftrightarrow> getMeta s KILL_KEY = Some (js ''1'')"

definition failures :: "mem_store \<Rightarrow> nat option" where
  "failures s = js_number (nullish (getMeta s FAIL_KEY) (js ''0''))"

definition breaker_threshold :: "'r exec_deps \<Rightarrow> nat" where
  "breaker_threshold deps = nullish (xd_breaker deps) 4"

definition breakerOpen :: "'r exec_deps \<Rightarrow> mem_store \<Rightarrow> bool" where
  "breakerOpen deps s \<longleftrightarrow> (case failures s of Some n \<Rightarrow> n \<ge> breaker_threshold deps | None \<Rightarrow> False)"

definition recordOutcome :: "bool \<Rightarrow> 'r exec_state \<Rightarrow> 'r exec_state" where
  "recordOutcome ok st =
     st\<lparr>xs_store := setMeta FAIL_KEY
          (if ok then js ''0''
           else (case failures (xs_store st) of Some n \<Rightarrow> show_nat (n + 1) | None \<Rightarrow> js ''NaN''))
          (xs_store st)\<rparr>"

definition haltReason :: "'r exec_deps \<Rightarrow> mem_store \<Rightarrow> halt_reason option" where
  "haltReason deps s =
     (if isKilled s then Some KillSwitchEngaged
      else if breakerOpen deps s then Some (BreakerOpen (int (nullish (failures s) 0)))
      else None)"

definition haltDecision :: "halt_reason \<Rightarrow> gate_decision" where
  "haltDecision r =
     \<lparr>gd_outcome = Block, gd_reasons = [HaltedReason r], gd_mandateId = None, gd_risk = no_risk,
      gd_remaining = None, gd_fix = None\<rparr>"

definition engageKillSwitch :: "'r exec_state \<Rightarrow> 'r exec_state" where
  "engageKillSwitch st = st\<lparr>xs_store := setMeta KILL_KEY (js ''1'') (xs_store st)\<rparr>"

definition disengageKillSwitch :: "'r exec_state \<Rightarrow> 'r exec_state" where
  "disengageKillSwitch st = st\<lparr>xs_store := setMeta KILL_KEY (js ''0'') (xs_store st)\<rparr>"

definition resetCircuitBreaker :: "'r exec_state \<Rightarrow> 'r exec_state" where
  "resetCircuitBreaker st = st\<lparr>xs_store := setMeta FAIL_KEY (js ''0'') (xs_store st)\<rparr>"

section \<open>The gate's context\<close>

definition exec_convert :: "'r exec_deps \<Rightarrow> converter option" where
  "exec_convert deps =
     map_option (\<lambda>fx amount from_cur to_cur.
         map_option (\<lambda>r. convertMinorCrossDecimal amount r from_cur to_cur (xd_tokenDecimals deps))
           (fx from_cur to_cur))
       (xd_fxRates deps)"

definition exec_reputation :: "'r exec_deps \<Rightarrow> payment_intent \<Rightarrow> reputation_level option" where
  "exec_reputation deps intent =
     (case xd_reputation deps of Some f \<Rightarrow> f (i_payee intent) | None \<Rightarrow> None)"

definition exec_context ::
  "'r exec_deps \<Rightarrow> mem_store \<Rightarrow> str \<Rightarrow> payment_intent \<Rightarrow> attestation option \<Rightarrow> gate_context" where
  "exec_context deps s now intent att =
     \<lparr>c_now = now, c_mandates = listActiveMandates s now,
      c_periodSpend = (\<lambda>i. periodSpend s i now),
      c_knownPayees = knownPayees s,
      c_trustOf = Some (\<lambda>payee. payeeTrust (payeeSettledCount s payee)),
      c_convert = exec_convert deps,
      c_attestation = att,
      c_reputationOf = map_option (\<lambda>rep _. Some rep) (exec_reputation deps intent),
      c_denyRules = xd_denyRules deps, c_config = xd_config deps,
      c_reversibility = map_option pv_reversibility (registry_get (xd_rails deps) (i_rail intent))\<rparr>"

section \<open>Settling\<close>

text \<open>What follows the rail's answer: the receipt is stored and read back; a late error is a failure.\<close>

definition settle_record ::
  "'r exec_deps \<Rightarrow> 'r provider \<Rightarrow> payment_intent \<Rightarrow> str \<Rightarrow> js_error + receipt \<Rightarrow> 'r exec_state \<Rightarrow>
   (js_error + receipt \<times> bool) \<times> 'r exec_state" where
  "settle_record deps provider intent now answer st =
     (case answer of
        Inl e \<Rightarrow> (Inl e, record_event deps PaymentFailed (PaymentFailedP (i_id intent) e) now st)
      | Inr r0 \<Rightarrow>
          let receipt = r0\<lparr>r_providerId := Some (pv_id provider)\<rparr>;
              st1 = st\<lparr>xs_store := insertReceipt receipt (xs_store st)\<rparr>;
              st2 = record_event deps PaymentSettled
                      (PaymentSettledP (i_id intent) (r_id receipt) (i_amount intent) (i_currency intent) (i_rail intent))
                      (r_settledAt receipt) st1
          in (case pv_verifyReceipt provider receipt (xs_world st2) of
                Inl e \<Rightarrow> (Inl e, record_event deps PaymentFailed (PaymentFailedP (i_id intent) e) now st2)
              | Inr verified \<Rightarrow>
                  (Inr (receipt, verified),
                   record_event deps PaymentVerified (PaymentVerifiedP (i_id intent) (r_id receipt) verified)
                     (r_settledAt receipt) st2)))"

definition no_provider_error :: "rail_kind \<Rightarrow> js_error" where
  "no_provider_error rail = Thrown (js ''no provider registered for rail '' @ rail_text rail)"

definition settle ::
  "'r exec_deps \<Rightarrow> payment_intent \<Rightarrow> str \<Rightarrow> 'r exec_state \<Rightarrow> (js_error + receipt \<times> bool) \<times> 'r exec_state" where
  "settle deps intent now st =
     (case registry_get (xd_rails deps) (i_rail intent) of
        None \<Rightarrow> (Inl (no_provider_error (i_rail intent)), st)
      | Some provider \<Rightarrow>
          (case pv_settle provider intent now (xs_world st) of
             (answer, w) \<Rightarrow> settle_record deps provider intent now answer (st\<lparr>xs_world := w\<rparr>)))"

section \<open>execute\<close>

definition stored ::
  "payment_intent \<Rightarrow> intent_status \<Rightarrow> str option \<Rightarrow> reason list \<Rightarrow> str option \<Rightarrow> str option \<Rightarrow> stored_intent" where
  "stored intent status mandateId reasons settledAt receiptId =
     \<lparr>si_intent = intent, si_status = status, si_mandateId = mandateId, si_reasons = reasons,
      si_settledAt = settledAt, si_receiptId = receiptId, si_refundedMinor = None\<rparr>"

definition exec_result ::
  "str \<Rightarrow> intent_status \<Rightarrow> gate_decision \<Rightarrow> receipt option \<Rightarrow> bool option \<Rightarrow> execute_result" where
  "exec_result i status decision receipt verified =
     \<lparr>xr_intentId = i, xr_status = status, xr_decision = decision, xr_receipt = receipt,
      xr_verified = verified, xr_challenge = None\<rparr>"

text \<open>Filing the outcome of an execution; a failed insert throws and leaves the breaker's counter alone.\<close>

definition file_intent ::
  "stored_intent \<Rightarrow> ('r exec_state \<Rightarrow> 'r exec_state) \<Rightarrow> execute_result \<Rightarrow> 'r exec_state \<Rightarrow>
   (js_error + execute_result) \<times> 'r exec_state" where
  "file_intent si after res st =
     (case insertIntent si (xs_store st) of
        Inl e \<Rightarrow> (Inl e, st)
      | Inr s' \<Rightarrow> (Inr res, after (st\<lparr>xs_store := s'\<rparr>)))"

definition escalate :: "alert \<Rightarrow> gate_decision \<Rightarrow> gate_decision" where
  "escalate chainAlert decision =
     (case chainAlert of
        None \<Rightarrow> decision
      | Some (type, why) \<Rightarrow>
          if gd_outcome decision = AutoExecute
          then decision\<lparr>gd_outcome := ConfirmOperator,
                 gd_reasons := gd_reasons decision @ [RiskChainReason why],
                 gd_fix := Some (ConfirmRiskChain type why)\<rparr>
          else decision\<lparr>gd_reasons := gd_reasons decision @ [RiskChainReason why]\<rparr>)"

definition chain_options :: "mem_store \<Rightarrow> gate_decision \<Rightarrow> str \<Rightarrow> chain_opts" where
  "chain_options s decision now =
     \<lparr>co_isStreaming =
        (case gd_mandateId decision of
           Some i \<Rightarrow> i \<noteq> [] \<and> (case getMandate s i of Some m \<Rightarrow> m_period m = Day | None \<Rightarrow> False)
         | None \<Rightarrow> False),
      co_windowMinutes = None, co_now = Some now, co_drainFraction = None, co_drainAfterGrantMinutes = None\<rparr>"

definition capture_fx :: "'r exec_deps \<Rightarrow> payment_intent \<Rightarrow> mandate list \<Rightarrow> (str \<times> jsnum) list" where
  "capture_fx deps intent activeMandates =
     fromEntries (List.map_filter (\<lambda>m.
         case xd_fxRates deps of
           None \<Rightarrow> None
         | Some fx \<Rightarrow>
             if m_currency m = i_currency intent then None
             else map_option (\<lambda>rate. (fx_key (i_currency intent) (m_currency m), rate))
                    (fx (i_currency intent) (m_currency m)))
       activeMandates)"

definition capture_inputs ::
  "'r exec_deps \<Rightarrow> mem_store \<Rightarrow> str \<Rightarrow> payment_intent \<Rightarrow> attestation option \<Rightarrow> js_error + replay_inputs" where
  "capture_inputs deps s now intent att =
     (let activeMandates = listActiveMandates s now;
          fxRates = capture_fx deps intent activeMandates
      in bindE (mapE (\<lambda>m. bindE (periodSpend s (m_id m) now) (\<lambda>sp. Inr (m_id m, sp))) activeMandates) (\<lambda>spends.
           Inr \<lparr>ri_reversibility =
                  Some (nullish (map_option pv_reversibility (registry_get (xd_rails deps) (i_rail intent)))
                          (RAIL_REVERSIBILITY (i_rail intent))),
                ri_attestation = att, ri_reputation = exec_reputation deps intent,
                ri_trust = Some (payeeTrust (payeeSettledCount s (i_payee intent))),
                ri_knownPayees = sort (knownPayees s),
                ri_periodSpend = fromEntries spends,
                ri_fxRates = (if fxRates = [] then None else Some fxRates)\<rparr>))"

definition agent_payload ::
  "'r exec_deps \<Rightarrow> payment_intent \<Rightarrow> gate_decision \<Rightarrow> replay_inputs \<Rightarrow> decision_payload" where
  "agent_payload deps intent decision inputs =
     \<lparr>dp_intentId = i_id intent, dp_phase = PhaseAgent, dp_outcome = gd_outcome decision,
      dp_reasons = gd_reasons decision, dp_mandateId = gd_mandateId decision,
      dp_riskTier = Some (sr_tier (gd_risk decision)), dp_verdict = Some decision,
      dp_ctxDigest = Some (computeContextDigest (xd_crypto deps) (xd_jcs deps) inputs),
      dp_intent = Some intent, dp_inputs = Some inputs, dp_operatorRationale = None,
      dp_acknowledged = None, dp_policyHash = None\<rparr>"

text \<open>Up to the settlement: the operation is over, with its answer, or goes on to the rail.\<close>

datatype 'a progress = Finished 'a | ToRail gate_decision

definition execute_decide ::
  "'r exec_deps \<Rightarrow> str \<Rightarrow> payment_intent \<Rightarrow> attestation option \<Rightarrow> 'r exec_state \<Rightarrow>
   (js_error + execute_result) progress \<times> 'r exec_state" where
  "execute_decide deps now intent att st =
     (case haltReason deps (xs_store st) of
        Some halt \<Rightarrow>
          let st1 = record_event deps PaymentHalted (PaymentHaltedP (i_id intent) PhaseAgent halt) now st;
              decision = haltDecision halt;
              (res, st2) = file_intent (stored intent Blocked None (gd_reasons decision) None None) (\<lambda>x. x)
                             (exec_result (i_id intent) Blocked decision None None) st1
          in (Finished res, st2)
      | None \<Rightarrow>
          (case evaluateGate intent (exec_context deps (xs_store st) now intent att) of
             Inl e \<Rightarrow> (Finished (Inl e), st)
           | Inr gated \<Rightarrow>
               let decision = escalate
                     (evaluateRiskChain intent (xs_log st) (chain_options (xs_store st) gated now)) gated
               in (case capture_inputs deps (xs_store st) now intent att of
                     Inl e \<Rightarrow> (Finished (Inl e), st)
                   | Inr inputs \<Rightarrow>
                       let st1 = record_decision deps (agent_payload deps intent decision inputs) now st
                       in (case gd_outcome decision of
                             Block \<Rightarrow>
                               let (res, st2) = file_intent
                                     (stored intent Blocked (gd_mandateId decision) (gd_reasons decision) None None)
                                     (recordOutcome False)
                                     (exec_result (i_id intent) Blocked decision None None) st1
                               in (Finished res, st2)
                           | ConfirmOperator \<Rightarrow>
                               let (res, st2) = file_intent
                                     (stored intent Pending (gd_mandateId decision) (gd_reasons decision) None None)
                                     (\<lambda>x. x) (exec_result (i_id intent) Pending decision None None) st1
                               in (Finished res, st2)
                           | AutoExecute \<Rightarrow> (ToRail decision, st1)))))"

definition execute_record ::
  "payment_intent \<Rightarrow> gate_decision \<Rightarrow> js_error + receipt \<times> bool \<Rightarrow> 'r exec_state \<Rightarrow>
   (js_error + execute_result) \<times> 'r exec_state" where
  "execute_record intent decision outcome st =
     (case outcome of
        Inl e \<Rightarrow>
          file_intent (stored intent Failed (gd_mandateId decision) [ErrorReason e] None None)
            (recordOutcome False) (exec_result (i_id intent) Failed decision None None) st
      | Inr (receipt, verified) \<Rightarrow>
          file_intent
            (stored intent Settled (gd_mandateId decision) (gd_reasons decision)
               (Some (r_settledAt receipt)) (Some (r_id receipt)))
            (recordOutcome True) (exec_result (i_id intent) Settled decision (Some receipt) (Some verified)) st)"

definition execute ::
  "'r exec_deps \<Rightarrow> str \<Rightarrow> payment_intent \<Rightarrow> attestation option \<Rightarrow> 'r exec_state \<Rightarrow>
   (js_error + execute_result) \<times> 'r exec_state" where
  "execute deps now intent att st =
     (case execute_decide deps now intent att st of
        (Finished res, st1) \<Rightarrow> (res, st1)
      | (ToRail decision, st1) \<Rightarrow>
          (case settle deps intent now st1 of (outcome, st2) \<Rightarrow> execute_record intent decision outcome st2))"

section \<open>approve\<close>

definition exec_reversibility :: "'r exec_deps \<Rightarrow> rail_kind \<Rightarrow> reversibility" where
  "exec_reversibility deps rail =
     nullish (map_option pv_reversibility (registry_get (xd_rails deps) rail)) (RAIL_REVERSIBILITY rail)"

definition challengeFor :: "'r exec_deps \<Rightarrow> payment_intent \<Rightarrow> gate_decision \<Rightarrow> challenge_line list" where
  "challengeFor deps intent decision =
     [RecognisePayee (i_payee intent) (i_amount intent) (i_currency intent)] @
     (if exec_reversibility deps (i_rail intent) = Irreversible then [AcceptIrreversible] else []) @
     (if sr_tier (gd_risk decision) = TierHigh then [AcceptRisk (sr_reasons (gd_risk decision))] else []) @
     [NoSaferAlternative]"

definition requiresChallenge :: "'r exec_deps \<Rightarrow> payment_intent \<Rightarrow> gate_decision \<Rightarrow> bool" where
  "requiresChallenge deps intent decision \<longleftrightarrow>
     sr_tier (gd_risk decision) = TierHigh \<or> exec_reversibility deps (i_rail intent) = Irreversible \<or>
     i_amount intent \<ge> nullish (xd_challenge deps) 100000"

fun intent_status_text :: "intent_status \<Rightarrow> str" where
  "intent_status_text Pending = js ''pending''"
| "intent_status_text Settled = js ''settled''"
| "intent_status_text Blocked = js ''blocked''"
| "intent_status_text Failed = js ''failed''"

definition approval_payload :: "str \<Rightarrow> gate_decision \<Rightarrow> str \<Rightarrow> bool \<Rightarrow> decision_payload" where
  "approval_payload intentId decision operatorRationale acknowledged =
     \<lparr>dp_intentId = intentId, dp_phase = PhaseOperatorApproval, dp_outcome = gd_outcome decision,
      dp_reasons = gd_reasons decision, dp_mandateId = gd_mandateId decision, dp_riskTier = None,
      dp_verdict = None, dp_ctxDigest = None, dp_intent = None, dp_inputs = None,
      dp_operatorRationale = Some operatorRationale, dp_acknowledged = Some acknowledged,
      dp_policyHash = None\<rparr>"

definition change_intent ::
  "str \<Rightarrow> intent_update \<Rightarrow> ('r exec_state \<Rightarrow> 'r exec_state) \<Rightarrow> 'a \<Rightarrow> 'r exec_state \<Rightarrow>
   (js_error + 'a) \<times> 'r exec_state" where
  "change_intent i u after res st =
     (case updateIntent i u (xs_store st) of
        Inl e \<Rightarrow> (Inl e, st)
      | Inr s' \<Rightarrow> (Inr res, after (st\<lparr>xs_store := s'\<rparr>)))"

definition approve_decide ::
  "'r exec_deps \<Rightarrow> str \<Rightarrow> str \<Rightarrow> str \<Rightarrow> bool \<Rightarrow> 'r exec_state \<Rightarrow>
   (js_error + execute_result) progress \<times> 'r exec_state" where
  "approve_decide deps now intentId operatorRationale acknowledged st =
     (case getIntent (xs_store st) intentId of
        None \<Rightarrow> (Finished (Inl (NotFound (js ''intent '' @ intentId))), st)
      | Some si \<Rightarrow>
          if si_status si \<noteq> Pending
          then (Finished (Inl (NotPending (js ''intent '' @ intentId @ js '' is '' @
                  intent_status_text (si_status si) @ js '', not pending''))), st)
          else (case haltReason deps (xs_store st) of
            Some halt \<Rightarrow>
              (Finished (Inr (exec_result intentId Blocked (haltDecision halt) None None)),
               record_event deps PaymentHalted (PaymentHaltedP intentId PhaseOperatorApproval halt) now st)
          | None \<Rightarrow>
              (case evaluateGate (si_intent si) (exec_context deps (xs_store st) now (si_intent si) None) of
                 Inl e \<Rightarrow> (Finished (Inl e), st)
               | Inr decision \<Rightarrow>
                   let st1 = record_decision deps
                               (approval_payload intentId decision operatorRationale acknowledged) now st
                   in if gd_outcome decision = Block
                      then let (res, st2) = change_intent intentId
                                 (no_update\<lparr>iu_status := Some Blocked, iu_reasons := Some (gd_reasons decision)\<rparr>)
                                 (recordOutcome False) (exec_result intentId Blocked decision None None) st1
                           in (Finished res, st2)
                      else if requiresChallenge deps (si_intent si) decision \<and> \<not> acknowledged
                      then (Finished (Inr ((exec_result intentId Pending decision None None)
                              \<lparr>xr_challenge := Some (challengeFor deps (si_intent si) decision)\<rparr>)), st1)
                      else (ToRail decision, st1))))"

definition approve_record ::
  "str \<Rightarrow> gate_decision \<Rightarrow> js_error + receipt \<times> bool \<Rightarrow> 'r exec_state \<Rightarrow>
   (js_error + execute_result) \<times> 'r exec_state" where
  "approve_record intentId decision outcome st =
     (case outcome of
        Inl e \<Rightarrow>
          change_intent intentId (no_update\<lparr>iu_status := Some Failed, iu_reasons := Some [ErrorReason e]\<rparr>)
            (recordOutcome False) (exec_result intentId Failed decision None None) st
      | Inr (receipt, verified) \<Rightarrow>
          change_intent intentId
            (no_update\<lparr>iu_status := Some Settled, iu_settledAt := Some (r_settledAt receipt),
                      iu_receiptId := Some (r_id receipt)\<rparr>)
            (recordOutcome True) (exec_result intentId Settled decision (Some receipt) (Some verified)) st)"

definition approve ::
  "'r exec_deps \<Rightarrow> str \<Rightarrow> str \<Rightarrow> str \<Rightarrow> bool \<Rightarrow> 'r exec_state \<Rightarrow>
   (js_error + execute_result) \<times> 'r exec_state" where
  "approve deps now intentId operatorRationale acknowledged st =
     (case approve_decide deps now intentId operatorRationale acknowledged st of
        (Finished res, st1) \<Rightarrow> (res, st1)
      | (ToRail decision, st1) \<Rightarrow>
          (case getIntent (xs_store st) intentId of
             None \<Rightarrow> (Inl (NotFound (js ''intent '' @ intentId)), st1)
           | Some si \<Rightarrow>
               (case settle deps (si_intent si) now st1 of
                  (outcome, st2) \<Rightarrow> approve_record intentId decision outcome st2)))"

section \<open>refund\<close>

datatype refund_reason =
    NotSettled intent_status | NoReceipt | NoProvider | IrreversibleSettlement | RefundsUnsupported
  | InvalidRefundAmount

record refund_result =
  rf_intentId :: str
  rf_ok :: bool
  rf_refundedMinor :: jsnum
  rf_reason :: "refund_reason option"

definition refuse_refund :: "str \<Rightarrow> jsnum \<Rightarrow> refund_reason \<Rightarrow> refund_result" where
  "refuse_refund intentId already why =
     \<lparr>rf_intentId = intentId, rf_ok = False, rf_refundedMinor = already, rf_reason = Some why\<rparr>"

definition refund_provider :: "'r exec_deps \<Rightarrow> receipt \<Rightarrow> rail_kind \<Rightarrow> 'r provider option" where
  "refund_provider deps receipt rail =
     or_else
       (case r_providerId receipt of
          Some i \<Rightarrow> if i = [] then None else registry_byId (xd_rails deps) i
        | None \<Rightarrow> None)
       (registry_get (xd_rails deps) rail)"

definition refund ::
  "'r exec_deps \<Rightarrow> str \<Rightarrow> str \<Rightarrow> jsnum option \<Rightarrow> str option \<Rightarrow> 'r exec_state \<Rightarrow>
   (js_error + refund_result) \<times> 'r exec_state" where
  "refund deps now intentId amountMinor reason st =
     (case getIntent (xs_store st) intentId of
        None \<Rightarrow> (Inl (NotFound (js ''intent '' @ intentId)), st)
      | Some si \<Rightarrow>
          let already = nullish (si_refundedMinor si) 0;
              refuse = (\<lambda>why. (Inr (refuse_refund intentId already why), st))
          in if si_status si \<noteq> Settled then refuse (NotSettled (si_status si))
             else (case (case si_receiptId si of
                           Some i \<Rightarrow> if i = [] then None else getReceipt (xs_store st) i
                         | None \<Rightarrow> None) of
                None \<Rightarrow> refuse NoReceipt
              | Some receipt \<Rightarrow>
                  (case refund_provider deps receipt (i_rail (si_intent si)) of
                     None \<Rightarrow> refuse NoProvider
                   | Some provider \<Rightarrow>
                       if pv_reversibility provider \<noteq> Reversible then refuse IrreversibleSettlement
                       else (case pv_refund provider of
                          None \<Rightarrow> refuse RefundsUnsupported
                        | Some do_refund \<Rightarrow>
                            let amount = nullish amountMinor (i_amount (si_intent si) - already)
                            in if amount \<le> 0 \<or> already + amount > i_amount (si_intent si)
                               then refuse InvalidRefundAmount
                               else (case do_refund receipt amount now (xs_world st) of
                                  (Inl e, w) \<Rightarrow> (Inl e, st\<lparr>xs_world := w\<rparr>)
                                | (Inr refundRef, w) \<Rightarrow>
                                    change_intent intentId (no_update\<lparr>iu_refundedMinor := Some (already + amount)\<rparr>)
                                      (record_event deps PaymentRefunded
                                         (PaymentRefundedP intentId amount refundRef reason) now)
                                      \<lparr>rf_intentId = intentId, rf_ok = True, rf_refundedMinor = already + amount,
                                       rf_reason = None\<rparr>
                                      (st\<lparr>xs_world := w\<rparr>))))))"

section \<open>Mandate changes\<close>

definition amendMandate :: "'r exec_deps \<Rightarrow> str \<Rightarrow> str \<Rightarrow> mandate_patch \<Rightarrow> 'r exec_state \<Rightarrow> 'r exec_state" where
  "amendMandate deps now i patch st =
     record_event deps MandateAmended (MandateAmendedP i patch) now
       (st\<lparr>xs_store := updateMandate i patch (xs_store st)\<rparr>)"

definition no_patch :: mandate_patch where
  "no_patch = \<lparr>mp_label = None, mp_scope = None, mp_currency = None, mp_allowedRails = None,
     mp_perTxCap = None, mp_perPeriodCap = None, mp_period = None, mp_grantedAt = None,
     mp_expiresAt = None, mp_status = None\<rparr>"

definition extendMandate :: "'r exec_deps \<Rightarrow> str \<Rightarrow> str \<Rightarrow> str \<Rightarrow> 'r exec_state \<Rightarrow> 'r exec_state" where
  "extendMandate deps now i expiresAt st =
     record_event deps MandateAmended (MandateExtendedP i expiresAt) now
       (st\<lparr>xs_store := updateMandate i (no_patch\<lparr>mp_expiresAt := Some expiresAt\<rparr>) (xs_store st)\<rparr>)"

end
