(* ===== verification/Executor_Safety.thy ===== *)
theory Executor_Safety
  imports Executor
begin

text \<open>
  What the executor promises. The locale \<open>payment_invariant\<close> is the interface between an invariant of the
  state and the operations that move money: an invariant that the elementary writes keep is kept by
  every operation. \<open>exec_invariant\<close> extends it by the changes of a mandate. Four interpretations: the
  signed log verifies and is mirrored in the store; the log only grows; the store is well formed; the
  operations that move money leave the mandates alone.

  The other lemmas follow one operation (the properties are in Executor_Promises): when the rail is reached, what is on record when it was, what
  the kill switch and the circuit breaker stop, and what a refund may do.
\<close>

section \<open>What the elementary writes leave alone\<close>

named_theorems exec_frame \<open>the parts of the state that an elementary write leaves alone\<close>

lemma record_event_frame [exec_frame, simp]:
  "xs_world (record_event deps t p ts st) = xs_world st"
  "st_intents (xs_store (record_event deps t p ts st)) = st_intents (xs_store st)"
  "st_mandates (xs_store (record_event deps t p ts st)) = st_mandates (xs_store st)"
  "st_receipts (xs_store (record_event deps t p ts st)) = st_receipts (xs_store st)"
  "st_meta (xs_store (record_event deps t p ts st)) = st_meta (xs_store st)"
  "getIntent (xs_store (record_event deps t p ts st)) i = getIntent (xs_store st) i"
  "getMeta (xs_store (record_event deps t p ts st)) k = getMeta (xs_store st) k"
  "getReceipt (xs_store (record_event deps t p ts st)) k = getReceipt (xs_store st) k"
  by (simp_all add: record_event_def Let_def appendAudit_def getIntent_def getMeta_def getReceipt_def)

lemma record_decision_frame [exec_frame, simp]:
  "xs_world (record_decision deps p ts st) = xs_world st"
  "st_intents (xs_store (record_decision deps p ts st)) = st_intents (xs_store st)"
  "st_mandates (xs_store (record_decision deps p ts st)) = st_mandates (xs_store st)"
  "getIntent (xs_store (record_decision deps p ts st)) i = getIntent (xs_store st) i"
  "getMeta (xs_store (record_decision deps p ts st)) k = getMeta (xs_store st) k"
  by (simp_all add: record_decision_def)

lemma recordOutcome_frame [exec_frame, simp]:
  "xs_world (recordOutcome ok st) = xs_world st"
  "xs_log (recordOutcome ok st) = xs_log st"
  "st_intents (xs_store (recordOutcome ok st)) = st_intents (xs_store st)"
  "st_mandates (xs_store (recordOutcome ok st)) = st_mandates (xs_store st)"
  "st_receipts (xs_store (recordOutcome ok st)) = st_receipts (xs_store st)"
  "getIntent (xs_store (recordOutcome ok st)) i = getIntent (xs_store st) i"
  by (simp_all add: recordOutcome_def setMeta_def getIntent_def)

lemma file_intent_world:
  assumes "file_intent si after res st = (r, st')" "\<And>x. xs_world (after x) = xs_world x"
  shows "xs_world st' = xs_world st"
  using assms by (auto simp: file_intent_def split: sum.splits)

lemma change_intent_world:
  assumes "change_intent i u after res st = (r, st')" "\<And>x. xs_world (after x) = xs_world x"
  shows "xs_world st' = xs_world st"
  using assms by (auto simp: change_intent_def split: sum.splits)

section \<open>The branches of an operation\<close>

lemma file_intent_cases:
  assumes "file_intent si after res st = (r, st')"
  obtains (duplicate) e where "insertIntent si (xs_store st) = Inl e" "r = Inl e" "st' = st"
  | (filed) s' where "insertIntent si (xs_store st) = Inr s'" "r = Inr res" "st' = after (st\<lparr>xs_store := s'\<rparr>)"
  using assms by (cases "insertIntent si (xs_store st)") (auto simp: file_intent_def)

lemma change_intent_cases:
  assumes "change_intent i u after res st = (r, st')"
  obtains (missing) e where "updateIntent i u (xs_store st) = Inl e" "r = Inl e" "st' = st"
  | (changed) s' where "updateIntent i u (xs_store st) = Inr s'" "r = Inr res" "st' = after (st\<lparr>xs_store := s'\<rparr>)"
  using assms by (cases "updateIntent i u (xs_store st)") (auto simp: change_intent_def)

lemma escalate_AutoExecute:
  "gd_outcome (escalate a d) = AutoExecute \<longleftrightarrow> a = None \<and> gd_outcome d = AutoExecute"
  by (auto simp: escalate_def split: option.splits)

lemma escalate_Block: "gd_outcome (escalate a d) = Block \<longleftrightarrow> gd_outcome d = Block"
  by (auto simp: escalate_def split: option.splits)

definition exec_gate ::
  "'r exec_deps \<Rightarrow> str \<Rightarrow> payment_intent \<Rightarrow> attestation option \<Rightarrow> 'r exec_state \<Rightarrow> js_error + gate_decision" where
  "exec_gate deps now intent att st = evaluateGate intent (exec_context deps (xs_store st) now intent att)"

definition exec_alert :: "str \<Rightarrow> payment_intent \<Rightarrow> gate_decision \<Rightarrow> 'r exec_state \<Rightarrow> alert" where
  "exec_alert now intent gated st =
     evaluateRiskChain intent (xs_log st) (chain_options (xs_store st) gated now)"

lemma execute_decide_cases:
  assumes "execute_decide deps now intent att st = (pr, st')"
  obtains (halted) halt res where "haltReason deps (xs_store st) = Some halt" "pr = Finished res"
      "file_intent (stored intent Blocked None [HaltedReason halt] None None) (\<lambda>x. x)
         (exec_result (i_id intent) Blocked (haltDecision halt) None None)
         (record_event deps PaymentHalted (PaymentHaltedP (i_id intent) PhaseAgent halt) now st) = (res, st')"
  | (error) e where "haltReason deps (xs_store st) = None" "pr = Finished (Inl e)" "st' = st"
  | (blocked) gated inputs d res where "haltReason deps (xs_store st) = None"
      "exec_gate deps now intent att st = Inr gated" "d = escalate (exec_alert now intent gated st) gated"
      "capture_inputs deps (xs_store st) now intent att = Inr inputs" "gd_outcome d = Block" "pr = Finished res"
      "file_intent (stored intent Blocked (gd_mandateId d) (gd_reasons d) None None) (recordOutcome False)
         (exec_result (i_id intent) Blocked d None None)
         (record_decision deps (agent_payload deps intent d inputs) now st) = (res, st')"
  | (parked) gated inputs d res where "haltReason deps (xs_store st) = None"
      "exec_gate deps now intent att st = Inr gated" "d = escalate (exec_alert now intent gated st) gated"
      "capture_inputs deps (xs_store st) now intent att = Inr inputs" "gd_outcome d = ConfirmOperator" "pr = Finished res"
      "file_intent (stored intent Pending (gd_mandateId d) (gd_reasons d) None None) (\<lambda>x. x)
         (exec_result (i_id intent) Pending d None None)
         (record_decision deps (agent_payload deps intent d inputs) now st) = (res, st')"
  | (rail) d inputs where "haltReason deps (xs_store st) = None"
      "exec_gate deps now intent att st = Inr d" "gd_outcome d = AutoExecute" "exec_alert now intent d st = None"
      "capture_inputs deps (xs_store st) now intent att = Inr inputs" "pr = ToRail d"
      "st' = record_decision deps (agent_payload deps intent d inputs) now st"
proof (cases "haltReason deps (xs_store st)")
  case (Some halt)
  obtain res s2 where fi: "file_intent (stored intent Blocked None [HaltedReason halt] None None) (\<lambda>x. x)
         (exec_result (i_id intent) Blocked (haltDecision halt) None None)
         (record_event deps PaymentHalted (PaymentHaltedP (i_id intent) PhaseAgent halt) now st) = (res, s2)"
    by fastforce
  moreover have "gd_reasons (haltDecision halt) = [HaltedReason halt]" by (simp add: haltDecision_def)
  ultimately show thesis
    using assms Some by (intro halted [of halt res]) (simp_all add: execute_decide_def Let_def)
next
  case halt: None
  show thesis
  proof (cases "exec_gate deps now intent att st")
    case (Inl e)
    then show thesis
      using halt assms by (intro error) (auto simp: execute_decide_def exec_gate_def)
  next
    case gate: (Inr gated)
    show thesis
    proof (cases "capture_inputs deps (xs_store st) now intent att")
      case (Inl e)
      then show thesis
        using halt gate assms by (intro error) (auto simp: execute_decide_def exec_gate_def Let_def)
    next
      case inputs: (Inr inputs)
      define d where "d = escalate (exec_alert now intent gated st) gated"
      note run = assms [unfolded execute_decide_def Let_def halt option.case gate [unfolded exec_gate_def] sum.case
          exec_alert_def [symmetric] d_def [symmetric] inputs]
      show thesis
      proof (cases "gd_outcome d")
        case AutoExecute
        then have "exec_alert now intent gated st = None" "gd_outcome gated = AutoExecute" "d = gated"
          by (simp_all add: d_def escalate_AutoExecute) (simp add: escalate_def)
        with AutoExecute show thesis
          using halt gate inputs run by (intro rail [of d inputs]) auto
      next
        case ConfirmOperator
        obtain res s2 where "file_intent (stored intent Pending (gd_mandateId d) (gd_reasons d) None None)
            (\<lambda>x. x) (exec_result (i_id intent) Pending d None None)
            (record_decision deps (agent_payload deps intent d inputs) now st) = (res, s2)"
          by fastforce
        with ConfirmOperator show thesis
          using halt gate inputs run d_def
          by (intro parked [of gated d inputs res]) simp_all
      next
        case Block
        obtain res s2 where "file_intent (stored intent Blocked (gd_mandateId d) (gd_reasons d) None None)
            (recordOutcome False) (exec_result (i_id intent) Blocked d None None)
            (record_decision deps (agent_payload deps intent d inputs) now st) = (res, s2)"
          by fastforce
        with Block show thesis
          using halt gate inputs run d_def
          by (intro blocked [of gated d inputs res]) simp_all
      qed
    qed
  qed
qed

lemma approve_decide_cases:
  assumes "approve_decide deps now i why ack st = (pr, st')"
  obtains (refused) e where "pr = Finished (Inl e)" "st' = st"
  | (halted) si halt where "getIntent (xs_store st) i = Some si" "haltReason deps (xs_store st) = Some halt"
      "pr = Finished (Inr (exec_result i Blocked (haltDecision halt) None None))"
      "st' = record_event deps PaymentHalted (PaymentHaltedP i PhaseOperatorApproval halt) now st"
  | (blocked) si d res where "getIntent (xs_store st) i = Some si" "si_status si = Pending"
      "haltReason deps (xs_store st) = None" "exec_gate deps now (si_intent si) None st = Inr d"
      "gd_outcome d = Block" "pr = Finished res"
      "change_intent i (no_update\<lparr>iu_status := Some Blocked, iu_reasons := Some (gd_reasons d)\<rparr>)
         (recordOutcome False) (exec_result i Blocked d None None)
         (record_decision deps (approval_payload i d why ack) now st) = (res, st')"
  | (challenged) si d r where "getIntent (xs_store st) i = Some si" "si_status si = Pending"
      "haltReason deps (xs_store st) = None" "exec_gate deps now (si_intent si) None st = Inr d"
      "gd_outcome d \<noteq> Block" "requiresChallenge deps (si_intent si) d" "\<not> ack" "pr = Finished (Inr r)"
      "xr_status r = Pending" "st' = record_decision deps (approval_payload i d why ack) now st"
  | (rail) si d where "getIntent (xs_store st) i = Some si" "si_status si = Pending"
      "haltReason deps (xs_store st) = None" "exec_gate deps now (si_intent si) None st = Inr d"
      "gd_outcome d \<noteq> Block" "requiresChallenge deps (si_intent si) d \<longrightarrow> ack" "pr = ToRail d"
      "st' = record_decision deps (approval_payload i d why ack) now st"
proof (cases "getIntent (xs_store st) i")
  case None
  then show thesis using assms by (intro refused) (auto simp: approve_decide_def)
next
  case si: (Some si)
  show thesis
  proof (cases "si_status si = Pending")
    case False
    with si show thesis using assms by (intro refused) (auto simp: approve_decide_def)
  next
    case pend: True
    show thesis
    proof (cases "haltReason deps (xs_store st)")
      case (Some halt)
      with si pend show thesis using assms by (intro halted) (auto simp: approve_decide_def)
    next
      case halt: None
      show thesis
      proof (cases "exec_gate deps now (si_intent si) None st")
        case (Inl e)
        with si pend halt show thesis
          using assms by (intro refused) (auto simp: approve_decide_def exec_gate_def)
      next
        case gate: (Inr d)
        note run = assms [unfolded approve_decide_def Let_def si option.case halt
            gate [unfolded exec_gate_def] sum.case]
        consider "gd_outcome d = Block" | "gd_outcome d \<noteq> Block" "requiresChallenge deps (si_intent si) d \<and> \<not> ack"
          | "gd_outcome d \<noteq> Block" "\<not> (requiresChallenge deps (si_intent si) d \<and> \<not> ack)" by blast
        then show thesis
        proof cases
          case 1
          obtain res s2 where "change_intent i
              (no_update\<lparr>iu_status := Some Blocked, iu_reasons := Some (gd_reasons d)\<rparr>)
              (recordOutcome False) (exec_result i Blocked d None None)
              (record_decision deps (approval_payload i d why ack) now st) = (res, s2)"
            by fastforce
          with 1 show thesis
            using si pend halt gate run by (intro blocked [of si d res]) simp_all
        next
          case 2
          then show thesis
            using si pend halt gate run by (intro challenged [of si d]) (auto simp: exec_result_def)
        next
          case 3
          then show thesis
            using si pend halt gate run by (intro rail [of si d]) auto
        qed
      qed
    qed
  qed
qed

lemma refund_cases:
  assumes "refund deps now i amt why st = (res, st')"
  obtains (refused) e where "res = Inl e" "st' = st"
  | (declined) r where "res = Inr r" "\<not> rf_ok r" "st' = st"
  | (rail) si rc p do_refund amount answer w where "getIntent (xs_store st) i = Some si"
      "si_status si = Settled" "getReceipt (xs_store st) (nullish (si_receiptId si) []) = Some rc"
      "refund_provider deps rc (i_rail (si_intent si)) = Some p" "pv_reversibility p = Reversible"
      "pv_refund p = Some do_refund"
      "amount = nullish amt (i_amount (si_intent si) - nullish (si_refundedMinor si) 0)"
      "0 < amount" "nullish (si_refundedMinor si) 0 + amount \<le> i_amount (si_intent si)"
      "do_refund rc amount now (xs_world st) = (answer, w)"
      "(case answer of
          Inl e \<Rightarrow> (Inl e, st\<lparr>xs_world := w\<rparr>)
        | Inr refundRef \<Rightarrow>
            change_intent i (no_update\<lparr>iu_refundedMinor := Some (nullish (si_refundedMinor si) 0 + amount)\<rparr>)
              (record_event deps PaymentRefunded (PaymentRefundedP i amount refundRef why) now)
              \<lparr>rf_intentId = i, rf_ok = True, rf_refundedMinor = nullish (si_refundedMinor si) 0 + amount,
               rf_reason = None\<rparr> (st\<lparr>xs_world := w\<rparr>)) = (res, st')"
proof (cases "getIntent (xs_store st) i")
  case None
  then show thesis using assms by (intro refused) (auto simp: refund_def)
next
  case si: (Some si)
  let ?rc = "case si_receiptId si of Some j \<Rightarrow> if j = [] then None else getReceipt (xs_store st) j | None \<Rightarrow> None"
  let ?amt = "nullish amt (i_amount (si_intent si) - nullish (si_refundedMinor si) 0)"
  have stop: thesis if "(Inr (refuse_refund i (nullish (si_refundedMinor si) 0) why'), st) = (res, st')" for why'
    using that by (intro declined) (auto simp: refuse_refund_def)
  note run = assms [unfolded refund_def Let_def si option.case]
  show thesis
  proof (cases "si_status si = Settled \<and> ?rc \<noteq> None")
    case False
    with run stop show thesis by (auto split: if_splits)
  next
    case True
    then obtain rc where st: "si_status si = Settled" and rc: "?rc = Some rc" by blast
    then have rc': "getReceipt (xs_store st) (nullish (si_receiptId si) []) = Some rc"
      by (auto split: option.splits if_splits)
    show thesis
    proof (cases "refund_provider deps rc (i_rail (si_intent si))")
      case None
      with run stop st rc show thesis by auto
    next
      case p: (Some p)
      show thesis
      proof (cases "pv_reversibility p = Reversible \<and> pv_refund p \<noteq> None \<and> 0 < ?amt \<and>
          nullish (si_refundedMinor si) 0 + ?amt \<le> i_amount (si_intent si)")
        case False
        with run stop st rc p show thesis by (auto split: if_splits option.splits simp: not_le not_less)
      next
        case True
        then obtain f where f: "pv_refund p = Some f" by blast
        obtain answer w where ans: "f rc ?amt now (xs_world st) = (answer, w)" by (cases "f rc ?amt now (xs_world st)")
        from run st rc p True f ans show thesis
          by (intro rail [OF si st rc' p _ f refl _ _ ans]) (auto split: sum.splits)
      qed
    qed
  qed
qed

section \<open>Invariants of the state\<close>

locale payment_invariant =
  fixes deps :: "'r exec_deps" and Inv :: "'r exec_state \<Rightarrow> bool"
  assumes inv_record: "Inv st \<Longrightarrow> Inv (record_event deps t p ts st)"
    and inv_receipt: "Inv st \<Longrightarrow> Inv (st\<lparr>xs_store := insertReceipt r (xs_store st)\<rparr>)"
    and inv_insert: "Inv st \<Longrightarrow> insertIntent si (xs_store st) = Inr s' \<Longrightarrow> Inv (st\<lparr>xs_store := s'\<rparr>)"
    and inv_update: "Inv st \<Longrightarrow> updateIntent i u (xs_store st) = Inr s' \<Longrightarrow> Inv (st\<lparr>xs_store := s'\<rparr>)"
    and inv_meta: "k \<in> {KILL_KEY, FAIL_KEY} \<Longrightarrow> Inv st \<Longrightarrow> Inv (st\<lparr>xs_store := setMeta k v (xs_store st)\<rparr>)"
    and inv_world: "Inv st \<Longrightarrow> Inv (st\<lparr>xs_world := w\<rparr>)"
begin

lemma inv_decision: "Inv st \<Longrightarrow> Inv (record_decision deps p ts st)"
  unfolding record_decision_def by (rule inv_record)

lemma inv_outcome: "Inv st \<Longrightarrow> Inv (recordOutcome ok st)"
  unfolding recordOutcome_def by (rule inv_meta) simp_all

lemma inv_file:
  assumes "file_intent si after res st = (r, st')" "Inv st" "\<And>x. Inv x \<Longrightarrow> Inv (after x)"
  shows "Inv st'"
  using assms(1) by (cases rule: file_intent_cases) (auto intro: assms inv_insert)

lemma inv_change:
  assumes "change_intent i u after res st = (r, st')" "Inv st" "\<And>x. Inv x \<Longrightarrow> Inv (after x)"
  shows "Inv st'"
  using assms(1) by (cases rule: change_intent_cases) (auto intro: assms inv_update)

lemma inv_settle_record:
  assumes "Inv st" "settle_record deps p intent now answer st = (out, st')"
  shows "Inv st'"
  using assms by (auto simp: settle_record_def Let_def inv_record inv_receipt split: sum.splits)

lemma inv_settle:
  assumes "Inv st" "settle deps intent now st = (out, st')"
  shows "Inv st'"
  using assms by (auto simp: settle_def split: option.splits prod.splits
      intro: inv_settle_record [OF inv_world])

lemma inv_execute_decide:
  assumes inv: "Inv st" and run: "execute_decide deps now intent att st = (pr, st')"
  shows "Inv st'"
  using run
proof (cases rule: execute_decide_cases)
  case halted
  then show ?thesis by (elim inv_file) (auto intro: inv inv_record)
next
  case error
  with inv show ?thesis by simp
next
  case blocked
  then show ?thesis by (elim inv_file) (auto intro: inv inv_decision inv_outcome)
next
  case parked
  then show ?thesis by (elim inv_file) (auto intro: inv inv_decision)
next
  case rail
  with inv show ?thesis by (simp add: inv_decision)
qed

lemma inv_execute_record:
  assumes "Inv st" "execute_record intent d outcome st = (res, st')"
  shows "Inv st'"
  using assms(2) unfolding execute_record_def
  by (cases outcome) (auto split: prod.splits elim!: inv_file intro: assms(1) inv_outcome)

lemma inv_execute:
  assumes "Inv st" "execute deps now intent att st = (res, st')"
  shows "Inv st'"
proof -
  obtain pr st1 where dec: "execute_decide deps now intent att st = (pr, st1)"
    by (cases "execute_decide deps now intent att st")
  note inv = inv_execute_decide [OF assms(1) dec]
  show ?thesis
  proof (cases pr)
    case (Finished r)
    with assms(2) dec inv show ?thesis by (simp add: execute_def)
  next
    case (ToRail d)
    obtain out st2 where set: "settle deps intent now st1 = (out, st2)"
      by (cases "settle deps intent now st1")
    from inv_execute_record [OF inv_settle [OF inv set]] assms(2) dec ToRail set show ?thesis
      by (simp add: execute_def)
  qed
qed

lemma inv_approve_decide:
  assumes inv: "Inv st" and run: "approve_decide deps now i why ack st = (pr, st')"
  shows "Inv st'"
  using run
proof (cases rule: approve_decide_cases)
  case blocked
  then show ?thesis by (elim inv_change) (auto intro: inv inv_decision inv_outcome)
qed (use inv in \<open>simp_all add: inv_record inv_decision\<close>)

lemma inv_approve_record:
  assumes "Inv st" "approve_record i d outcome st = (res, st')"
  shows "Inv st'"
  using assms(2) unfolding approve_record_def
  by (cases outcome) (auto split: prod.splits elim!: inv_change intro: assms(1) inv_outcome)

lemma inv_approve:
  assumes "Inv st" "approve deps now i why ack st = (res, st')"
  shows "Inv st'"
proof -
  obtain pr st1 where dec: "approve_decide deps now i why ack st = (pr, st1)"
    by (cases "approve_decide deps now i why ack st")
  note inv = inv_approve_decide [OF assms(1) dec]
  show ?thesis
  proof (cases pr)
    case (Finished r)
    with assms(2) dec inv show ?thesis by (simp add: approve_def)
  next
    case rail: (ToRail d)
    show ?thesis
    proof (cases "getIntent (xs_store st) i")
      case None
      with assms(2) dec rail inv show ?thesis by (simp add: approve_def)
    next
      case (Some si)
      obtain out st2 where set: "settle deps (si_intent si) now st1 = (out, st2)"
        by (cases "settle deps (si_intent si) now st1")
      from inv_approve_record [OF inv_settle [OF inv set]] assms(2) dec rail Some set show ?thesis
        by (simp add: approve_def)
    qed
  qed
qed

lemma inv_refund:
  assumes inv: "Inv st" and run: "refund deps now i amt why st = (res, st')"
  shows "Inv st'"
  using run
proof (cases rule: refund_cases)
  case (rail si rc p do_refund amount answer w)
  show ?thesis
  proof (cases answer)
    case (Inl e)
    with rail inv show ?thesis by (auto intro: inv_world)
  next
    case (Inr ref)
    with rail(11) show ?thesis
      by simp (erule inv_change, auto intro: inv inv_world inv_record)
  qed
qed (use inv in simp_all)

lemma inv_operator:
  "Inv st \<Longrightarrow> Inv (engageKillSwitch st)" "Inv st \<Longrightarrow> Inv (disengageKillSwitch st)"
  "Inv st \<Longrightarrow> Inv (resetCircuitBreaker st)"
  unfolding engageKillSwitch_def disengageKillSwitch_def resetCircuitBreaker_def by (simp_all add: inv_meta)

end

locale exec_invariant = payment_invariant deps Inv for deps :: "'r exec_deps" and Inv +
  assumes inv_patch: "Inv st \<Longrightarrow> Inv (st\<lparr>xs_store := updateMandate i patch (xs_store st)\<rparr>)"
begin

lemma inv_mandate_changes:
  "Inv st \<Longrightarrow> Inv (amendMandate deps now i patch st)"
  "Inv st \<Longrightarrow> Inv (extendMandate deps now i t st)"
  unfolding amendMandate_def extendMandate_def by (simp_all add: inv_record inv_patch)

end

section \<open>Interpretations\<close>

definition audited :: "'r exec_deps \<Rightarrow> 'r exec_state \<Rightarrow> bool" where
  "audited deps st \<longleftrightarrow>
     vr_valid (audit_verify (xd_crypto deps) (SingleKey (xd_key deps)) (xs_log st)) \<and>
     st_audit (xs_store st) = xs_log st"

lemma store_audit_frame [exec_frame]:
  "st_audit (insertReceipt r s) = st_audit s" "st_audit (setMeta k v s) = st_audit s"
  "st_audit (updateMandate i p s) = st_audit s" "st_audit (revokeMandate i s) = st_audit s"
  "insertIntent si s = Inr s' \<Longrightarrow> st_audit s' = st_audit s"
  "updateIntent i u s = Inr s' \<Longrightarrow> st_audit s' = st_audit s"
  "insertMandate m s = Inr s' \<Longrightarrow> st_audit s' = st_audit s"
  by (auto simp: insertReceipt_def setMeta_def updateMandate_def revokeMandate_def insertIntent_def
      updateIntent_def insertMandate_def split: option.splits if_splits)

lemma record_event_log: "xs_log (record_event deps t p ts st) =
    log_record (xd_crypto deps) (xd_key deps) t p ts (xs_log st)"
  by (simp add: record_event_def Let_def)

lemma audited_record: "audited deps st \<Longrightarrow> audited deps (record_event deps t p ts st)"
  using single_key_log.valid_record [of "xd_crypto deps" "xd_key deps" "xs_log st" t p ts]
  by (simp add: audited_def record_event_def Let_def appendAudit_def log_record_def)

interpretation trail: exec_invariant deps "audited deps" for deps
  by unfold_locales (simp_all add: audited_record, simp_all add: audited_def exec_frame)

interpretation growth: exec_invariant deps "\<lambda>st. \<exists>es. xs_log st = l0 @ es" for deps l0
  by unfold_locales (auto simp: record_event_log log_record_def)

lemma store_wf_record: "store_wf (xs_store st) \<Longrightarrow> store_wf (xs_store (record_event deps t p ts st))"
  by (simp add: record_event_def Let_def store_wf_appendAudit)

interpretation authority: payment_invariant deps "\<lambda>st. st_mandates (xs_store st) = M" for deps M
  by unfold_locales (auto simp: insertIntent_def updateIntent_def ledger_simps split: if_splits option.splits)

interpretation wf: exec_invariant deps "\<lambda>st. store_wf (xs_store st)" for deps
  by unfold_locales
     (auto intro: store_wf_record store_wf_insertIntent store_wf_updateIntent)

section \<open>Reaching the rail\<close>

lemma settle_record_world: "settle_record deps p intent now answer st = (out, st') \<Longrightarrow> xs_world st' = xs_world st"
  by (auto simp: settle_record_def Let_def split: sum.splits)

lemma settle_cases:
  assumes "settle deps intent now st = (out, st')"
  obtains (no_provider) "registry_get (xd_rails deps) (i_rail intent) = None" "st' = st"
      "out = Inl (no_provider_error (i_rail intent))"
  | (provider) p answer w where "registry_get (xd_rails deps) (i_rail intent) = Some p"
      "pv_settle p intent now (xs_world st) = (answer, w)" "xs_world st' = w"
      "settle_record deps p intent now answer (st\<lparr>xs_world := w\<rparr>) = (out, st')"
proof (cases "registry_get (xd_rails deps) (i_rail intent)")
  case None
  with assms show thesis by (intro no_provider) (auto simp: settle_def)
next
  case (Some p)
  obtain answer w where a: "pv_settle p intent now (xs_world st) = (answer, w)"
    by (cases "pv_settle p intent now (xs_world st)")
  with assms Some settle_record_world [of deps p intent now answer "st\<lparr>xs_world := w\<rparr>" out st'] show thesis
    by (intro provider [OF Some a]) (auto simp: settle_def)
qed

lemma settle_record_InrD:
  assumes "settle_record deps p intent now answer st = (Inr (rc, v), st')"
  obtains r0 where "answer = Inr r0" "rc = r0\<lparr>r_providerId := Some (pv_id p)\<rparr>"
    "pv_verifyReceipt p rc (xs_world st) = Inr v"
    "st' = record_event deps PaymentVerified (PaymentVerifiedP (i_id intent) (r_id rc) v) (r_settledAt rc)
      (record_event deps PaymentSettled
        (PaymentSettledP (i_id intent) (r_id rc) (i_amount intent) (i_currency intent) (i_rail intent))
        (r_settledAt rc) (st\<lparr>xs_store := insertReceipt rc (xs_store st)\<rparr>))"
proof -
  from assms obtain r0 where r0: "answer = Inr r0" by (cases answer) (auto simp: settle_record_def)
  then have "rc = r0\<lparr>r_providerId := Some (pv_id p)\<rparr>"
    using assms by (auto simp: settle_record_def Let_def split: sum.splits)
  with r0 assms show thesis
    by (intro that) (auto simp: settle_record_def Let_def split: sum.splits)
qed

lemma execute_record_world: "execute_record intent d out st = (res, st') \<Longrightarrow> xs_world st' = xs_world st"
  unfolding execute_record_def
  by (cases out) (auto split: prod.splits dest!: file_intent_world)

lemma approve_record_world: "approve_record i d out st = (res, st') \<Longrightarrow> xs_world st' = xs_world st"
  unfolding approve_record_def
  by (cases out) (auto split: prod.splits dest!: change_intent_world)

lemma execute_decide_world: "execute_decide deps now intent att st = (pr, st') \<Longrightarrow> xs_world st' = xs_world st"
  by (erule execute_decide_cases) (auto dest!: file_intent_world)

lemma approve_decide_world: "approve_decide deps now i why ack st = (pr, st') \<Longrightarrow> xs_world st' = xs_world st"
  by (erule approve_decide_cases) (auto dest!: change_intent_world)

text \<open>An execution either stops before the rail, or runs decide, settle and record in turn.\<close>

lemma execute_cases:
  assumes "execute deps now intent att st = (res, st')"
  obtains (stopped) "execute_decide deps now intent att st = (Finished res, st')"
  | (settled) d st1 out st2 where "execute_decide deps now intent att st = (ToRail d, st1)"
      "settle deps intent now st1 = (out, st2)" "execute_record intent d out st2 = (res, st')"
  using assms by (auto simp: execute_def split: prod.splits progress.splits)

lemma approve_cases:
  assumes "approve deps now i why ack st = (res, st')"
  obtains (stopped) "approve_decide deps now i why ack st = (Finished res, st')"
  | (settled) si d st1 out st2 where "getIntent (xs_store st) i = Some si"
      "approve_decide deps now i why ack st = (ToRail d, st1)"
      "settle deps (si_intent si) now st1 = (out, st2)" "approve_record i d out st2 = (res, st')"
proof (cases "approve_decide deps now i why ack st")
  case (Pair pr st1)
  show thesis
  proof (cases pr)
    case (Finished r)
    with Pair assms show thesis by (intro stopped) (auto simp: approve_def)
  next
    case (ToRail d)
    with Pair have "approve_decide deps now i why ack st = (ToRail d, st1)" by simp
    then obtain si where si: "getIntent (xs_store st) i = Some si"
      by (cases rule: approve_decide_cases) auto
    obtain out st2 where "settle deps (si_intent si) now st1 = (out, st2)"
      by (cases "settle deps (si_intent si) now st1")
    with Pair ToRail si assms show thesis by (intro settled) (auto simp: approve_def)
  qed
qed

section \<open>Halting\<close>

lemma halted_execute:
  assumes "haltReason deps (xs_store st) = Some h" "execute deps now intent att st = (res, st')"
  shows "xs_world st' = xs_world st" "\<And>r. res = Inr r \<Longrightarrow> xr_status r = Blocked \<and> xr_receipt r = None"
proof -
  from assms have "execute_decide deps now intent att st = (Finished res, st')"
    by (cases rule: execute_cases [OF assms(2)]) (auto elim: execute_decide_cases)
  then have "xs_world st' = xs_world st \<and> (\<forall>r. res = Inr r \<longrightarrow> xr_status r = Blocked \<and> xr_receipt r = None)"
    by (cases rule: execute_decide_cases)
       (use assms(1) execute_decide_world in \<open>auto simp: exec_result_def elim!: file_intent_cases\<close>)
  then show "xs_world st' = xs_world st" "\<And>r. res = Inr r \<Longrightarrow> xr_status r = Blocked \<and> xr_receipt r = None"
    by auto
qed

lemma halted_approve:
  assumes "haltReason deps (xs_store st) = Some h" "approve deps now i why ack st = (res, st')"
  shows "xs_world st' = xs_world st" "\<And>r. res = Inr r \<Longrightarrow> xr_status r = Blocked \<and> xr_receipt r = None"
proof -
  from assms have "approve_decide deps now i why ack st = (Finished res, st')"
    by (cases rule: approve_cases [OF assms(2)]) (auto elim: approve_decide_cases)
  then have "xs_world st' = xs_world st \<and> (\<forall>r. res = Inr r \<longrightarrow> xr_status r = Blocked \<and> xr_receipt r = None)"
    by (cases rule: approve_decide_cases) (use assms(1) in \<open>auto simp: exec_result_def\<close>)
  then show "xs_world st' = xs_world st" "\<And>r. res = Inr r \<Longrightarrow> xr_status r = Blocked \<and> xr_receipt r = None"
    by auto
qed

lemma js_number_show_nat [simp]: "js_number (show_nat n) = Some n"
  by (simp add: js_number_def)

lemma js_zero: "js ''0'' = show_nat 0"
  by (simp add: js_def show_nat.simps [of 0])

lemma kill_fail_distinct [simp]: "KILL_KEY \<noteq> FAIL_KEY" "FAIL_KEY \<noteq> KILL_KEY"
  by (simp_all add: KILL_KEY_def FAIL_KEY_def)

lemma failures_after_outcome:
  "failures (xs_store (recordOutcome True st)) = Some 0"
  "failures (xs_store st) = Some n \<Longrightarrow> failures (xs_store (recordOutcome False st)) = Some (n + 1)"
  by (simp_all add: recordOutcome_def failures_def getMeta_setMeta js_zero)

lemma failures_cong: "st_meta s = st_meta s' \<Longrightarrow> failures s = failures s'"
  by (simp add: failures_def getMeta_def)

lemma insert_meta: "insertIntent si s = Inr s' \<Longrightarrow> st_meta s' = st_meta s \<and> st_receipts s' = st_receipts s \<and> st_mandates s' = st_mandates s"
  by (auto simp: insertIntent_def split: if_splits)

lemma update_meta: "updateIntent i u s = Inr s' \<Longrightarrow> st_meta s' = st_meta s \<and> st_receipts s' = st_receipts s \<and> st_mandates s' = st_mandates s"
  by (auto simp: updateIntent_def split: option.splits)

lemma settle_record_meta:
  assumes "settle_record deps p intent now answer st = (out, st')"
  shows "st_meta (xs_store st') = st_meta (xs_store st) \<and> st_mandates (xs_store st') = st_mandates (xs_store st) \<and>
    st_intents (xs_store st') = st_intents (xs_store st)"
proof (cases answer)
  case (Inl e)
  with assms show ?thesis by (auto simp: settle_record_def)
next
  case (Inr r0)
  with assms show ?thesis
    by (auto simp: settle_record_def Let_def insertReceipt_def split: sum.splits)
qed

lemma settle_meta:
  assumes "settle deps intent now st = (out, st')"
  shows "st_meta (xs_store st') = st_meta (xs_store st)" "st_mandates (xs_store st') = st_mandates (xs_store st)"
    "st_intents (xs_store st') = st_intents (xs_store st)"
proof -
  have "st_meta (xs_store st') = st_meta (xs_store st) \<and> st_mandates (xs_store st') = st_mandates (xs_store st) \<and>
    st_intents (xs_store st') = st_intents (xs_store st)"
    using assms by (cases rule: settle_cases) (auto dest: settle_record_meta)
  then show "st_meta (xs_store st') = st_meta (xs_store st)" "st_mandates (xs_store st') = st_mandates (xs_store st)"
    "st_intents (xs_store st') = st_intents (xs_store st)" by blast+
qed

text \<open>Every completed execution moves the counter of consecutive failures as its status says.\<close>

lemma execute_counter:
  assumes "execute deps now intent att st = (Inr r, st')" "haltReason deps (xs_store st) = None"
    "failures (xs_store st) = Some n"
  shows "failures (xs_store st') =
    Some (case xr_status r of Settled \<Rightarrow> 0 | Pending \<Rightarrow> n | Blocked \<Rightarrow> n + 1 | Failed \<Rightarrow> n + 1)"
proof -
  have filed: "r = r0 \<and> failures (xs_store st') = Some (if ok then 0 else n + 1)"
    if f: "failures (xs_store st2) = Some n" and fi: "file_intent si (recordOutcome ok) r0 st2 = (Inr r, st')"
    for st2 :: "'a exec_state" and si ok r0
    using fi
  proof (cases rule: file_intent_cases)
    case (filed s')
    then have "failures s' = Some n"
      using f insert_meta [OF filed(1)] failures_cong [of s' "xs_store st2"] by simp
    with filed failures_after_outcome [of "st2\<lparr>xs_store := s'\<rparr>"] show ?thesis by (cases ok) simp_all
  qed simp
  have recorded: "failures (xs_store (record_decision deps p now st)) = Some n" for p
    using assms(3) failures_cong [of "xs_store (record_decision deps p now st)" "xs_store st"]
    by (simp add: record_decision_def)
  show ?thesis
    using assms(1)
  proof (cases rule: execute_cases)
    case stopped
    then show ?thesis
    proof (cases rule: execute_decide_cases)
      case (blocked gated inputs d res)
      with filed [OF recorded] show ?thesis by (auto simp: exec_result_def)
    next
      case (parked gated inputs d res)
      from parked(7) show ?thesis
      proof (cases rule: file_intent_cases)
        case (filed s')
        with recorded insert_meta [OF filed(1)] failures_cong [of s' "xs_store (record_decision deps (agent_payload deps intent d inputs) now st)"]
        show ?thesis using parked(6) by (simp add: exec_result_def)
      qed (use parked(6) in simp)
    qed (use assms(2) in auto)
  next
    case (settled d st1 out st2)
    from settled(1) obtain p where "st1 = record_decision deps p now st"
      by (cases rule: execute_decide_cases) auto
    with recorded have "failures (xs_store st1) = Some n" by simp
    then have n: "failures (xs_store st2) = Some n"
      using settle_meta(1) [OF settled(2)] failures_cong [of "xs_store st2" "xs_store st1"] by simp
    show ?thesis
    proof (cases out)
      case (Inl e)
      with settled(3) show ?thesis by (auto simp: execute_record_def exec_result_def dest!: filed [OF n])
    next
      case (Inr rv)
      obtain rc v where "rv = (rc, v)" by (cases rv)
      with Inr settled(3) show ?thesis by (auto simp: execute_record_def exec_result_def dest!: filed [OF n])
    qed
  qed
qed

end
