(* ===== verification/Executor_Example.thy ===== *)
theory Executor_Example
  imports Executor_Safety
begin

text \<open>
  A concrete kernel for the witnesses: one live monthly mandate, a payee that was paid once in an earlier
  month, the in-process card rail with a counter of its settlements as the world, an empty log, and the
  clock at 14 November 2023. \<open>example_state\<close> takes further intents on file, none of them settled.
\<close>

definition example_rail :: "nat provider" where
  "example_rail =
     (createFakeRail (\<lambda>_. []) Card None :: nat provider)
       \<lparr>pv_settle := (\<lambda>i now n. (fst (pv_settle (createFakeRail (\<lambda>_. []) Card None :: nat provider) i now n), n + 1))\<rparr>"

definition example_deps :: "nat exec_deps" where
  "example_deps =
     \<lparr>xd_crypto = \<lparr>sha256 = (\<lambda>s. s), hmac_sha256 = (\<lambda>k s. k @ s), num_text = (\<lambda>_. js ''n'')\<rparr>,
      xd_jcs = (\<lambda>_. js ''policy''), xd_key = js ''operator'',
      xd_rails = \<lparr>rg_providers = [example_rail], rg_routes = []\<rparr>,
      xd_config = DEFAULT_GATE_CONFIG, xd_denyRules = [], xd_breaker = None, xd_challenge = None,
      xd_fxRates = None, xd_tokenDecimals = None, xd_reputation = None\<rparr>"

definition example_now :: str where
  "example_now = iso_text 1700000000000"

definition earlier_intent :: stored_intent where
  "earlier_intent =
     (stored (gate_example_intent\<lparr>i_id := js ''pi_0''\<rparr>) Settled (Some (js ''m_1'')) []
        (Some (iso_text 1690000000000)) (Some (js ''rcpt_pi_0'')))"

definition example_state :: "stored_intent list \<Rightarrow> nat exec_state" where
  "example_state extra =
     \<lparr>xs_store = (createMemoryStore (js ''operator''))
        \<lparr>st_mandates := [(js ''m_1'', gate_example_mandate)],
         st_intents := (js ''pi_0'', earlier_intent) # map (\<lambda>si. (i_id (si_intent si), si)) extra\<rparr>,
      xs_log = [], xs_world = 0\<rparr>"

definition unsettled :: "stored_intent list \<Rightarrow> bool" where
  "unsettled extra \<longleftrightarrow> list_all (\<lambda>si. si_status si \<noteq> Settled) extra"

lemma unsettled_filter:
  "unsettled extra \<Longrightarrow> filter (\<lambda>si. si_status si = Settled \<and> P si) extra = []"
  "unsettled extra \<Longrightarrow> filter (\<lambda>si. si_status si = Settled) extra = []"
  "unsettled extra \<Longrightarrow> filter (counts_towards i start) extra = []"
  by (auto simp: unsettled_def list_all_iff filter_empty_conv counts_towards_def)

lemma example_live: "isLiveMandate gate_example_mandate example_now"
  using iso_text_less [of 1700000000000 1710000000000]
  by (simp add: isLiveMandate_def gate_example_mandate_def iso_range_def example_now_def)

lemma example_period:
  assumes "unsettled extra"
  shows "periodSpend (xs_store (example_state extra)) (js ''m_1'') example_now = Inr []"
proof -
  have "\<not> iso_text 1698796800000 \<le> iso_text 1690000000000"
    using iso_text_le [of 1698796800000 1690000000000] by (simp add: iso_range_def)
  then have "\<not> counts_towards (js ''m_1'') (iso_text 1698796800000) earlier_intent"
    by (simp add: counts_towards_def earlier_intent_def stored_def)
  with unsettled_filter(3) [OF assms] show ?thesis
    using november_2023(1)
    by (simp add: periodSpend_def example_state_def createMemoryStore_def gate_example_mandate_def
        example_now_def o_def)
qed

lemma example_store_facts:
  assumes "unsettled extra"
  shows "listActiveMandates (xs_store (example_state extra)) example_now = [gate_example_mandate]"
    "knownPayees (xs_store (example_state extra)) = [js ''acme'']"
    "payeeSettledCount (xs_store (example_state extra)) (js ''acme'') = 1"
    "xs_log (example_state extra) = []" "xs_world (example_state extra) = 0"
    "haltReason deps (xs_store (example_state extra)) = (if breaker_threshold deps = 0 then Some (BreakerOpen 0) else None)"
  using example_live unsettled_filter [OF assms]
  by (simp_all add: example_state_def createMemoryStore_def listActiveMandates_def knownPayees_def
      payeeSettledCount_def earlier_intent_def stored_def gate_example_intent_def js_set_def o_def
      haltReason_def isKilled_def getMeta_def breakerOpen_def failures_def js_zero)

lemma example_provider: "registry_get (xd_rails example_deps) Card = Some example_rail"
  by (simp add: registry_get_def example_deps_def example_rail_def createFakeRail_def)

lemma example_gate_att:
  assumes "unsettled extra" "attestation_score att = 0"
  obtains d where "exec_gate example_deps example_now gate_example_intent att (example_state extra) = Inr d"
    "gd_outcome d = AutoExecute" "gd_mandateId d = Some (js ''m_1'')" "sr_tier (gd_risk d) = TierNone"
proof -
  note facts = example_store_facts [OF assms(1)] example_period [OF assms(1)]
  let ?ctx = "exec_context example_deps (xs_store (example_state extra)) example_now gate_example_intent att"
  have ctx: "?ctx = gate_example_context\<lparr>c_periodSpend := (\<lambda>i. periodSpend (xs_store (example_state extra)) i example_now),
      c_trustOf := Some (\<lambda>payee. payeeTrust (payeeSettledCount (xs_store (example_state extra)) payee)),
      c_attestation := att, c_reversibility := Some Reversible\<rparr>"
    using facts example_provider
    by (simp add: exec_context_def gate_example_context_def example_deps_def example_now_def
        exec_convert_def exec_reputation_def gate_example_intent_def example_rail_def createFakeRail_def)
  have mandate: "gate_mandate gate_example_intent ?ctx = Some gate_example_mandate"
    using gate_example_conditions(1) by (simp add: ctx gate_mandate_def gate_example_context_def)
  have spend: "c_periodSpend ?ctx (m_id gate_example_mandate) = Inr []"
    using facts by (simp add: ctx gate_example_mandate_def)
  have win: "window_start (c_now ?ctx) (velocityWindowMinutes (c_config ?ctx)) = Inr (iso_text 1699996400000)"
    using gate_example_conditions(3) by (simp add: ctx)
  have payee: "i_payee gate_example_intent = js ''acme''" and rail: "i_rail gate_example_intent = Card"
    and amount: "i_amount gate_example_intent = 2500"
    by (simp_all add: gate_example_intent_def)
  have trust: "gate_trust gate_example_intent ?ctx = TrustSeen"
    using facts(3) payee by (simp add: ctx gate_trust_def payeeTrust_def TRUSTED_AT_def)
  have risk: "sr_tier (gate_risk gate_example_intent ?ctx []) = TierNone"
    unfolding gate_risk_def trust classify_tier classify_score
    by (simp add: ctx assms(2) reputation_score_def trust_score_def anomaly_score_def tier_of_score_def median_def
        gate_example_context_def amount)
  have "may_auto gate_example_intent ?ctx gate_example_mandate [] (iso_text 1699996400000)"
    using gate_example_conditions(4) trust risk by (simp add: ctx may_auto_def gate_example_context_def)
  from gate_auto_intro [OF mandate spend win this] show thesis
    using risk by (intro that) (auto simp: exec_gate_def gate_example_mandate_def)
qed

lemmas example_gate = example_gate_att [where att = None, simplified attestation_score_def, simplified]

lemma example_decide_att:
  assumes "unsettled extra" "attestation_score att = 0"
  obtains d p where
    "execute_decide example_deps example_now gate_example_intent att (example_state extra) =
       (ToRail d, record_decision example_deps p example_now (example_state extra))"
    "gd_mandateId d = Some (js ''m_1'')"
proof -
  note facts = example_store_facts [OF assms(1)] example_period [OF assms(1)]
  obtain d where d: "exec_gate example_deps example_now gate_example_intent att (example_state extra) = Inr d"
    "gd_outcome d = AutoExecute" "gd_mandateId d = Some (js ''m_1'')"
    using example_gate_att [OF assms] .
  have alert: "evaluateRiskChain gate_example_intent [] opts = None" for opts
    by (simp add: evaluateRiskChain_None_iff recent_decisions_def smurfing_def splitting_def probing_def
        same_payee_auto_def List.map_filter_simps)
  have "m_id gate_example_mandate = js ''m_1''" by (simp add: gate_example_mandate_def)
  with facts obtain inputs where inputs:
    "capture_inputs example_deps (xs_store (example_state extra)) example_now gate_example_intent att = Inr inputs"
    by (auto simp: capture_inputs_def Let_def)
  have "haltReason example_deps (xs_store (example_state extra)) = None"
    using facts(6) [of example_deps] by (simp add: example_deps_def breaker_threshold_def)
  with d inputs alert facts(4) show thesis
    by (intro that [of d "agent_payload example_deps gate_example_intent d inputs"])
       (simp_all add: execute_decide_def exec_gate_def escalate_def Let_def)
qed

lemmas example_decide = example_decide_att [where att = None, simplified attestation_score_def, simplified]

lemma example_rail_honest: "honest_rail example_rail"
  by unfold_locales (auto simp: example_rail_def createFakeRail_def)

lemma example_receipt:
  "\<exists>r0. pv_settle example_rail gate_example_intent example_now n = (Inr r0, n + 1) \<and>
     r_settledAt r0 = example_now \<and> r_id r0 = js ''rcpt_pi_1'' \<and>
     (\<forall>x w. pv_verifyReceipt example_rail (r0\<lparr>r_providerId := x\<rparr>) w = Inr True)"
proof -
  obtain r0 where r0: "pv_settle example_rail gate_example_intent example_now n = (Inr r0, n + 1)"
    "r_id r0 = js ''rcpt_pi_1''"
    by (simp add: example_rail_def createFakeRail_def gate_example_intent_def js_def)
  with honest_rail.binds [OF example_rail_honest r0(1)] honest_rail.verifies [OF example_rail_honest r0(1)]
  show ?thesis by auto
qed

lemma example_settle:
  "\<exists>rc st'. settle example_deps gate_example_intent example_now st = (Inr (rc, True), st') \<and>
     xs_world st' = xs_world st + 1 \<and> r_settledAt rc = example_now \<and> r_id rc = js ''rcpt_pi_1''"
proof -
  obtain r0 where "pv_settle example_rail gate_example_intent example_now (xs_world st) = (Inr r0, xs_world st + 1)"
    "r_settledAt r0 = example_now" "r_id r0 = js ''rcpt_pi_1''"
    "\<forall>x w. pv_verifyReceipt example_rail (r0\<lparr>r_providerId := x\<rparr>) w = Inr True"
    using example_receipt [of "xs_world st"] by blast
  moreover have "i_rail gate_example_intent = Card" by (simp add: gate_example_intent_def)
  ultimately show ?thesis
    using example_provider by (simp add: settle_def settle_record_def Let_def)
qed

text \<open>The payment settles, unless an intent with its id is on file: then the rail has moved and it throws.\<close>

lemma example_run_att:
  assumes "unsettled extra" "js ''pi_1'' \<notin> (\<lambda>si. i_id (si_intent si)) ` set extra"
    "attestation_score att = 0"
  shows "\<exists>r st'. execute example_deps example_now gate_example_intent att (example_state extra) = (Inr r, st') \<and>
    xr_status r = Settled \<and> xs_world st' = 1 \<and> gd_mandateId (xr_decision r) = Some (js ''m_1'')"
proof -
  obtain d p where d: "execute_decide example_deps example_now gate_example_intent att (example_state extra) =
       (ToRail d, record_decision example_deps p example_now (example_state extra))"
    "gd_mandateId d = Some (js ''m_1'')"
    using example_decide_att [OF assms(1,3)] .
  let ?st1 = "record_decision example_deps p example_now (example_state extra)"
  obtain rc st2 where s: "settle example_deps gate_example_intent example_now ?st1 = (Inr (rc, True), st2)"
    "xs_world st2 = 1"
    using example_settle [of ?st1] example_store_facts(5) [OF assms(1)] by auto
  have "map_of (st_intents (xs_store st2)) (js ''pi_1'') = None"
    using settle_meta(3) [OF s(1)] assms(2)
    by (auto simp: example_state_def map_of_eq_None_iff image_image)
  then have "insertIntent (stored gate_example_intent st m rs t i) (xs_store st2) =
      Inr ((xs_store st2)\<lparr>st_intents := AList.update (js ''pi_1'') (stored gate_example_intent st m rs t i)
        (st_intents (xs_store st2))\<rparr>)" for st m rs t i
    by (simp add: insertIntent_def stored_def gate_example_intent_def)
  with d s show ?thesis
    by (simp add: execute_def execute_record_def file_intent_def exec_result_def)
qed

lemmas example_run = example_run_att [where att = None, simplified attestation_score_def, simplified]

lemma example_rerun:
  assumes "unsettled extra" "si \<in> set extra" "i_id (si_intent si) = js ''pi_1''"
  shows "\<exists>e st'. execute example_deps example_now gate_example_intent None (example_state extra) =
    (Inl (DuplicateKey e), st') \<and> xs_world st' = 1"
proof -
  obtain d p where d: "execute_decide example_deps example_now gate_example_intent None (example_state extra) =
       (ToRail d, record_decision example_deps p example_now (example_state extra))"
    using example_decide [OF assms(1)] by blast
  let ?st1 = "record_decision example_deps p example_now (example_state extra)"
  obtain rc st2 where s: "settle example_deps gate_example_intent example_now ?st1 = (Inr (rc, True), st2)"
    "xs_world st2 = 1"
    using example_settle [of ?st1] example_store_facts(5) [OF assms(1)] by auto
  have "map_of (st_intents (xs_store st2)) (js ''pi_1'') \<noteq> None"
    using settle_meta(3) [OF s(1)] assms(2,3)
    by (auto simp: example_state_def map_of_eq_None_iff image_image intro!: rev_image_eqI [of si])
  then have "insertIntent (stored gate_example_intent st m rs t i) (xs_store st2) =
      Inl (DuplicateKey (js ''intent pi_1''))" for st m rs t i
    by (simp add: insertIntent_def stored_def gate_example_intent_def js_def)
  with d s show ?thesis
    by (simp add: execute_def execute_record_def file_intent_def)
qed

text \<open>The same payment parked earlier and approved now, and a payment that the gate blocks.\<close>

definition parked_example :: stored_intent where
  "parked_example = stored gate_example_intent Pending (Some (js ''m_1'')) [] None None"

lemma example_lookup:
  "getIntent (xs_store (example_state [parked_example])) (js ''pi_1'') = Some parked_example"
  "si_intent parked_example = gate_example_intent" "si_status parked_example = Pending"
  by (simp_all add: getIntent_def example_state_def parked_example_def stored_def gate_example_intent_def)

lemma example_approval:
  "\<exists>r st'. approve example_deps example_now (js ''pi_1'') (js ''ok'') False (example_state [parked_example]) =
     (Inr r, st') \<and> xr_status r = Settled \<and> xs_world st' = 1"
proof -
  have un: "unsettled [parked_example]" by (simp add: unsettled_def parked_example_def stored_def)
  obtain d where d: "exec_gate example_deps example_now gate_example_intent None (example_state [parked_example]) = Inr d"
    "gd_outcome d = AutoExecute" and tier: "sr_tier (gd_risk d) = TierNone"
    using example_gate [OF un] by blast
  have "haltReason example_deps (xs_store (example_state [parked_example])) = None"
    using example_store_facts(6) [OF un, of example_deps] by (simp add: example_deps_def breaker_threshold_def)
  moreover have "\<not> requiresChallenge example_deps gate_example_intent d"
    using tier example_provider
    by (simp add: requiresChallenge_def exec_reversibility_def gate_example_intent_def example_rail_def
        createFakeRail_def example_deps_def)
  ultimately obtain p where dec: "approve_decide example_deps example_now (js ''pi_1'') (js ''ok'') False
      (example_state [parked_example]) = (ToRail d, record_decision example_deps p example_now (example_state [parked_example]))"
    using d by (simp add: approve_decide_def example_lookup exec_gate_def Let_def)
  let ?st1 = "record_decision example_deps p example_now (example_state [parked_example])"
  obtain rc st2 where s: "settle example_deps gate_example_intent example_now ?st1 = (Inr (rc, True), st2)"
    "xs_world st2 = 1"
    using example_settle [of ?st1] example_store_facts(5) [OF un] by auto
  have "map_of (st_intents (xs_store st2)) (js ''pi_1'') = Some parked_example"
    using settle_meta(3) [OF s(1)] example_lookup(1) by (simp add: getIntent_def)
  then have "updateIntent (js ''pi_1'') u (xs_store st2) \<noteq> Inl e" for u e
    by (simp add: updateIntent_def)
  then show ?thesis
    using dec s example_lookup
    by (auto simp: approve_def approve_record_def change_intent_def exec_result_def split: sum.split)
qed

lemma example_blocked:
  "\<exists>r st'. execute (example_deps\<lparr>xd_breaker := Some 1\<rparr>) example_now (gate_example_intent\<lparr>i_amount := - 5\<rparr>) None
     (example_state []) = (Inr r, st') \<and> xr_status r = Blocked"
proof -
  let ?deps = "example_deps\<lparr>xd_breaker := Some 1\<rparr>" and ?bad = "gate_example_intent\<lparr>i_amount := - 5\<rparr>"
  have un: "unsettled []" by (simp add: unsettled_def)
  have gate: "evaluateGate ?bad ctx = Inr (block_decision [AmountNotPositiveInteger] None)" for ctx
    by (simp add: evaluateGate_def gate_floor_def)
  have "m_id gate_example_mandate = js ''m_1''" by (simp add: gate_example_mandate_def)
  with example_store_facts [OF un] example_period [OF un] obtain inputs where inputs:
    "capture_inputs ?deps (xs_store (example_state [])) example_now ?bad None = Inr inputs"
    by (auto simp: capture_inputs_def Let_def)
  have halt: "haltReason ?deps (xs_store (example_state [])) = None"
    using example_store_facts(6) [OF un, of ?deps] by (simp add: breaker_threshold_def)
  let ?d = "escalate (exec_alert example_now ?bad (block_decision [AmountNotPositiveInteger] None) (example_state []))
    (block_decision [AmountNotPositiveInteger] None)"
  have "gd_outcome ?d = Block" by (simp add: escalate_Block block_decision_def)
  moreover have "insertIntent (stored ?bad s m rs t i) (xs_store (record_decision ?deps p now (example_state []))) \<noteq> Inl e"
    for s m rs t i p now e
    by (simp add: insertIntent_def stored_def gate_example_intent_def example_state_def)
  ultimately show ?thesis
    using halt inputs gate
    by (auto simp: execute_def execute_decide_def Let_def exec_alert_def file_intent_def exec_result_def
        split: sum.splits)
qed

end
