(* ===== verification/Executor_Promises.thy ===== *)
theory Executor_Promises
  imports Executor_Example
begin

text \<open>
  The properties of the executor (\<open>src/core/executor.ts\<close>), each a short consequence of the lemmas of
  Executor_Safety, with a witness on the concrete kernel of Executor_Example.
\<close>

lemma execute_world_gated:
  assumes "execute deps now intent att st = (res, st')" "xs_world st' \<noteq> xs_world st"
  shows "\<exists>m sp ws p. haltReason deps (xs_store st) = None \<and>
    m \<in> set (listMandates (xs_store st)) \<and> isLiveMandate m now \<and>
    periodSpend (xs_store st) (m_id m) now = Inr sp \<and>
    may_auto intent (exec_context deps (xs_store st) now intent att) m sp ws \<and>
    registry_get (xd_rails deps) (i_rail intent) = Some p \<and>
    xs_world st' = snd (pv_settle p intent now (xs_world st))"
  using assms(1)
proof (cases rule: execute_cases)
  case stopped
  with assms(2) execute_decide_world show ?thesis by metis
next
  case (settled d st1 out st2)
  from settled(1) have gate: "haltReason deps (xs_store st) = None" "exec_gate deps now intent att st = Inr d"
    "gd_outcome d = AutoExecute"
    by (cases rule: execute_decide_cases, simp_all)+
  from gate_auto_sound [OF gate(2) [unfolded exec_gate_def] gate(3)] obtain m sp ws where
    m: "m \<in> set (listActiveMandates (xs_store st) now)" "periodSpend (xs_store st) (m_id m) now = Inr sp"
      "may_auto intent (exec_context deps (xs_store st) now intent att) m sp ws"
    by (auto simp: exec_context_def)
  have world: "xs_world st1 = xs_world st" "xs_world st' = xs_world st2"
    using settled execute_decide_world execute_record_world by blast+
  from settled(2) show ?thesis
  proof (cases rule: settle_cases)
    case no_provider
    with world assms(2) show ?thesis by simp
  next
    case (provider p answer w)
    with world m gate show ?thesis
      by (auto simp: listActiveMandates_def listMandates_def may_auto_def)
  qed
qed



text \<open>
  Property C2: an approval reaches a rail only for an intent that is pending, with no halt, that the
  gate, run again on the current state, does not block, and that was acknowledged if it is irreversible,
  of high risk, or large.
\<close>

theorem approve_reaches_rail_only_authorised:
  assumes "approve deps now i why ack st = (res, st')" "xs_world st' \<noteq> xs_world st"
  shows "\<exists>si d p. getIntent (xs_store st) i = Some si \<and> si_status si = Pending \<and>
    haltReason deps (xs_store st) = None \<and>
    evaluateGate (si_intent si) (exec_context deps (xs_store st) now (si_intent si) None) = Inr d \<and>
    gd_outcome d \<noteq> Block \<and> (requiresChallenge deps (si_intent si) d \<longrightarrow> ack) \<and>
    registry_get (xd_rails deps) (i_rail (si_intent si)) = Some p \<and>
    xs_world st' = snd (pv_settle p (si_intent si) now (xs_world st))"
  using assms(1)
proof (cases rule: approve_cases)
  case stopped
  with assms(2) approve_decide_world show ?thesis by metis
next
  case (settled si d st1 out st2)
  from settled(2) settled(1) have auth: "si_status si = Pending" "haltReason deps (xs_store st) = None"
    "exec_gate deps now (si_intent si) None st = Inr d" "gd_outcome d \<noteq> Block"
    "requiresChallenge deps (si_intent si) d \<longrightarrow> ack"
    by (cases rule: approve_decide_cases, simp_all)+
  have world: "xs_world st1 = xs_world st" "xs_world st' = xs_world st2"
    using settled approve_decide_world approve_record_world by blast+
  from settled(3) show ?thesis
  proof (cases rule: settle_cases)
    case no_provider
    with world assms(2) show ?thesis by simp
  next
    case (provider p answer w)
    with world auth settled(1) show ?thesis by (auto simp: exec_gate_def)
  qed
qed

theorem approve_reaches_rail_only_authorised_witness:
  "\<exists>(st' :: nat exec_state) d. xs_world st' = 1 \<and>
     evaluateGate gate_example_intent
       (exec_context example_deps (xs_store (example_state [parked_example])) example_now gate_example_intent None) = Inr d \<and>
     gd_outcome d \<noteq> Block"
proof -
  obtain r st' where run: "approve example_deps example_now (js ''pi_1'') (js ''ok'') False
      (example_state [parked_example]) = (Inr r, st')" "xs_world st' = 1"
    using example_approval by blast
  have w0: "xs_world (example_state [parked_example]) = 0" by (simp add: example_state_def)
  with run(2) have "xs_world st' \<noteq> xs_world (example_state [parked_example])" by simp
  from approve_reaches_rail_only_authorised [OF run(1) this] obtain si d where
    "getIntent (xs_store (example_state [parked_example])) (js ''pi_1'') = Some si"
    "evaluateGate (si_intent si) (exec_context example_deps (xs_store (example_state [parked_example]))
       example_now (si_intent si) None) = Inr d" "gd_outcome d \<noteq> Block"
    by blast
  with run(2) show ?thesis by (auto simp: example_lookup)
qed





end
