(* ===== verification/Executor_Ledger.thy ===== *)
theory Executor_Ledger
  imports Executor_Promises
begin

text \<open>
  What an execution leaves on the books (\<open>src/core/executor.ts\<close> over \<open>src/store/memoryStore.ts\<close>): the
  record of a settlement, the budget of the mandate that authorised it along a sequence of executions,
  the single use of a pending intent, and the ceiling of refunds.
\<close>

section \<open>What an execution writes\<close>

lemma insert_frame:
  "insertIntent si s = Inr s' \<Longrightarrow>
     st_intents s' = st_intents s @ [(i_id (si_intent si), si)] \<and> st_mandates s' = st_mandates s \<and>
     st_receipts s' = st_receipts s \<and> getIntent s (i_id (si_intent si)) = None \<and>
     getIntent s' (i_id (si_intent si)) = Some si"
  using ledger.insert_InrD(1,2) [of si s s'] by (auto simp: insertIntent_Inr_iff)

text \<open>Filing appends one record and no more, or nothing when it throws.\<close>

definition filed :: "payment_intent \<Rightarrow> (stored_intent \<Rightarrow> bool) \<Rightarrow> 'r exec_state \<Rightarrow> 'r exec_state \<Rightarrow> bool" where
  "filed intent P st st' \<longleftrightarrow>
     st_mandates (xs_store st') = st_mandates (xs_store st) \<and>
     (st_intents (xs_store st') = st_intents (xs_store st) \<or>
      (\<exists>si. si_intent si = intent \<and> si_refundedMinor si = None \<and> P si \<and>
         getIntent (xs_store st) (i_id intent) = None \<and>
         st_intents (xs_store st') = st_intents (xs_store st) @ [(i_id intent, si)]))"

lemma filed_refl: "filed intent P st st"
  by (simp add: filed_def)

lemma filed_mono: "filed intent P st st' \<Longrightarrow> (\<And>si. P si \<Longrightarrow> Q si) \<Longrightarrow> filed intent Q st st'"
  unfolding filed_def by blast

lemma file_intent_filed:
  assumes "file_intent (stored intent status m rs tm rcp) after res st0 = (r, st')"
    and "st_mandates (xs_store st0) = st_mandates (xs_store st)" "st_intents (xs_store st0) = st_intents (xs_store st)"
    and "\<And>x. st_mandates (xs_store (after x)) = st_mandates (xs_store x) \<and>
            st_intents (xs_store (after x)) = st_intents (xs_store x)"
  shows "filed intent (\<lambda>si. r = Inr res \<and> si = stored intent status m rs tm rcp) st st'"
  using assms(1)
proof (cases rule: file_intent_cases)
  case (duplicate e)
  with assms show ?thesis by (simp add: filed_def)
next
  case (filed s')
  from insert_frame [OF filed(1)] filed assms show ?thesis
    by (auto simp: filed_def getIntent_def stored_def)
qed

lemma decision_keeps_books:
  "st_mandates (xs_store (record_decision deps p ts st)) = st_mandates (xs_store st) \<and>
   st_intents (xs_store (record_decision deps p ts st)) = st_intents (xs_store st)"
  by simp

lemma execute_filed:
  assumes "execute deps now intent att st = (res, st')"
  shows "filed intent (\<lambda>si. \<exists>r. res = Inr r \<and> xr_status r = si_status si \<and>
    (si_status si = Settled \<longrightarrow> si_mandateId si = gd_mandateId (xr_decision r))) st st'"
  using assms
proof (cases rule: execute_cases)
  case stopped
  then show ?thesis
  proof (cases rule: execute_decide_cases)
    case (halted halt r)
    with file_intent_filed [OF halted(3), of st] show ?thesis
      by (auto elim!: filed_mono simp: stored_def exec_result_def)
  next
    case (blocked gated inputs d r)
    with file_intent_filed [OF blocked(7), of st] show ?thesis
      by (auto elim!: filed_mono simp: stored_def exec_result_def)
  next
    case (parked gated inputs d r)
    with file_intent_filed [OF parked(7), of st] show ?thesis
      by (auto elim!: filed_mono simp: stored_def exec_result_def)
  qed (simp_all add: filed_refl)
next
  case (settled d st1 out st2)
  from settled(1) obtain p where "st1 = record_decision deps p now st"
    by (cases rule: execute_decide_cases) auto
  then have books: "st_mandates (xs_store st2) = st_mandates (xs_store st)"
    "st_intents (xs_store st2) = st_intents (xs_store st)"
    using settle_meta [OF settled(2)] by simp_all
  show ?thesis
  proof (cases out)
    case (Inl e)
    with settled(3) have "file_intent (stored intent Failed (gd_mandateId d) [ErrorReason e] None None)
        (recordOutcome False) (exec_result (i_id intent) Failed d None None) st2 = (res, st')"
      by (simp add: execute_record_def)
    from file_intent_filed [OF this books] show ?thesis
      by (auto elim!: filed_mono simp: stored_def exec_result_def)
  next
    case (Inr rv)
    obtain rc v where "rv = (rc, v)" by (cases rv)
    with Inr settled(3) have "file_intent (stored intent Settled (gd_mandateId d) (gd_reasons d)
          (Some (r_settledAt rc)) (Some (r_id rc)))
        (recordOutcome True) (exec_result (i_id intent) Settled d (Some rc) (Some v)) st2 = (res, st')"
      by (simp add: execute_record_def)
    from file_intent_filed [OF this books] show ?thesis
      by (auto elim!: filed_mono simp: stored_def exec_result_def)
  qed
qed

text \<open>A result that is not an error is on file under the id of the intent, with its status.\<close>

lemma file_intent_stored:
  assumes "file_intent si after res st0 = (Inr r, st')"
    and "\<And>x. getIntent (xs_store (after x)) = getIntent (xs_store x)"
  shows "r = res \<and> getIntent (xs_store st') (i_id (si_intent si)) = Some si"
  using assms(1) by (cases rule: file_intent_cases) (use insert_frame assms(2) in auto)

lemma execute_stored:
  assumes "execute deps now intent att st = (Inr r, st')"
  shows "xr_intentId r = i_id intent \<and>
    (\<exists>si. getIntent (xs_store st') (i_id intent) = Some si \<and> si_intent si = intent \<and> si_status si = xr_status r)"
proof -
  have filed: "xr_intentId r = i_id intent \<and>
      (\<exists>si. getIntent (xs_store st') (i_id intent) = Some si \<and> si_intent si = intent \<and> si_status si = xr_status r)"
    if "file_intent (stored intent s m rs tm rcp) after (exec_result (i_id intent) s d rc v) st0 = (Inr r, st')"
      "\<And>x. getIntent (xs_store (after x)) = getIntent (xs_store x)" for s m rs tm rcp after d rc v st0
    using file_intent_stored [OF that] by (simp add: stored_def exec_result_def)
  have same: "getIntent (xs_store (recordOutcome b x)) = getIntent (xs_store x)" for b and x :: "'a exec_state"
    by (simp add: fun_eq_iff)
  show ?thesis
    using assms
  proof (cases rule: execute_cases)
    case stopped
    then show ?thesis by (cases rule: execute_decide_cases) (auto dest!: filed simp: same)
  next
    case (settled d st1 out st2)
    from settled(3) show ?thesis
      by (cases out) (auto simp: execute_record_def same dest!: filed split: prod.splits)
  qed
qed

section \<open>A settlement is on record\<close>

lemma log_types_record:
  "map ae_type (xs_log (record_event deps t p ts st)) = map ae_type (xs_log st) @ [t]"
  by (simp add: record_event_log log_record_def make_entry_def Let_def)

lemma execute_settledE:
  assumes "execute deps now intent att st = (Inr r, st')" "xr_status r = Settled"
  obtains d p r0 w rc v where "exec_gate deps now intent att st = Inr d" "gd_outcome d = AutoExecute"
    "xr_decision r = d" "xr_receipt r = Some rc" "xr_verified r = Some v"
    "registry_get (xd_rails deps) (i_rail intent) = Some p"
    "pv_settle p intent now (xs_world st) = (Inr r0, w)" "rc = r0\<lparr>r_providerId := Some (pv_id p)\<rparr>"
    "xs_world st' = w" "pv_verifyReceipt p rc w = Inr v"
    "getIntent (xs_store st) (i_id intent) = None"
    "getIntent (xs_store st') (i_id intent) =
       Some (stored intent Settled (gd_mandateId d) (gd_reasons d) (Some (r_settledAt rc)) (Some (r_id rc)))"
    "st_intents (xs_store st') = st_intents (xs_store st) @
       [(i_id intent, stored intent Settled (gd_mandateId d) (gd_reasons d) (Some (r_settledAt rc)) (Some (r_id rc)))]"
    "getReceipt (xs_store st') (r_id rc) = Some rc"
    "map ae_type (xs_log st') = map ae_type (xs_log st) @ [GateDecisionEvent, PaymentSettled, PaymentVerified]"
  using assms(1)
proof (cases rule: execute_cases)
  case stopped
  then have False
    using assms(2) by (cases rule: execute_decide_cases) (auto simp: exec_result_def elim!: file_intent_cases)
  then show thesis ..
next
  case (settled d st1 out st2)
  from settled(1) obtain pl where d: "exec_gate deps now intent att st = Inr d" "gd_outcome d = AutoExecute"
    and st1: "st1 = record_decision deps pl now st"
    by (cases rule: execute_decide_cases) auto
  obtain rc v where out: "out = Inr (rc, v)"
    using settled(3) assms(2) by (cases out) (auto simp: execute_record_def exec_result_def elim!: file_intent_cases)
  let ?si = "stored intent Settled (gd_mandateId d) (gd_reasons d) (Some (r_settledAt rc)) (Some (r_id rc))"
  have "file_intent ?si (recordOutcome True) (exec_result (i_id intent) Settled d (Some rc) (Some v)) st2 = (Inr r, st')"
    using settled(3) by (simp add: execute_record_def out)
  then obtain s' where s': "insertIntent ?si (xs_store st2) = Inr s'"
    "r = exec_result (i_id intent) Settled d (Some rc) (Some v)" "st' = recordOutcome True (st2\<lparr>xs_store := s'\<rparr>)"
    by (cases rule: file_intent_cases) auto
  from settled(2) [unfolded out] show thesis
  proof (cases rule: settle_cases)
    case (provider p answer w)
    from settle_record_InrD [OF provider(4)] obtain r0 where p: "answer = Inr r0"
      "rc = r0\<lparr>r_providerId := Some (pv_id p)\<rparr>" "pv_verifyReceipt p rc w = Inr v"
      "st2 = record_event deps PaymentVerified (PaymentVerifiedP (i_id intent) (r_id rc) v) (r_settledAt rc)
        (record_event deps PaymentSettled
          (PaymentSettledP (i_id intent) (r_id rc) (i_amount intent) (i_currency intent) (i_rail intent))
          (r_settledAt rc) (st1\<lparr>xs_world := w, xs_store := insertReceipt rc (xs_store st1)\<rparr>))"
      by auto
    have log: "map ae_type (xs_log st2) = map ae_type (xs_log st) @ [GateDecisionEvent, PaymentSettled, PaymentVerified]"
      unfolding p(4) log_types_record st1 record_decision_def by (simp add: log_types_record)
    have "getReceipt (xs_store st2) (r_id rc) = Some rc"
      by (simp add: p(4) getReceipt_def insertReceipt_def omap.get_put)
    then have rcpt: "getReceipt s' (r_id rc) = Some rc"
      using insert_frame [OF s'(1)] by (simp add: getReceipt_def)
    have books: "st_intents (xs_store st2) = st_intents (xs_store st)"
      using settle_meta(3) [OF settled(2)] st1 by simp
    have after: "st_receipts (xs_store st') = st_receipts s'" "st_intents (xs_store st') = st_intents s'"
      "xs_log st' = xs_log st2" "xs_world st' = xs_world st2"
      by (simp_all add: s'(3))
    have id: "i_id (si_intent ?si) = i_id intent" by (simp add: stored_def)
    show thesis
    proof (rule that [OF d])
      show "xr_decision r = d" "xr_receipt r = Some rc" "xr_verified r = Some v"
        by (simp_all add: s'(2) exec_result_def)
      show "registry_get (xd_rails deps) (i_rail intent) = Some p" by (rule provider(1))
      show "pv_settle p intent now (xs_world st) = (Inr r0, w)" using provider(2) p(1) st1 by simp
      show "xs_world st' = w" using provider(3) after(4) by simp
      show "getIntent (xs_store st) (i_id intent) = None"
        using insert_frame [OF s'(1)] books id by (simp add: getIntent_def)
      show "getIntent (xs_store st') (i_id intent) = Some ?si"
      proof -
        have "getIntent s' (i_id intent) = Some ?si" using insert_frame [OF s'(1)] unfolding id by blast
        then show ?thesis unfolding getIntent_def after(2) .
      qed
      show "st_intents (xs_store st') = st_intents (xs_store st) @ [(i_id intent, ?si)]"
        using insert_frame [OF s'(1)] after(2) books id by simp
      show "getReceipt (xs_store st') (r_id rc) = Some rc" using rcpt after(1) by (simp add: getReceipt_def)
      show "map ae_type (xs_log st') = map ae_type (xs_log st) @ [GateDecisionEvent, PaymentSettled, PaymentVerified]"
        using log after(3) by simp
    qed (use p in simp_all)
  qed simp
qed

text \<open>
  Property C9: a settled result is on the books: the intent is stored as settled under the mandate the
  gate named, with the time and the id of the receipt, which is stored too, stamped with the provider
  that issued it; the log has gained exactly the decision, the settlement and the read-back. The
  intent id was not taken before.
\<close>

theorem settled_is_on_record:
  assumes "execute deps now intent att st = (Inr r, st')" "xr_status r = Settled"
  shows "\<exists>rc p. xr_receipt r = Some rc \<and> registry_get (xd_rails deps) (i_rail intent) = Some p \<and>
    r_providerId rc = Some (pv_id p) \<and> getReceipt (xs_store st') (r_id rc) = Some rc \<and>
    getIntent (xs_store st) (i_id intent) = None \<and>
    getIntent (xs_store st') (i_id intent) =
      Some (stored intent Settled (gd_mandateId (xr_decision r)) (gd_reasons (xr_decision r))
              (Some (r_settledAt rc)) (Some (r_id rc))) \<and>
    map ae_type (xs_log st') = map ae_type (xs_log st) @ [GateDecisionEvent, PaymentSettled, PaymentVerified]"
  using assms by (elim execute_settledE) auto

theorem settled_is_on_record_witness:
  "\<exists>r (st' :: nat exec_state) rc. execute example_deps example_now gate_example_intent None (example_state []) = (Inr r, st') \<and>
     xr_receipt r = Some rc \<and> getReceipt (xs_store st') (r_id rc) = Some rc \<and>
     map ae_type (xs_log st') = [GateDecisionEvent, PaymentSettled, PaymentVerified]"
proof -
  obtain r and st' :: "nat exec_state" where run: "execute example_deps example_now gate_example_intent None (example_state []) = (Inr r, st')"
    "xr_status r = Settled"
    using example_run [of "[]"] by (auto simp: unsettled_def)
  have "xs_log (example_state []) = []" by (simp add: example_state_def)
  with settled_is_on_record [OF run] run(1) show ?thesis by auto
qed

section \<open>The budget along a sequence of executions\<close>

text \<open>At a clock reading, what is recorded against each mandate in its current period is within its cap.\<close>

definition within_budget :: "mem_store \<Rightarrow> str \<Rightarrow> bool" where
  "within_budget s now \<longleftrightarrow>
     (\<forall>m \<in> set (listMandates s). \<forall>start. periodStart now (m_period m) = Inr start \<longrightarrow>
        spent_since s (m_id m) start \<le> m_perPeriodCap m)"

text \<open>No settled record is negative: none is refunded beyond its amount.\<close>

definition net_nonneg :: "mem_store \<Rightarrow> bool" where
  "net_nonneg s \<longleftrightarrow> list_all (\<lambda>(i, si). si_status si = Settled \<longrightarrow> 0 \<le> net_amount si) (st_intents s)"

text \<open>A run of executions, each at its own clock reading.\<close>

fun execute_all ::
  "'r exec_deps \<Rightarrow> (str \<times> payment_intent \<times> attestation option) list \<Rightarrow> 'r exec_state \<Rightarrow> 'r exec_state" where
  "execute_all deps [] st = st"
| "execute_all deps ((now, intent, att) # jobs) st =
     execute_all deps jobs (snd (execute deps now intent att st))"

lemma amount_same_currency:
  assumes "covers m intent None"
  shows "amount_in_mandate intent None m = i_amount intent"
  using assms by (auto simp: covers_def amount_in_mandate_def split: if_splits)

lemma spent_since_antimono:
  assumes "net_nonneg s" "a \<le> b"
  shows "spent_since s i b \<le> spent_since s i a"
proof -
  have "counted i b si \<le> counted i a si" if "si_status si = Settled \<longrightarrow> 0 \<le> net_amount si" for si
    using assms(2) that by (auto simp: counted_def counts_towards_def split: option.splits)
  with assms(1) show ?thesis
    unfolding spent_since_def net_nonneg_def list_all_iff by (intro sum_list_mono) auto
qed

lemma within_budget_later:
  assumes "within_budget s (iso_text t)" "net_nonneg s" "iso_range t" "iso_range u" "100 \<le> utc_full_year t" "t \<le> u"
  shows "within_budget s (iso_text u)"
  unfolding within_budget_def
proof (intro ballI allI impI)
  fix m b assume m: "m \<in> set (listMandates s)" and b: "periodStart (iso_text u) (m_period m) = Inr b"
  from periodStart_iso_mono [OF assms(3,4,5,6) b] obtain a where
    a: "periodStart (iso_text t) (m_period m) = Inr a" "a \<le> b" by blast
  with spent_since_antimono [OF assms(2) a(2), of "m_id m"] assms(1) m show "spent_since s (m_id m) b \<le> m_perPeriodCap m"
    unfolding within_budget_def by fastforce
qed

lemma mandate_of_id:
  assumes "store_wf s" "m \<in> set (listMandates s)"
  shows "map_of (st_mandates s) (m_id m) = Some m"
proof -
  from assms(2) obtain k where "(k, m) \<in> set (st_mandates s)" by (auto simp: listMandates_def)
  with assms(1) keyed_mem [of m_id "st_mandates s" k m] show ?thesis
    by (auto simp: store_wf_def intro: map_of_is_SomeI)
qed

text \<open>What an authorised settlement adds to a mandate, without currency conversion.\<close>

lemma gate_budget:
  assumes "exec_gate deps now intent att st = Inr d" "gd_outcome d = AutoExecute" "store_wf (xs_store st)"
    and "xd_fxRates deps = None" "m \<in> set (listMandates (xs_store st))" "gd_mandateId d = Some (m_id m)"
    and "periodStart now (m_period m) = Inr start"
  shows "0 < i_amount intent"
    "spent_since (xs_store st) (m_id m) start + i_amount intent \<le> m_perPeriodCap m"
proof -
  let ?ctx = "exec_context deps (xs_store st) now intent att"
  from gate_auto_sound [OF assms(1) [unfolded exec_gate_def] assms(2)] obtain m' sp ws where
    m': "m' \<in> set (c_mandates ?ctx)" "gd_mandateId d = Some (m_id m')" "c_periodSpend ?ctx (m_id m') = Inr sp"
      "may_auto intent ?ctx m' sp ws" by blast
  have "m' \<in> set (listActiveMandates (xs_store st) now)" using m'(1) by (simp add: exec_context_def)
  then have "m' \<in> set (listMandates (xs_store st))" by (auto simp: listActiveMandates_def listMandates_def)
  from mandate_of_id [OF assms(3) this] mandate_of_id [OF assms(3,5)] m'(2) assms(6)
  have same: "m' = m" by simp
  have conv: "c_convert ?ctx = None" by (simp add: exec_context_def exec_convert_def assms(4))
  have "periodSpend (xs_store st) (m_id m) now = Inr sp" using m'(3) same by (simp add: exec_context_def)
  from periodSpend_total [OF mandate_of_id [OF assms(3,5)] this] assms(7)
  have total: "total_spent sp = spent_since (xs_store st) (m_id m) start" by auto
  have may: "0 < i_amount intent" "covers m intent None"
    "total_spent sp + amount_in_mandate intent None m \<le> m_perPeriodCap m"
    using m'(4) unfolding may_auto_def same conv by blast+
  then show "0 < i_amount intent" "spent_since (xs_store st) (m_id m) start + i_amount intent \<le> m_perPeriodCap m"
    unfolding amount_same_currency [OF may(2)] total by blast+
qed

lemma net_amount_stored [simp]: "net_amount (stored intent s m rs tm rcp) = i_amount intent"
  by (simp add: net_amount_def stored_def)

lemma spent_since_append:
  "st_intents s' = st_intents s @ [(i, si)] \<Longrightarrow> spent_since s' k start = spent_since s k start + counted k start si"
  by (simp add: spent_since_def)

lemma execute_within_budget:
  assumes "store_wf (xs_store st)" "xd_fxRates deps = None" "within_budget (xs_store st) now" "net_nonneg (xs_store st)"
    and run: "execute deps now intent att st = (res, st')"
  shows "within_budget (xs_store st') now" "net_nonneg (xs_store st')"
proof -
  have f: "filed intent (\<lambda>si. \<exists>r. res = Inr r \<and> xr_status r = si_status si \<and>
      (si_status si = Settled \<longrightarrow> si_mandateId si = gd_mandateId (xr_decision r))) st st'"
    by (rule execute_filed [OF run])
  then have mand: "st_mandates (xs_store st') = st_mandates (xs_store st)" by (simp add: filed_def)
  have "0 < i_amount intent" if r: "res = Inr r" "xr_status r = Settled" for r
  proof -
    from run r obtain d where "evaluateGate intent (exec_context deps (xs_store st) now intent att) = Inr d"
      "gd_outcome d = AutoExecute" by (auto elim: execute_settledE simp: exec_gate_def)
    from gate_auto_sound [OF this] show ?thesis by (auto simp: may_auto_def)
  qed
  with f assms(4) show "net_nonneg (xs_store st')"
    by (fastforce simp: filed_def net_nonneg_def net_amount_def)
  show "within_budget (xs_store st') now"
    unfolding within_budget_def
  proof (intro ballI allI impI)
    fix m start assume m: "m \<in> set (listMandates (xs_store st'))" and start: "periodStart now (m_period m) = Inr start"
    have m0: "m \<in> set (listMandates (xs_store st))" using m mand by (simp add: listMandates_def)
    have before: "spent_since (xs_store st) (m_id m) start \<le> m_perPeriodCap m"
      using assms(3) m0 start by (auto simp: within_budget_def)
    from f consider "st_intents (xs_store st') = st_intents (xs_store st)"
      | si r where "st_intents (xs_store st') = st_intents (xs_store st) @ [(i_id intent, si)]" "res = Inr r"
        "xr_status r = si_status si" "si_status si = Settled \<longrightarrow> si_mandateId si = gd_mandateId (xr_decision r)"
        "si_intent si = intent" "si_refundedMinor si = None"
      by (auto simp: filed_def)
    then show "spent_since (xs_store st') (m_id m) start \<le> m_perPeriodCap m"
    proof cases
      case 1
      with before spent_since_cong show ?thesis by metis
    next
      case (2 si r)
      show ?thesis
      proof (cases "counts_towards (m_id m) start si")
        case False
        with before spent_since_append [OF 2(1)] show ?thesis by (simp add: counted_def)
      next
        case True
        then have s: "si_status si = Settled" "gd_mandateId (xr_decision r) = Some (m_id m)"
          using 2(4) by (auto simp: counts_towards_def)
        with 2 run obtain d where "exec_gate deps now intent att st = Inr d" "gd_outcome d = AutoExecute" "xr_decision r = d"
          by (auto elim: execute_settledE)
        with gate_budget [OF this(1,2) assms(1,2) m0 _ start] s spent_since_append [OF 2(1)] 2(5,6) True
        show ?thesis by (simp add: counted_def net_amount_def)
      qed
    qed
  qed
qed

text \<open>
  Property C10: a settlement is charged. Without currency conversion and on an honest rail, a settled
  execution adds exactly its amount to what is recorded against the mandate the gate named since the
  start of its period, and the sum stays within the cap of the period.
\<close>

theorem settlement_charged:
  assumes "execute deps (iso_text t) intent att st = (Inr r, st')" "xr_status r = Settled"
    and "store_wf (xs_store st)" "xd_fxRates deps = None" "iso_range t" "100 \<le> utc_full_year t"
    and "\<forall>p \<in> set (rg_providers (xd_rails deps)). honest_rail p"
    and "m \<in> set (listMandates (xs_store st))" "gd_mandateId (xr_decision r) = Some (m_id m)"
    and "periodStart (iso_text t) (m_period m) = Inr start"
  shows "spent_since (xs_store st') (m_id m) start = spent_since (xs_store st) (m_id m) start + i_amount intent \<and>
    spent_since (xs_store st') (m_id m) start \<le> m_perPeriodCap m"
proof -
  from assms(1,2) obtain d p r0 w rc v where x: "exec_gate deps (iso_text t) intent att st = Inr d" "gd_outcome d = AutoExecute"
    "xr_decision r = d" "registry_get (xd_rails deps) (i_rail intent) = Some p"
    "pv_settle p intent (iso_text t) (xs_world st) = (Inr r0, w)" "rc = r0\<lparr>r_providerId := Some (pv_id p)\<rparr>"
    "st_intents (xs_store st') = st_intents (xs_store st) @
       [(i_id intent, stored intent Settled (gd_mandateId d) (gd_reasons d) (Some (r_settledAt rc)) (Some (r_id rc)))]"
    by (elim execute_settledE) auto
  have "p \<in> set (rg_providers (xd_rails deps))"
    using x(4) by (cases rule: registry_get_cases) (auto dest: registry_byId_SomeD simp: filter_eq_Cons_iff)
  with assms(7) have "honest_rail p" by blast
  from honest_rail.binds [OF this x(5)] have at: "r_settledAt rc = iso_text t" by (simp add: x(6))
  have "start \<le> iso_text t"
    using periodStart_iso [OF assms(5,6), of "m_period m"] assms(5,10) period_window_first_day [of "m_period m" t]
    by (auto simp: iso_text_le period_window_def)
  then have "counted (m_id m) start (stored intent Settled (gd_mandateId d) (gd_reasons d) (Some (r_settledAt rc)) (Some (r_id rc))) =
      i_amount intent"
    using x(3) assms(9) at by (simp add: counted_def counts_towards_def) (simp add: stored_def)
  with spent_since_append [OF x(7)] gate_budget [OF x(1,2) assms(3,4,8) _ assms(10)] x(3) assms(9) show ?thesis by simp
qed


lemma example_books:
  "store_wf (xs_store (example_state []))" "within_budget (xs_store (example_state [])) now"
  "net_nonneg (xs_store (example_state []))"
proof -
  have m: "m_id gate_example_mandate = js ''m_1''" "m_perPeriodCap gate_example_mandate = 10000"
    and e: "net_amount earlier_intent = 2500" "i_id (si_intent earlier_intent) = js ''pi_0''"
    by (simp_all add: gate_example_mandate_def gate_example_intent_def earlier_intent_def stored_def net_amount_def)
  then have "counted i start earlier_intent \<le> 2500" for i start by (simp add: counted_def)
  then have "counted i start earlier_intent \<le> 10000" for i start by (rule order_trans) simp
  with m show "within_budget (xs_store (example_state [])) now"
    by (simp add: within_budget_def listMandates_def spent_since_def example_state_def)
  show "store_wf (xs_store (example_state []))" "net_nonneg (xs_store (example_state []))"
    by (simp_all add: example_state_def store_wf_def createMemoryStore_def keyed_def m e net_nonneg_def)
qed

theorem settlement_charged_witness:
  "\<exists>(st' :: nat exec_state) start. periodStart example_now Month = Inr start \<and>
     spent_since (xs_store st') (js ''m_1'') start =
       spent_since (xs_store (example_state [])) (js ''m_1'') start + 2500 \<and>
     spent_since (xs_store st') (js ''m_1'') start \<le> 10000"
proof -
  obtain r and st' :: "nat exec_state" where run: "execute example_deps example_now gate_example_intent None (example_state []) = (Inr r, st')"
    "xr_status r = Settled" "gd_mandateId (xr_decision r) = Some (js ''m_1'')"
    using example_run [of "[]"] by (auto simp: unsettled_def)
  have m: "m_id gate_example_mandate = js ''m_1''" "m_period gate_example_mandate = Month"
    "m_perPeriodCap gate_example_mandate = 10000" "i_amount gate_example_intent = 2500"
    by (simp_all add: gate_example_mandate_def gate_example_intent_def)
  have "gate_example_mandate \<in> set (listMandates (xs_store (example_state [])))"
    by (simp add: example_state_def listMandates_def)
  moreover note example_books(1)
  moreover have "xd_fxRates example_deps = None" "\<forall>p \<in> set (rg_providers (xd_rails example_deps)). honest_rail p"
    using example_rail_honest by (simp_all add: example_deps_def)
  moreover have "iso_range 1700000000000" "100 \<le> utc_full_year 1700000000000" by code_simp+
  moreover from this obtain start where "periodStart (iso_text 1700000000000) Month = Inr start"
    using periodStart_iso by blast
  ultimately show ?thesis
    using settlement_charged [OF run(1) [unfolded example_now_def] run(2), of gate_example_mandate start] run(3)
    unfolding m example_now_def by blast
qed

lemma execute_all_within_budget:
  assumes "store_wf (xs_store st)" "xd_fxRates deps = None" "within_budget (xs_store st) (iso_text t)"
    "net_nonneg (xs_store st)" "100 \<le> utc_full_year t" "sorted (t # map fst jobs)" "\<forall>u \<in> set (t # map fst jobs). iso_range u"
  shows "within_budget (xs_store (execute_all deps (map (\<lambda>(u, job). (iso_text u, job)) jobs) st))
    (iso_text (last (t # map fst jobs)))"
  using assms
proof (induction jobs arbitrary: st t)
  case Nil
  then show ?case by simp
next
  case (Cons job jobs)
  obtain u intent att where job: "job = (u, intent, att)" by (cases job)
  obtain res st' where run: "execute deps (iso_text u) intent att st = (res, st')" by fastforce
  have tu: "t \<le> u" "iso_range t" "iso_range u" using Cons.prems(6,7) by (auto simp: job)
  have y: "100 \<le> utc_full_year u"
    using Cons.prems(5) year_from_day_mono [OF utc_day_mono [OF tu(1)]] by (simp add: utc_full_year_def)
  note later = within_budget_later [OF Cons.prems(3,4) tu(2,3) Cons.prems(5) tu(1)]
  note step = execute_within_budget [OF Cons.prems(1,2) later Cons.prems(4) run]
  have wf: "store_wf (xs_store st')" by (rule wf.inv_execute [OF Cons.prems(1) run])
  have "within_budget (xs_store (execute_all deps (map (\<lambda>(u, job). (iso_text u, job)) jobs) st'))
      (iso_text (last (u # map fst jobs)))"
    using Cons.prems(6,7) by (intro Cons.IH wf Cons.prems(2) step y) (auto simp: job)
  then show ?case by (simp add: job run)
qed



section \<open>A way around the books\<close>

text \<open>
  Property C25: a repeated intent id moves money off the books. An execution whose id is already stored
  and whose rail settles throws after the settlement: the world has changed, the stored intents and
  what is charged to every mandate have not.
\<close>

theorem duplicate_id_settles_unrecorded:
  assumes "execute_decide deps now intent att st = (ToRail d, st1)" "getIntent (xs_store st) (i_id intent) = Some si"
    and "registry_get (xd_rails deps) (i_rail intent) = Some p" "pv_settle p intent now (xs_world st) = (Inr r0, w)"
  shows "\<exists>e st'. execute deps now intent att st = (Inl (DuplicateKey e), st') \<and> xs_world st' = w \<and>
    st_intents (xs_store st') = st_intents (xs_store st) \<and>
    (\<forall>i start. spent_since (xs_store st') i start = spent_since (xs_store st) i start)"
proof -
  from assms(1) obtain pl where st1: "st1 = record_decision deps pl now st"
    by (cases rule: execute_decide_cases) auto
  obtain out st2 where set: "settle deps intent now st1 = (out, st2)" by fastforce
  have books: "st_intents (xs_store st2) = st_intents (xs_store st)" using settle_meta(3) [OF set] st1 by simp
  have world: "xs_world st2 = w"
    using set by (cases rule: settle_cases) (use assms(3,4) st1 in auto)
  have "insertIntent (stored intent s m rs tm rcp) (xs_store st2) = Inl (DuplicateKey (js ''intent '' @ i_id intent))"
    for s m rs tm rcp
    using assms(2) books by (simp add: insertIntent_def getIntent_def stored_def)
  then have "execute_record intent d out st2 = (Inl (DuplicateKey (js ''intent '' @ i_id intent)), st2)"
    by (cases out) (auto simp: execute_record_def file_intent_def)
  then show ?thesis
    using assms(1) set world books spent_since_cong [OF books] by (simp add: execute_def)
qed

theorem duplicate_id_settles_unrecorded_witness:
  "\<exists>e (st' :: nat exec_state). execute example_deps example_now gate_example_intent None (example_state [parked_example]) =
     (Inl (DuplicateKey e), st') \<and> xs_world st' = 1 \<and>
     (\<forall>i start. spent_since (xs_store st') i start = spent_since (xs_store (example_state [parked_example])) i start)"
proof -
  have un: "unsettled [parked_example]" by (simp add: unsettled_def parked_example_def stored_def)
  obtain d p where d: "execute_decide example_deps example_now gate_example_intent None (example_state [parked_example]) =
       (ToRail d, record_decision example_deps p example_now (example_state [parked_example]))"
    using example_decide [OF un] .
  have ex: "i_id gate_example_intent = js ''pi_1''" "i_rail gate_example_intent = Card"
    by (simp_all add: gate_example_intent_def)
  obtain r0 where "pv_settle example_rail gate_example_intent example_now (xs_world (example_state [parked_example])) = (Inr r0, 1)"
    using example_receipt [of 0] by (auto simp: example_state_def)
  with duplicate_id_settles_unrecorded [OF d, of parked_example example_rail r0 1] example_lookup(1) example_provider ex
  show ?thesis by auto
qed

section \<open>Approving once, refunding within the amount\<close>

lemma update_getIntent:
  assumes "updateIntent i u s = Inr s'"
  shows "\<exists>si. getIntent s i = Some si \<and> getIntent s' i = Some (apply_update u si)"
  using assms by (auto simp: updateIntent_Inr_iff getIntent_def omap.get_put)

lemma change_intent_status:
  assumes "change_intent i u (recordOutcome ok) r0 st = (Inr r, st')" "iu_status u = Some s"
  shows "r = r0 \<and> (\<exists>si. getIntent (xs_store st') i = Some si \<and> si_status si = s)"
  using assms(1)
proof (cases rule: change_intent_cases)
  case (changed s')
  with update_getIntent [OF changed(1)] assms(2) show ?thesis by (auto simp: apply_update_def)
qed simp





end
