(* ===== verification/Interleaving.thy ===== *)
theory Interleaving
  imports Executor_Ledger
begin

text \<open>
  Concurrent executions (\<open>src/core/executor.ts\<close>). The functions of the executor are asynchronous and
  the host may call \<open>execute\<close> again while an earlier call awaits \<open>provider.settle\<close>. A system is the
  state of the kernel with the executions in flight; a step runs one call up to its await, or resumes
  one that the rail has answered. Between awaits a call is atomic, as in the event loop of the source.

  Shown: invariants of the state survive every schedule, every execution in flight was gated when it
  took off, the atomic execution is one of the schedules; and the budget of a mandate is not one of
  the invariants: spends in flight are invisible to the gate.
\<close>

record 'r flight =
  fl_now :: str
  fl_intent :: payment_intent
  fl_decision :: gate_decision
  fl_provider :: "'r provider"
  fl_answer :: "js_error + receipt"

record 'r system =
  sys_state :: "'r exec_state"
  sys_flights :: "'r flight list"

inductive conc_step :: "'r exec_deps \<Rightarrow> 'r system \<Rightarrow> 'r system \<Rightarrow> bool" for deps where
  at_once:
    "execute_decide deps now intent att (sys_state S) = (Finished res, st) \<Longrightarrow>
     conc_step deps S (S\<lparr>sys_state := st\<rparr>)"
| no_rail:
    "execute_decide deps now intent att (sys_state S) = (ToRail d, st1) \<Longrightarrow>
     registry_get (xd_rails deps) (i_rail intent) = None \<Longrightarrow>
     execute_record intent d (Inl (no_provider_error (i_rail intent))) st1 = (res, st2) \<Longrightarrow>
     conc_step deps S (S\<lparr>sys_state := st2\<rparr>)"
| take_off:
    "execute_decide deps now intent att (sys_state S) = (ToRail d, st1) \<Longrightarrow>
     registry_get (xd_rails deps) (i_rail intent) = Some p \<Longrightarrow>
     pv_settle p intent now (xs_world st1) = (answer, w) \<Longrightarrow>
     conc_step deps S
       \<lparr>sys_state = st1\<lparr>xs_world := w\<rparr>,
        sys_flights = sys_flights S @
          [\<lparr>fl_now = now, fl_intent = intent, fl_decision = d, fl_provider = p, fl_answer = answer\<rparr>]\<rparr>"
| land:
    "sys_flights S = xs @ f # ys \<Longrightarrow>
     settle_record deps (fl_provider f) (fl_intent f) (fl_now f) (fl_answer f) (sys_state S) = (out, st1) \<Longrightarrow>
     execute_record (fl_intent f) (fl_decision f) out st1 = (res, st2) \<Longrightarrow>
     conc_step deps S \<lparr>sys_state = st2, sys_flights = xs @ ys\<rparr>"
| operator_halt: "conc_step deps S (S\<lparr>sys_state := engageKillSwitch (sys_state S)\<rparr>)"

inductive_cases conc_stepE: "conc_step deps S S'"

definition system_of :: "'r exec_state \<Rightarrow> 'r system" where
  "system_of st = \<lparr>sys_state = st, sys_flights = []\<rparr>"

section \<open>Invariants under every schedule\<close>

context payment_invariant
begin

lemma inv_conc_step:
  assumes "conc_step deps S S'" "Inv (sys_state S)"
  shows "Inv (sys_state S')"
  using assms
proof (cases rule: conc_step.cases)
  case (take_off now intent att d st1 p answer w)
  from inv_execute_decide [OF assms(2) take_off(2)] show ?thesis
    using take_off(1) by (simp add: inv_world)
next
  case (no_rail now intent att d st1 res st2)
  from inv_execute_record [OF inv_execute_decide [OF assms(2) no_rail(2)] no_rail(4)] show ?thesis
    using no_rail(1) by simp
next
  case (land xs f ys out st1 res st2)
  from inv_execute_record [OF inv_settle_record [OF assms(2) land(3)] land(4)] show ?thesis
    using land(1) by simp
qed (use assms(2) in \<open>auto intro: inv_execute_decide inv_operator\<close>)

lemma inv_conc: "(conc_step deps)\<^sup>*\<^sup>* S S' \<Longrightarrow> Inv (sys_state S) \<Longrightarrow> Inv (sys_state S')"
  by (induction rule: rtranclp_induct) (auto intro: inv_conc_step)

end

text \<open>An execution in flight was let through by the gate, on the state it took off from.\<close>

definition gated_flight :: "'r exec_deps \<Rightarrow> 'r flight \<Rightarrow> bool" where
  "gated_flight deps f \<longleftrightarrow>
     (\<exists>(st :: 'r exec_state) att m sp ws. haltReason deps (xs_store st) = None \<and> m \<in> set (listMandates (xs_store st)) \<and>
        gd_mandateId (fl_decision f) = Some (m_id m) \<and> periodSpend (xs_store st) (m_id m) (fl_now f) = Inr sp \<and>
        may_auto (fl_intent f) (exec_context deps (xs_store st) (fl_now f) (fl_intent f) att) m sp ws \<and>
        registry_get (xd_rails deps) (i_rail (fl_intent f)) = Some (fl_provider f))"

lemma to_rail_gated:
  assumes "execute_decide deps now intent att st = (ToRail d, st1)"
    and "registry_get (xd_rails deps) (i_rail intent) = Some p"
  shows "gated_flight deps \<lparr>fl_now = now, fl_intent = intent, fl_decision = d, fl_provider = p, fl_answer = answer\<rparr>"
proof -
  from assms(1) have "haltReason deps (xs_store st) = None" "exec_gate deps now intent att st = Inr d"
    "gd_outcome d = AutoExecute"
    by (cases rule: execute_decide_cases, simp_all)+
  moreover from gate_auto_sound [OF this(2) [unfolded exec_gate_def] this(3)] obtain m sp ws where
    "m \<in> set (listActiveMandates (xs_store st) now)" "gd_mandateId d = Some (m_id m)"
    "periodSpend (xs_store st) (m_id m) now = Inr sp"
    "may_auto intent (exec_context deps (xs_store st) now intent att) m sp ws"
    by (auto simp: exec_context_def)
  ultimately show ?thesis
    using assms(2) by (fastforce simp: gated_flight_def listActiveMandates_def listMandates_def)
qed

lemma gated_step:
  assumes "conc_step deps S S'" "list_all (gated_flight deps) (sys_flights S)"
  shows "list_all (gated_flight deps) (sys_flights S')"
  using assms by (cases rule: conc_step.cases) (simp_all add: to_rail_gated)

lemma gated_run:
  "(conc_step deps)\<^sup>*\<^sup>* S S' \<Longrightarrow> list_all (gated_flight deps) (sys_flights S) \<Longrightarrow>
     list_all (gated_flight deps) (sys_flights S')"
  by (induction rule: rtranclp_induct) (auto intro: gated_step)

lemma atomic_schedule:
  assumes "execute deps now intent att st = (res, st')"
  shows "(conc_step deps)\<^sup>*\<^sup>* (system_of st) (system_of st')"
  using assms
proof (cases rule: execute_cases)
  case stopped
  then have "conc_step deps (system_of st) ((system_of st)\<lparr>sys_state := st'\<rparr>)"
    by (intro at_once) (simp add: system_of_def)
  then show ?thesis by (simp add: system_of_def r_into_rtranclp)
next
  case (settled d st1 out st2)
  from settled(2) show ?thesis
  proof (cases rule: settle_cases)
    case no_provider
    with settled have "conc_step deps (system_of st) ((system_of st)\<lparr>sys_state := st'\<rparr>)"
      by (intro no_rail [of deps now intent att "system_of st" d st1]) (simp_all add: system_of_def)
    then show ?thesis by (simp add: system_of_def r_into_rtranclp)
  next
    case (provider p answer w)
    let ?f = "\<lparr>fl_now = now, fl_intent = intent, fl_decision = d, fl_provider = p, fl_answer = answer\<rparr>"
    let ?S = "\<lparr>sys_state = st1\<lparr>xs_world := w\<rparr>, sys_flights = [?f]\<rparr>"
    have "conc_step deps (system_of st) ?S"
      using take_off [of deps now intent att "system_of st" d st1 p answer w] settled(1) provider(1,2)
      by (simp add: system_of_def)
    moreover have "conc_step deps ?S (system_of st')"
      using land [of ?S "[]" ?f "[]" deps out st2 res st'] provider(4) settled(3) by (simp add: system_of_def)
    ultimately show ?thesis by (rule converse_rtranclp_into_rtranclp [OF _ r_into_rtranclp])
  qed
qed

section \<open>Three payments against one budget\<close>

definition race_intent :: "str \<Rightarrow> payment_intent" where
  "race_intent i = gate_example_intent\<lparr>i_id := i, i_amount := 5000\<rparr>"

lemma race_intent_simps [simp]:
  "i_id (race_intent i) = i" "i_amount (race_intent i) = 5000" "i_rail (race_intent i) = Card"
  "i_payee (race_intent i) = js ''acme''" "i_currency (race_intent i) = js ''USD''"
  "i_rationale (race_intent i) = i_rationale gate_example_intent"
  by (simp_all add: race_intent_def gate_example_intent_def)

text \<open>The example state with at most \<open>n\<close> automatic decisions on the log, and nothing more on the books.\<close>

definition racing :: "nat \<Rightarrow> nat exec_state \<Rightarrow> bool" where
  "racing n st \<longleftrightarrow>
     st_mandates (xs_store st) = [(js ''m_1'', gate_example_mandate)] \<and>
     st_intents (xs_store st) = [(js ''pi_0'', earlier_intent)] \<and> st_meta (xs_store st) = [] \<and>
     length (xs_log st) \<le> n \<and>
     (\<forall>e \<in> set (xs_log st). ae_type e = GateDecisionEvent \<and>
        (\<exists>p i. ae_payload e = GateDecisionP p \<and> dp_intent p = Some i \<and> i_rail i = Card \<and> dp_outcome p = AutoExecute))"

lemma racing_start: "racing 0 (example_state [])"
  by (simp add: racing_def example_state_def createMemoryStore_def)

lemma racing_world: "racing n st \<Longrightarrow> racing n (st\<lparr>xs_world := w\<rparr>)"
  by (simp add: racing_def)

lemma racing_facts:
  assumes "racing n st"
  shows "listActiveMandates (xs_store st) example_now = [gate_example_mandate]"
    "knownPayees (xs_store st) = [js ''acme'']" "payeeSettledCount (xs_store st) (js ''acme'') = 1"
    "haltReason example_deps (xs_store st) = None" "periodSpend (xs_store st) (js ''m_1'') example_now = Inr []"
proof -
  let ?s = "xs_store (example_state [])"
  have un: "unsettled []" by (simp add: unsettled_def)
  have same: "st_mandates (xs_store st) = st_mandates ?s" "st_intents (xs_store st) = st_intents ?s"
    "st_meta (xs_store st) = st_meta ?s"
    using assms by (simp_all add: racing_def example_state_def createMemoryStore_def)
  note defs = listActiveMandates_def knownPayees_def payeeSettledCount_def haltReason_def isKilled_def
    breakerOpen_def failures_def getMeta_def periodSpend_def same
  show "listActiveMandates (xs_store st) example_now = [gate_example_mandate]"
    "knownPayees (xs_store st) = [js ''acme'']" "payeeSettledCount (xs_store st) (js ''acme'') = 1"
    "periodSpend (xs_store st) (js ''m_1'') example_now = Inr []"
    using example_store_facts(1-3) [OF un] example_period [OF un] unfolding defs by simp_all
  have "haltReason example_deps ?s = None"
    using example_store_facts(6) [OF un, of example_deps] by (simp add: example_deps_def breaker_threshold_def)
  then show "haltReason example_deps (xs_store st) = None" unfolding defs .
qed

lemma racing_gate:
  assumes "racing n st"
  obtains d where "exec_gate example_deps example_now (race_intent i) None st = Inr d"
    "gd_outcome d = AutoExecute" "gd_mandateId d = Some (js ''m_1'')"
proof -
  note facts = racing_facts [OF assms]
  let ?ctx = "exec_context example_deps (xs_store st) example_now (race_intent i) None"
  have ctx: "?ctx = gate_example_context\<lparr>c_periodSpend := (\<lambda>i. periodSpend (xs_store st) i example_now),
      c_trustOf := Some (\<lambda>payee. payeeTrust (payeeSettledCount (xs_store st) payee)),
      c_reversibility := Some Reversible\<rparr>"
    using facts example_provider
    by (simp add: exec_context_def gate_example_context_def example_deps_def example_now_def
        exec_convert_def exec_reputation_def example_rail_def createFakeRail_def)
  have live: "isLiveMandate gate_example_mandate (c_now gate_example_context)"
    using example_live by (simp add: example_now_def gate_example_context_def)
  have cov: "covers gate_example_mandate (race_intent i) None"
    by (simp add: covers_def gate_example_mandate_def race_intent_def gate_example_intent_def)
  have mandate: "gate_mandate (race_intent i) ?ctx = Some gate_example_mandate"
    using live cov by (simp add: ctx gate_mandate_def gate_example_context_def)
  have spend: "c_periodSpend ?ctx (m_id gate_example_mandate) = Inr []"
    using facts by (simp add: ctx gate_example_mandate_def)
  have win: "window_start (c_now ?ctx) (velocityWindowMinutes (c_config ?ctx)) = Inr (iso_text 1699996400000)"
    using gate_example_conditions(3) by (simp add: ctx)
  have trust: "gate_trust (race_intent i) ?ctx = TrustSeen"
    using facts(3) by (simp add: ctx gate_trust_def payeeTrust_def TRUSTED_AT_def)
  have risk: "sr_tier (gate_risk (race_intent i) ?ctx []) = TierNone"
    unfolding gate_risk_def trust
    by (simp add: ctx classifySpendRisk_def gate_reversibility_def bump_def tier_of_score_def median_def Let_def
        gate_example_context_def DEFAULT_GATE_CONFIG_def)
  have sel: "c_now ?ctx = c_now gate_example_context" "c_convert ?ctx = None" "c_denyRules ?ctx = []"
    "c_config ?ctx = c_config gate_example_context"
    unfolding ctx by (simp_all add: gate_example_context_def)
  have caps: "m_perTxCap gate_example_mandate = 5000" "m_perPeriodCap gate_example_mandate = 10000"
    "amount_in_mandate (race_intent i) None gate_example_mandate = 5000" "total_spent [] = 0" "is_integer 5000"
    using is_integer_of_int [of 5000]
    by (simp_all add: amount_in_mandate_def gate_example_mandate_def total_spent_def)
  have old: "minRationaleChars (c_config gate_example_context) \<le> length (trim (i_rationale gate_example_intent))"
    "recent_count (iso_text 1699996400000) [] < velocityMaxCount (c_config gate_example_context)"
    using gate_example_conditions(4) unfolding may_auto_def by blast+
  have "may_auto (race_intent i) ?ctx gate_example_mandate [] (iso_text 1699996400000)"
    unfolding may_auto_def sel trust using live cov risk caps old by simp
  from gate_auto_intro [OF mandate spend win this] show thesis
    by (intro that) (auto simp: exec_gate_def gate_example_mandate_def)
qed

lemma racing_no_alert:
  assumes "racing n st" "n \<le> 2"
  shows "exec_alert example_now (race_intent i) d st = None"
proof -
  let ?opts = "chain_options (xs_store st) d example_now"
  let ?recent = "recent_decisions (race_intent i) ?opts (xs_log st)"
  have log: "\<And>e. e \<in> set (xs_log st) \<Longrightarrow> ae_type e = GateDecisionEvent" and len: "length (xs_log st) \<le> 2"
    using assms by (auto simp: racing_def)
  have short: "length (List.map_filter f (filter P xs)) \<le> length xs" for f :: "audit_entry \<Rightarrow> (payment_intent \<times> decision_payload) option" and P xs
    by (induction xs) (auto simp: List.map_filter_simps split: option.split)
  then have recent: "length ?recent \<le> 2" unfolding recent_decisions_def using len by (meson order_trans)
  then have "length (same_payee_auto (race_intent i) ?recent) \<le> 2"
    unfolding same_payee_auto_def using length_filter_le order_trans by blast
  then have smurf: "smurfing (race_intent i) ?opts ?recent = None" by (simp add: smurfing_def Let_def)
  have "\<forall>(j, p) \<in> set ?recent. i_rail j = Card"
    using assms(1) by (fastforce simp: racing_def recent_decisions_def decision_of_def List.map_filter_def split: payload.splits)
  then have rails: "set (map (\<lambda>(j, p). i_rail j) (same_payee_auto (race_intent i) ?recent)) \<union> {i_rail (race_intent i)} = {Card}"
    by (auto simp: same_payee_auto_def)
  have split: "splitting (race_intent i) ?opts ?recent = None" unfolding splitting_def Let_def rails by simp
  have "length (filter (\<lambda>(j, p). dp_outcome p = Block \<or> dp_outcome p = ConfirmOperator) ?recent) \<le> 2"
    using recent length_filter_le order_trans by blast
  then have probe: "probing (race_intent i) ?opts ?recent = None" by (simp add: probing_def Let_def)
  have none: "latestGrantTsBefore es m b None = None" if "\<And>e. e \<in> set es \<Longrightarrow> ae_type e = GateDecisionEvent" for es m b
    using that by (induction es) (auto split: event_type.split)
  have "drain_at (race_intent i) ?opts (xs_log st) e = None" for e
    using none [OF log] by (simp add: drain_at_def Let_def split: option.split)
  with smurf split probe show ?thesis by (simp add: exec_alert_def evaluateRiskChain_None_iff)
qed

lemma racing_take_off:
  assumes "racing n st" "n \<le> 2"
  shows "\<exists>d st1. execute_decide example_deps example_now (race_intent i) None st = (ToRail d, st1) \<and>
    racing (Suc n) st1 \<and> xs_world st1 = xs_world st \<and> gd_mandateId d = Some (js ''m_1'')"
proof -
  obtain d where d: "exec_gate example_deps example_now (race_intent i) None st = Inr d"
    "gd_outcome d = AutoExecute" "gd_mandateId d = Some (js ''m_1'')"
    using racing_gate [OF assms(1)] .
  note facts = racing_facts [OF assms(1)] and alert = racing_no_alert [OF assms, of i d]
  have "m_id gate_example_mandate = js ''m_1''" by (simp add: gate_example_mandate_def)
  with facts obtain inputs where inputs:
    "capture_inputs example_deps (xs_store st) example_now (race_intent i) None = Inr inputs"
    by (auto simp: capture_inputs_def Let_def)
  let ?p = "agent_payload example_deps (race_intent i) d inputs"
  have "execute_decide example_deps example_now (race_intent i) None st =
      (ToRail d, record_decision example_deps ?p example_now st)"
    using d inputs alert facts(4) by (simp add: execute_decide_def exec_gate_def exec_alert_def escalate_def Let_def)
  moreover obtain e q where e: "xs_log (record_decision example_deps ?p example_now st) = xs_log st @ [e]"
    "ae_type e = GateDecisionEvent" "ae_payload e = GateDecisionP q" "dp_intent q = Some (race_intent i)"
    "dp_outcome q = AutoExecute"
    using d(2) by (simp add: record_decision_def record_event_log log_record_def make_entry_def Let_def agent_payload_def)
  then have "racing (Suc n) (record_decision example_deps ?p example_now st)"
    using assms(1) by (auto simp: racing_def record_decision_def record_event_def Let_def appendAudit_def)
  ultimately show ?thesis using d(3) by auto
qed

definition race_flight :: "str \<Rightarrow> gate_decision \<Rightarrow> nat flight" where
  "race_flight i d =
     \<lparr>fl_now = example_now, fl_intent = race_intent i, fl_decision = d, fl_provider = example_rail,
      fl_answer = fst (pv_settle example_rail (race_intent i) example_now 0)\<rparr>"

lemma race_take_off_step:
  assumes "racing n (sys_state S)" "n \<le> 2"
  shows "\<exists>d st. conc_step example_deps S \<lparr>sys_state = st, sys_flights = sys_flights S @ [race_flight i d]\<rparr> \<and>
    racing (Suc n) st \<and> gd_mandateId d = Some (js ''m_1'')"
proof -
  obtain d st1 where t: "execute_decide example_deps example_now (race_intent i) None (sys_state S) = (ToRail d, st1)"
    "racing (Suc n) st1" "gd_mandateId d = Some (js ''m_1'')"
    using racing_take_off [OF assms, of i] by (elim exE conjE) (rule that)
  have settle: "pv_settle example_rail (race_intent i) example_now (xs_world st1) =
      (fst (pv_settle example_rail (race_intent i) example_now 0), xs_world st1 + 1)"
    by (simp add: example_rail_def createFakeRail_def)
  have rail: "registry_get (xd_rails example_deps) (i_rail (race_intent i)) = Some example_rail"
    using example_provider by simp
  have "conc_step example_deps S \<lparr>sys_state = st1\<lparr>xs_world := xs_world st1 + 1\<rparr>, sys_flights = sys_flights S @ [race_flight i d]\<rparr>"
    unfolding race_flight_def by (rule take_off [OF t(1) rail settle])
  with t(3) racing_world [OF t(2)] show ?thesis by (intro exI conjI) assumption+
qed

lemma race_land_step:
  assumes "getIntent (xs_store (sys_state S)) i = None" "sys_flights S = race_flight i d # fs"
    and "gd_mandateId d = Some (js ''m_1'')"
  shows "\<exists>st si. conc_step example_deps S \<lparr>sys_state = st, sys_flights = fs\<rparr> \<and>
    st_intents (xs_store st) = st_intents (xs_store (sys_state S)) @ [(i, si)] \<and>
    st_mandates (xs_store st) = st_mandates (xs_store (sys_state S)) \<and>
    si_status si = Settled \<and> si_mandateId si = Some (js ''m_1'') \<and> si_settledAt si = Some example_now \<and> net_amount si = 5000"
proof -
  let ?f = "race_flight i d"
  obtain out st1 where s: "settle_record example_deps example_rail (race_intent i) example_now (fl_answer ?f) (sys_state S) = (out, st1)"
    by fastforce
  obtain r0 w where r0: "pv_settle example_rail (race_intent i) example_now 0 = (Inr r0, w)"
    by (simp add: example_rail_def createFakeRail_def)
  note bind = honest_rail.binds [OF example_rail_honest r0] honest_rail.verifies [OF example_rail_honest r0]
  then obtain rc v where out: "out = Inr (rc, v)" and at: "r_settledAt rc = example_now"
    using s r0 by (auto simp: settle_record_def Let_def race_flight_def)
  obtain res st where e: "execute_record (race_intent i) d out st1 = (res, st)" by fastforce
  let ?si = "stored (race_intent i) Settled (gd_mandateId d) (gd_reasons d) (Some (r_settledAt rc)) (Some (r_id rc))"
  note books = settle_record_meta [OF s]
  have none: "getIntent (xs_store st1) i = None" using assms(1) books by (simp add: getIntent_def)
  obtain s' where s': "insertIntent ?si (xs_store st1) = Inr s'"
    using ledger.insert_fresh [of "xs_store st1" ?si] none by (auto simp: stored_def)
  with e have st: "st = recordOutcome True (st1\<lparr>xs_store := s'\<rparr>)"
    by (simp add: out execute_record_def file_intent_def)
  have "st_intents (xs_store st) = st_intents (xs_store (sys_state S)) @ [(i, ?si)]"
    "st_mandates (xs_store st) = st_mandates (xs_store (sys_state S))"
    using insert_frame [OF s'] books by (simp_all add: st) (simp add: stored_def)
  moreover have "conc_step example_deps S \<lparr>sys_state = st, sys_flights = fs\<rparr>"
    using land [of S "[]" ?f fs example_deps out st1 res st] assms(2) s e by (simp add: race_flight_def)
  moreover have "si_status ?si = Settled" "si_mandateId ?si = Some (js ''m_1'')" "si_settledAt ?si = Some example_now"
    "net_amount ?si = 5000"
    using assms(3) at by (simp_all add: net_amount_def) (simp_all add: stored_def)
  ultimately show ?thesis by blast
qed

lemma race_three:
  "\<exists>S a b c. (conc_step example_deps)\<^sup>*\<^sup>* (system_of (example_state [])) S \<and> sys_flights S = [] \<and>
     st_mandates (xs_store (sys_state S)) = [(js ''m_1'', gate_example_mandate)] \<and>
     st_intents (xs_store (sys_state S)) =
       [(js ''pi_0'', earlier_intent), (js ''a'', a), (js ''b'', b), (js ''c'', c)] \<and>
     (\<forall>si \<in> {a, b, c}. si_status si = Settled \<and> si_mandateId si = Some (js ''m_1'') \<and>
        si_settledAt si = Some example_now \<and> net_amount si = 5000)"
proof -
  obtain d1 s1 where 1: "conc_step example_deps (system_of (example_state [])) \<lparr>sys_state = s1, sys_flights = [race_flight (js ''a'') d1]\<rparr>"
    "racing (Suc 0) s1" and d1: "gd_mandateId d1 = Some (js ''m_1'')"
    using race_take_off_step [of 0 "system_of (example_state [])" "js ''a''"] racing_start by (auto simp: system_of_def)
  obtain d2 s2 where 2: "conc_step example_deps \<lparr>sys_state = s1, sys_flights = [race_flight (js ''a'') d1]\<rparr>
      \<lparr>sys_state = s2, sys_flights = [race_flight (js ''a'') d1, race_flight (js ''b'') d2]\<rparr>"
    "racing (Suc (Suc 0)) s2" and d2: "gd_mandateId d2 = Some (js ''m_1'')"
    using race_take_off_step [of "Suc 0" "\<lparr>sys_state = s1, sys_flights = [race_flight (js ''a'') d1]\<rparr>" "js ''b''"] 1(2) by auto
  obtain d3 s3 where 3: "conc_step example_deps \<lparr>sys_state = s2, sys_flights = [race_flight (js ''a'') d1, race_flight (js ''b'') d2]\<rparr>
      \<lparr>sys_state = s3, sys_flights = [race_flight (js ''a'') d1, race_flight (js ''b'') d2, race_flight (js ''c'') d3]\<rparr>"
    "racing (Suc (Suc (Suc 0))) s3" and d3: "gd_mandateId d3 = Some (js ''m_1'')"
    using race_take_off_step [of "Suc (Suc 0)" "\<lparr>sys_state = s2, sys_flights = [race_flight (js ''a'') d1, race_flight (js ''b'') d2]\<rparr>" "js ''c''"] 2(2)
    by auto
  let ?S3 = "\<lparr>sys_state = s3, sys_flights = [race_flight (js ''a'') d1, race_flight (js ''b'') d2, race_flight (js ''c'') d3]\<rparr>"
  have b3: "st_intents (xs_store s3) = [(js ''pi_0'', earlier_intent)]" "st_mandates (xs_store s3) = [(js ''m_1'', gate_example_mandate)]"
    using 3(2) by (simp_all add: racing_def)
  obtain s4 a where 4: "conc_step example_deps ?S3 \<lparr>sys_state = s4, sys_flights = [race_flight (js ''b'') d2, race_flight (js ''c'') d3]\<rparr>"
    "st_intents (xs_store s4) = [(js ''pi_0'', earlier_intent), (js ''a'', a)]" "st_mandates (xs_store s4) = [(js ''m_1'', gate_example_mandate)]"
    and a: "si_status a = Settled \<and> si_mandateId a = Some (js ''m_1'') \<and> si_settledAt a = Some example_now \<and> net_amount a = 5000"
    using race_land_step [of ?S3 "js ''a''" d1] d1 b3 by (auto simp: getIntent_def)
  let ?S4 = "\<lparr>sys_state = s4, sys_flights = [race_flight (js ''b'') d2, race_flight (js ''c'') d3]\<rparr>"
  obtain s5 b where 5: "conc_step example_deps ?S4 \<lparr>sys_state = s5, sys_flights = [race_flight (js ''c'') d3]\<rparr>"
    "st_intents (xs_store s5) = [(js ''pi_0'', earlier_intent), (js ''a'', a), (js ''b'', b)]" "st_mandates (xs_store s5) = [(js ''m_1'', gate_example_mandate)]"
    and b: "si_status b = Settled \<and> si_mandateId b = Some (js ''m_1'') \<and> si_settledAt b = Some example_now \<and> net_amount b = 5000"
    using race_land_step [of ?S4 "js ''b''" d2] d2 4(2,3) by (auto simp: getIntent_def)
  let ?S5 = "\<lparr>sys_state = s5, sys_flights = [race_flight (js ''c'') d3]\<rparr>"
  obtain s6 c where 6: "conc_step example_deps ?S5 \<lparr>sys_state = s6, sys_flights = []\<rparr>"
    "st_intents (xs_store s6) = [(js ''pi_0'', earlier_intent), (js ''a'', a), (js ''b'', b), (js ''c'', c)]"
    "st_mandates (xs_store s6) = [(js ''m_1'', gate_example_mandate)]"
    and c: "si_status c = Settled \<and> si_mandateId c = Some (js ''m_1'') \<and> si_settledAt c = Some example_now \<and> net_amount c = 5000"
    using race_land_step [of ?S5 "js ''c''" d3] d3 5(2,3) by (auto simp: getIntent_def)
  note step = converse_rtranclp_into_rtranclp [of "conc_step example_deps"]
  have "(conc_step example_deps)\<^sup>*\<^sup>* (system_of (example_state [])) \<lparr>sys_state = s6, sys_flights = []\<rparr>"
    by (rule step [OF 1(1)], rule step [OF 2(1)], rule step [OF 3(1)], rule step [OF 4(1)], rule step [OF 5(1)],
        rule step [OF 6(1)], rule rtranclp.rtrancl_refl)
  with 6(2,3) a b c show ?thesis by (intro exI conjI) (assumption | simp)+
qed

section \<open>Properties\<close>





text \<open>
  Property C20: concurrent executions overspend. From one and the same state, three payments of 5000 each,
  every one of them let through by the gate, settle under a monthly budget of 10000: a spend in flight
  is not yet recorded when the next payment is decided, so the budget that no sequence of atomic
  executions exceeds is exceeded by a schedule of concurrent ones.
\<close>

theorem concurrent_executions_overspend:
  "\<exists>S start. (conc_step example_deps)\<^sup>*\<^sup>* (system_of (example_state [])) S \<and> sys_flights S = [] \<and>
     within_budget (xs_store (example_state [])) example_now \<and>
     listMandates (xs_store (sys_state S)) = [gate_example_mandate] \<and>
     periodStart example_now (m_period gate_example_mandate) = Inr start \<and>
     spent_since (xs_store (sys_state S)) (m_id gate_example_mandate) start = 15000 \<and>
     m_perPeriodCap gate_example_mandate = 10000"
proof -
  obtain S a b c where S: "(conc_step example_deps)\<^sup>*\<^sup>* (system_of (example_state [])) S" "sys_flights S = []"
    "st_mandates (xs_store (sys_state S)) = [(js ''m_1'', gate_example_mandate)]"
    "st_intents (xs_store (sys_state S)) = [(js ''pi_0'', earlier_intent), (js ''a'', a), (js ''b'', b), (js ''c'', c)]"
    and si: "\<forall>si \<in> {a, b, c}. si_status si = Settled \<and> si_mandateId si = Some (js ''m_1'') \<and>
      si_settledAt si = Some example_now \<and> net_amount si = 5000"
    using race_three by blast
  let ?start = "iso_text 1698796800000"
  have start: "periodStart example_now Month = Inr ?start" using november_2023(1) by (simp add: example_now_def)
  have "?start \<le> example_now" "\<not> ?start \<le> iso_text 1690000000000"
    using iso_text_le [of 1698796800000 1700000000000] iso_text_le [of 1698796800000 1690000000000]
    by (simp_all add: iso_range_def example_now_def)
  then have "counted (js ''m_1'') ?start earlier_intent = 0" "\<And>si. si \<in> {a, b, c} \<Longrightarrow> counted (js ''m_1'') ?start si = 5000"
    using si by (auto simp: counted_def counts_towards_def earlier_intent_def stored_def)
  then have "spent_since (xs_store (sys_state S)) (js ''m_1'') ?start = 15000"
    by (simp add: spent_since_def S(4))
  moreover have "m_id gate_example_mandate = js ''m_1''" "m_period gate_example_mandate = Month"
    "m_perPeriodCap gate_example_mandate = 10000"
    by (simp_all add: gate_example_mandate_def)
  ultimately show ?thesis
    using S start example_books(2) by (intro exI [of _ S] exI [of _ ?start]) (simp add: listMandates_def)
qed

end
