(* ===== verification/Sdk.thy ===== *)
theory Sdk
  imports Executor_Ledger Deny_List
begin

text \<open>
  The facade \<open>AgentWorth\<close> of \<open>src/sdk/index.ts\<close>, through which a host drives the kernel, with the
  grant presets of \<open>src/core/mandateTemplates.ts\<close> and \<open>src/core/streaming.ts\<close> and the integrity check
  of \<open>src/core/shield.ts\<close>. The random part of a generated id and the clock readings are arguments.

  The operations are also the labels of a step function: the locale \<open>sdk_invariant\<close> extends the
  executor's invariant interface by the two writes the facade adds, and carries an invariant along
  any sequence of operations.
\<close>

section \<open>Construction\<close>

record 'r sdk_options =
  so_store :: "mem_store option"
  so_auditKey :: "str option"
  so_rails :: "'r rail_registry option"
  so_simulation :: "bool option"
  so_config :: "gate_config option"
  so_denyRules :: "deny_rule list option"
  so_breaker :: "nat option"
  so_challenge :: "jsnum option"
  so_fxRates :: "fx_rate_source option"
  so_tokenDecimals :: token_decimals
  so_reputation :: "(str \<Rightarrow> reputation_level option) option"

record 'r agent_worth =
  aw_deps :: "'r exec_deps"
  aw_state :: "'r exec_state"

definition DEFAULT_EXPIRY_DAYS :: jsnum where
  "DEFAULT_EXPIRY_DAYS = 30"

definition simulationRails :: "(jsnum \<Rightarrow> str) \<Rightarrow> 'r rail_registry" where
  "simulationRails num =
     \<lparr>rg_providers = [createFakeRail num Card None, createFakeRail num Checkout None, createFakeRail num Onchain None],
      rg_routes = []\<rparr>"

text \<open>A fresh store draws a random operator key unless the audit key is given; an empty key is refused.\<close>

definition new_agent_worth ::
  "crypto \<Rightarrow> (json \<Rightarrow> str) \<Rightarrow> str \<Rightarrow> 'r sdk_options \<Rightarrow> 'r \<Rightarrow> js_error + 'r agent_worth" where
  "new_agent_worth c jcs randomKey options world =
     (let store = nullish (so_store options) (createMemoryStore (nullish (so_auditKey options) randomKey));
          key = nullish (so_auditKey options) (st_key store);
          rails = nullish (so_rails options)
                    (if so_simulation options = Some True then simulationRails (num_text c)
                     else \<lparr>rg_providers = [], rg_routes = []\<rparr>)
      in bindE (audit_new (SingleKey key)) (\<lambda>_.
           Inr \<lparr>aw_deps =
                  \<lparr>xd_crypto = c, xd_jcs = jcs, xd_key = key, xd_rails = rails,
                   xd_config = nullish (so_config options) DEFAULT_GATE_CONFIG,
                   xd_denyRules = nullish (so_denyRules options) DEFAULT_DENY_RULES,
                   xd_breaker = so_breaker options, xd_challenge = so_challenge options,
                   xd_fxRates = so_fxRates options, xd_tokenDecimals = so_tokenDecimals options,
                   xd_reputation = so_reputation options\<rparr>,
                aw_state = \<lparr>xs_store = store, xs_log = st_audit store, xs_world = world\<rparr>\<rparr>))"

section \<open>Mandates\<close>

record grant_input =
  gi_label :: str
  gi_scope :: payee_scope
  gi_currency :: str
  gi_allowedRails :: "rail_kind list"
  gi_perTxCap :: jsnum
  gi_perPeriodCap :: jsnum
  gi_period :: period
  gi_expiresAt :: "str option"
  gi_expiresInDays :: "jsnum option"
  gi_id :: "str option"

definition grant_expiry :: "str \<Rightarrow> grant_input \<Rightarrow> js_error + str" where
  "grant_expiry now input =
     (case gi_expiresAt input of
        Some t \<Rightarrow> Inr t
      | None \<Rightarrow>
          (case date_parse now of
             None \<Rightarrow> Inl RangeError
           | Some t \<Rightarrow> to_iso \<lfloor>math_trunc (of_int t + nullish (gi_expiresInDays input) DEFAULT_EXPIRY_DAYS * 86400000)\<rfloor>))"

definition granted_mandate :: "str \<Rightarrow> str \<Rightarrow> str \<Rightarrow> grant_input \<Rightarrow> mandate" where
  "granted_mandate uuid now expiresAt input =
     \<lparr>m_id = nullish (gi_id input) (js ''m_'' @ take 8 uuid), m_label = gi_label input, m_scope = gi_scope input,
      m_currency = gi_currency input, m_allowedRails = gi_allowedRails input, m_perTxCap = gi_perTxCap input,
      m_perPeriodCap = gi_perPeriodCap input, m_period = gi_period input, m_grantedAt = now,
      m_expiresAt = expiresAt, m_status = Active\<rparr>"

definition grantMandate ::
  "'r exec_deps \<Rightarrow> str \<Rightarrow> str \<Rightarrow> grant_input \<Rightarrow> 'r exec_state \<Rightarrow> (js_error + mandate) \<times> 'r exec_state" where
  "grantMandate deps uuid now input st =
     (case grant_expiry now input of
        Inl e \<Rightarrow> (Inl e, st)
      | Inr expiresAt \<Rightarrow>
          let m = granted_mandate uuid now expiresAt input
          in (case insertMandate m (xs_store st) of
                Inl e \<Rightarrow> (Inl e, st)
              | Inr s' \<Rightarrow>
                  (Inr m, record_event deps MandateGranted (MandateGrantedP (m_id m) (m_label m)) now
                            (st\<lparr>xs_store := s'\<rparr>))))"

definition sdk_revokeMandate :: "'r exec_deps \<Rightarrow> str \<Rightarrow> str \<Rightarrow> 'r exec_state \<Rightarrow> 'r exec_state" where
  "sdk_revokeMandate deps now i st =
     record_event deps MandateRevoked (MandateRevokedP i) now (st\<lparr>xs_store := revokeMandate i (xs_store st)\<rparr>)"

section \<open>Payments\<close>

record pay_input =
  pay_payee :: str
  pay_amount :: jsnum
  pay_currency :: str
  pay_rail :: rail_kind
  pay_rationale :: str
  pay_payeeClass :: "str option"
  pay_attestation :: "attestation option"
  pay_id :: "str option"
  pay_createdAt :: "str option"

definition pay_intent :: "str \<Rightarrow> str \<Rightarrow> pay_input \<Rightarrow> payment_intent" where
  "pay_intent uuid created input =
     \<lparr>i_id = nullish (pay_id input) (js ''pi_'' @ take 8 uuid), i_payee = pay_payee input,
      i_payeeClass = nullish (pay_payeeClass input) (pay_payee input), i_amount = pay_amount input,
      i_currency = pay_currency input, i_rail = pay_rail input, i_rationale = pay_rationale input,
      i_createdAt = nullish (pay_createdAt input) created\<rparr>"

definition pay ::
  "'r exec_deps \<Rightarrow> str \<Rightarrow> str \<Rightarrow> str \<Rightarrow> pay_input \<Rightarrow> 'r exec_state \<Rightarrow>
   (js_error + execute_result) \<times> 'r exec_state" where
  "pay deps uuid created now input st = execute deps now (pay_intent uuid created input) (pay_attestation input) st"

definition sdk_approve ::
  "'r exec_deps \<Rightarrow> str \<Rightarrow> str \<Rightarrow> str \<Rightarrow> bool option \<Rightarrow> 'r exec_state \<Rightarrow>
   (js_error + execute_result) \<times> 'r exec_state" where
  "sdk_approve deps now i rationale ack st = approve deps now i rationale (ack = Some True) st"

definition verifyAudit :: "'r exec_deps \<Rightarrow> 'r exec_state \<Rightarrow> verify_result" where
  "verifyAudit deps st = audit_verify (xd_crypto deps) (SingleKey (xd_key deps)) (xs_log st)"

section \<open>Presets\<close>

datatype mandate_template = Groceries | Subscriptions | Transport | Utilities

record template_defaults =
  td_scopeClass :: str
  td_rails :: "rail_kind list"
  td_perTxCap :: jsnum
  td_perPeriodCap :: jsnum
  td_period :: period

fun TEMPLATES :: "mandate_template \<Rightarrow> template_defaults" where
  "TEMPLATES Groceries =
     \<lparr>td_scopeClass = js ''groceries'', td_rails = [Card], td_perTxCap = 20000, td_perPeriodCap = 80000, td_period = Week\<rparr>"
| "TEMPLATES Subscriptions =
     \<lparr>td_scopeClass = js ''subscription'', td_rails = [Card, Checkout], td_perTxCap = 5000, td_perPeriodCap = 20000,
      td_period = Month\<rparr>"
| "TEMPLATES Transport =
     \<lparr>td_scopeClass = js ''transport'', td_rails = [Card], td_perTxCap = 10000, td_perPeriodCap = 40000, td_period = Month\<rparr>"
| "TEMPLATES Utilities =
     \<lparr>td_scopeClass = js ''utilities'', td_rails = [Card, Checkout], td_perTxCap = 50000, td_perPeriodCap = 150000,
      td_period = Month\<rparr>"

fun template_name :: "mandate_template \<Rightarrow> str" where
  "template_name Groceries = js ''groceries''"
| "template_name Subscriptions = js ''subscriptions''"
| "template_name Transport = js ''transport''"
| "template_name Utilities = js ''utilities''"

definition templateMandate :: "mandate_template \<Rightarrow> str \<Rightarrow> str \<Rightarrow> str \<Rightarrow> str \<Rightarrow> str option \<Rightarrow> mandate" where
  "templateMandate template i currency grantedAt expiresAt label =
     (let t = TEMPLATES template
      in \<lparr>m_id = i, m_label = nullish label (template_name template), m_scope = ScopeClass (td_scopeClass t),
          m_currency = currency, m_allowedRails = td_rails t, m_perTxCap = td_perTxCap t,
          m_perPeriodCap = td_perPeriodCap t, m_period = td_period t, m_grantedAt = grantedAt,
          m_expiresAt = expiresAt, m_status = Active\<rparr>)"

record streaming_spec =
  ss_id :: str
  ss_label :: str
  ss_scope :: payee_scope
  ss_currency :: str
  ss_grantedAt :: str
  ss_expiresAt :: str
  ss_rail :: "rail_kind option"
  ss_perTxCap :: "jsnum option"
  ss_perPeriodCap :: "jsnum option"

definition streamingMandate :: "streaming_spec \<Rightarrow> mandate" where
  "streamingMandate spec =
     \<lparr>m_id = ss_id spec, m_label = ss_label spec, m_scope = ss_scope spec, m_currency = ss_currency spec,
      m_allowedRails = [nullish (ss_rail spec) Onchain], m_perTxCap = nullish (ss_perTxCap spec) 100,
      m_perPeriodCap = nullish (ss_perPeriodCap spec) 1000000, m_period = Day, m_grantedAt = ss_grantedAt spec,
      m_expiresAt = ss_expiresAt spec, m_status = Active\<rparr>"

section \<open>The integrity shield\<close>

text \<open>\<open>checkIntegrity\<close>: what the shield does at its start and at every change of the watched file.\<close>

definition checkIntegrity :: "'r exec_deps \<Rightarrow> 'r exec_state \<Rightarrow> 'r exec_state" where
  "checkIntegrity deps st =
     (if \<not> vr_valid (verifyAudit deps st) \<and> \<not> isKilled (xs_store st) then engageKillSwitch st else st)"

section \<open>Runs\<close>

datatype sdk_op =
    OpGrant str str grant_input
  | OpAmend str str mandate_patch
  | OpExtend str str str
  | OpRevoke str str
  | OpPay str str str pay_input
  | OpApprove str str str "bool option"
  | OpRefund str str "jsnum option" "str option"
  | OpKill | OpUnkill | OpResetBreaker | OpShield

fun sdk_step :: "'r exec_deps \<Rightarrow> sdk_op \<Rightarrow> 'r exec_state \<Rightarrow> 'r exec_state" where
  "sdk_step deps (OpGrant uuid now input) st = snd (grantMandate deps uuid now input st)"
| "sdk_step deps (OpAmend now i patch) st = amendMandate deps now i patch st"
| "sdk_step deps (OpExtend now i t) st = extendMandate deps now i t st"
| "sdk_step deps (OpRevoke now i) st = sdk_revokeMandate deps now i st"
| "sdk_step deps (OpPay uuid created now input) st = snd (pay deps uuid created now input st)"
| "sdk_step deps (OpApprove now i why ack) st = snd (sdk_approve deps now i why ack st)"
| "sdk_step deps (OpRefund now i amt why) st = snd (refund deps now i amt why st)"
| "sdk_step deps OpKill st = engageKillSwitch st"
| "sdk_step deps OpUnkill st = disengageKillSwitch st"
| "sdk_step deps OpResetBreaker st = resetCircuitBreaker st"
| "sdk_step deps OpShield st = checkIntegrity deps st"

definition sdk_run :: "'r exec_deps \<Rightarrow> sdk_op list \<Rightarrow> 'r exec_state \<Rightarrow> 'r exec_state" where
  "sdk_run deps ops st = fold (sdk_step deps) ops st"

locale sdk_invariant = exec_invariant deps Inv for deps :: "'r exec_deps" and Inv +
  assumes inv_grant: "Inv st \<Longrightarrow> insertMandate m (xs_store st) = Inr s' \<Longrightarrow> Inv (st\<lparr>xs_store := s'\<rparr>)"
    and inv_revoke: "Inv st \<Longrightarrow> Inv (st\<lparr>xs_store := revokeMandate i (xs_store st)\<rparr>)"
begin

lemma inv_grantMandate: "Inv st \<Longrightarrow> Inv (snd (grantMandate deps uuid now input st))"
  by (auto simp: grantMandate_def Let_def split: sum.split intro: inv_record inv_grant)

lemma inv_step: "Inv st \<Longrightarrow> Inv (sdk_step deps op st)"
proof (cases op)
  case (OpPay uuid created now input)
  assume "Inv st"
  moreover obtain res st' where "execute deps now (pay_intent uuid created input) (pay_attestation input) st = (res, st')"
    by fastforce
  ultimately show ?thesis using inv_execute OpPay by (simp add: pay_def)
next
  case (OpApprove now i why ack)
  assume "Inv st"
  moreover obtain res st' where "approve deps now i why (ack = Some True) st = (res, st')" by fastforce
  ultimately show ?thesis using inv_approve OpApprove by (simp add: sdk_approve_def)
next
  case (OpRefund now i amt why)
  assume "Inv st"
  moreover obtain res st' where "refund deps now i amt why st = (res, st')" by fastforce
  ultimately show ?thesis using inv_refund OpRefund by simp
qed (auto simp: inv_grantMandate inv_mandate_changes inv_operator sdk_revokeMandate_def checkIntegrity_def
      intro: inv_record inv_revoke)

lemma inv_run: "Inv st \<Longrightarrow> Inv (sdk_run deps ops st)"
  unfolding sdk_run_def by (induction ops arbitrary: st) (auto intro: inv_step)

end

interpretation sdk_trail: sdk_invariant deps "audited deps" for deps
  by unfold_locales (simp_all add: audited_def exec_frame)

interpretation sdk_growth: sdk_invariant deps "\<lambda>st. \<exists>es. xs_log st = l0 @ es" for deps l0
  by unfold_locales auto

interpretation sdk_wf: sdk_invariant deps "\<lambda>st. store_wf (xs_store st)" for deps
  by unfold_locales (auto intro: store_wf_insertMandate)

section \<open>Properties\<close>


definition example_options :: "nat sdk_options" where
  "example_options =
     \<lparr>so_store = None, so_auditKey = Some (js ''k''), so_rails = None, so_simulation = None, so_config = None,
      so_denyRules = None, so_breaker = None, so_challenge = None, so_fxRates = None, so_tokenDecimals = None,
      so_reputation = None\<rparr>"

definition example_grant :: grant_input where
  "example_grant =
     \<lparr>gi_label = js ''tools'', gi_scope = ScopeClass (js ''saas''), gi_currency = js ''USD'', gi_allowedRails = [Card],
      gi_perTxCap = 5000, gi_perPeriodCap = 10000, gi_period = Month, gi_expiresAt = None,
      gi_expiresInDays = None, gi_id = Some (js ''m_1'')\<rparr>"

definition example_pay :: pay_input where
  "example_pay =
     \<lparr>pay_payee = js ''acme'', pay_amount = 2500, pay_currency = js ''USD'', pay_rail = Card,
      pay_rationale = js ''x402 paywall: monthly plan on base (exact)'', pay_payeeClass = Some (js ''saas''), pay_attestation = None,
      pay_id = Some (js ''pi_1''), pay_createdAt = None\<rparr>"

lemma example_construct: "\<exists>aw. new_agent_worth example_crypto jcs (js ''r'') example_options w = Inr aw"
  by (simp add: new_agent_worth_def Let_def example_options_def audit_new_def)


lemma no_rails_world:
  assumes "rg_providers (xd_rails deps) = []"
  shows "xs_world (sdk_step deps op st) = xs_world st"
proof -
  have none: "registry_get (xd_rails deps) rail = None" "registry_byId (xd_rails deps) j = None" for rail j
    using assms by (auto simp: registry_get_def registry_byId_def registry_map_def fromEntries_def split: option.splits)
  then have no_refund: "refund_provider deps rc rail = None" for rc rail
    by (auto simp: refund_provider_def split: option.split)
  have settle: "xs_world st' = xs_world s" if "settle deps intent now s = (out, st')" for intent now s out st'
    using that by (cases rule: settle_cases) (simp_all add: none)
  have "xs_world st' = xs_world st" if "execute deps now intent att st = (res, st')" for now intent att res st'
    using that by (cases rule: execute_cases)
      (auto dest!: execute_decide_world settle execute_record_world)
  moreover have "xs_world st' = xs_world st" if "approve deps now i why ack st = (res, st')" for now i why ack res st'
    using that by (cases rule: approve_cases)
      (auto dest!: approve_decide_world settle approve_record_world)
  moreover have "xs_world st' = xs_world st" if "refund deps now i amt why st = (res, st')" for now i amt why res st'
    using that by (cases rule: refund_cases) (simp_all add: no_refund)
  ultimately show ?thesis
    by (cases op) (auto simp: pay_def sdk_approve_def grantMandate_def Let_def sdk_revokeMandate_def amendMandate_def
        extendMandate_def engageKillSwitch_def disengageKillSwitch_def resetCircuitBreaker_def checkIntegrity_def
        split: sum.split, metis snd_conv surj_pair, metis snd_conv surj_pair, metis snd_conv surj_pair)
qed

text \<open>
  Fact: an unconfigured facade moves no money. Constructed without rails and without the simulation
  flag, no sequence of operations changes the world, and no later payment answers "settled".
\<close>

theorem unconfigured_sdk_moves_nothing:
  assumes "new_agent_worth c jcs randomKey options world = Inr aw"
    and "so_rails options = None" "so_simulation options \<noteq> Some True"
  shows "xs_world (sdk_run (aw_deps aw) ops (aw_state aw)) = world \<and>
    (\<forall>uuid created now input r. fst (pay (aw_deps aw) uuid created now input (sdk_run (aw_deps aw) ops (aw_state aw))) =
       Inr r \<longrightarrow> xr_status r \<noteq> Settled)"
proof -
  from assms have rails: "rg_providers (xd_rails (aw_deps aw)) = []" and w: "xs_world (aw_state aw) = world"
    by (auto simp: new_agent_worth_def Let_def bindE_Inr_iff)
  have "xs_world (sdk_run (aw_deps aw) ops st) = xs_world st" for st
    unfolding sdk_run_def by (induction ops arbitrary: st) (simp_all add: no_rails_world [OF rails])
  moreover have "registry_get (xd_rails (aw_deps aw)) rail = None" for rail
    using rails by (auto simp: registry_get_def registry_map_def fromEntries_def split: option.splits)
  then have "xr_status r \<noteq> Settled" if "fst (pay (aw_deps aw) uuid created now input st) = Inr r" for uuid created now input st r
    using that by (cases "pay (aw_deps aw) uuid created now input st") (auto simp: pay_def elim: execute_settledE)
  ultimately show ?thesis using w by simp
qed

theorem unconfigured_sdk_moves_nothing_witness:
  "\<exists>aw. new_agent_worth example_crypto (\<lambda>_. []) (js ''r'') example_options 7 = Inr aw \<and>
     xs_world (sdk_run (aw_deps aw) [OpGrant (js ''u'') example_now example_grant,
       OpPay (js ''u'') example_now example_now example_pay] (aw_state aw)) = 7"
proof -
  obtain aw where aw: "new_agent_worth example_crypto (\<lambda>_. []) (js ''r'') example_options 7 = Inr aw"
    using example_construct by blast
  have "so_rails example_options = None" "so_simulation example_options \<noteq> Some True"
    by (simp_all add: example_options_def)
  from unconfigured_sdk_moves_nothing [OF aw this] aw show ?thesis by blast
qed

text \<open>What keeps a revoked mandate revoked: anything but an amendment that sets its status.\<close>

fun reactivates :: "str \<Rightarrow> sdk_op \<Rightarrow> bool" where
  "reactivates i (OpAmend now j patch) \<longleftrightarrow> j = i \<and> mp_status patch \<noteq> None"
| "reactivates i op \<longleftrightarrow> False"

definition revoked :: "str \<Rightarrow> mem_store \<Rightarrow> bool" where
  "revoked i s \<longleftrightarrow> (\<exists>m. map_of (st_mandates s) i = Some m \<and> m_status m = Revoked)"

lemma revoked_cong: "st_mandates s = st_mandates s' \<Longrightarrow> revoked i s = revoked i s'"
  by (simp add: revoked_def)

lemma revoked_step:
  assumes "revoked i (xs_store st)" "\<not> reactivates i op"
  shows "revoked i (xs_store (sdk_step deps op st))"
proof -
  have same: "st_mandates (xs_store st') = st_mandates (xs_store st) \<Longrightarrow> revoked i (xs_store st')" for st' :: "'a exec_state"
    using assms(1) revoked_cong by blast
  show ?thesis
  proof (cases op)
    case (OpGrant uuid now input)
    have "revoked i s'" if "insertMandate m (xs_store st) = Inr s'" for m s'
      using that assms(1) by (auto simp: insertMandate_def revoked_def omap.get_put split: if_splits)
    then have "revoked i (xs_store (record_event deps t p ts (st\<lparr>xs_store := s'\<rparr>)))"
      if "insertMandate m (xs_store st) = Inr s'" for m s' t p ts
      using that by (simp add: revoked_def)
    with OpGrant assms(1) show ?thesis by (auto simp: grantMandate_def Let_def split: sum.split)
  next
    case (OpAmend now j patch)
    with assms show ?thesis
      by (auto simp: amendMandate_def revoked_def updateMandate_def omap.get_put apply_patch_def split: option.split)
  next
    case (OpExtend now j t)
    with assms show ?thesis
      by (auto simp: extendMandate_def revoked_def updateMandate_def omap.get_put apply_patch_def no_patch_def split: option.split)
  next
    case (OpRevoke now j)
    with assms show ?thesis
      by (auto simp: sdk_revokeMandate_def revoked_def revokeMandate_def omap.get_put split: option.split)
  next
    case (OpPay uuid created now input)
    obtain res st' where "execute deps now (pay_intent uuid created input) (pay_attestation input) st = (res, st')" by fastforce
    with authority.inv_execute [OF refl this] OpPay same show ?thesis by (simp add: pay_def)
  next
    case (OpApprove now j why ack)
    obtain res st' where "approve deps now j why (ack = Some True) st = (res, st')" by fastforce
    with authority.inv_approve [OF refl this] OpApprove same show ?thesis by (simp add: sdk_approve_def)
  next
    case (OpRefund now j amt why)
    obtain res st' where "refund deps now j amt why st = (res, st')" by fastforce
    with authority.inv_refund [OF refl this] OpRefund same show ?thesis by simp
  qed (use assms(1) in \<open>auto intro!: same simp: authority.inv_operator checkIntegrity_def\<close>)
qed



text \<open>
  Fact: the shield stops a kernel whose log no longer verifies: after its check neither execute nor
  approve reaches a rail. It looks at the log in memory only: if that log verifies, the check leaves
  any store as it is, also one whose stored trail was changed behind the kernel's back.
\<close>

theorem shield_guards_the_log:
  "(\<not> vr_valid (verifyAudit deps st) \<longrightarrow>
      xs_world (snd (execute deps now intent att (checkIntegrity deps st))) = xs_world st \<and>
      xs_world (snd (approve deps now i why ack (checkIntegrity deps st))) = xs_world st) \<and>
   (vr_valid (verifyAudit deps st) \<longrightarrow>
      (\<forall>s. checkIntegrity deps (st\<lparr>xs_store := s\<rparr>) = st\<lparr>xs_store := s\<rparr>))"
proof (intro conjI impI allI)
  assume bad: "\<not> vr_valid (verifyAudit deps st)"
  let ?st = "checkIntegrity deps st"
  have "isKilled (xs_store ?st)" and w: "xs_world ?st = xs_world st"
    using bad by (auto simp: checkIntegrity_def engageKillSwitch_def isKilled_def getMeta_setMeta)
  then have halt: "haltReason deps (xs_store ?st) = Some KillSwitchEngaged" by (simp add: haltReason_def)
  obtain res st' where ex: "execute deps now intent att ?st = (res, st')" by fastforce
  obtain res2 st2 where ap: "approve deps now i why ack ?st = (res2, st2)" by fastforce
  from halted_execute(1) [OF halt ex] ex w show "xs_world (snd (execute deps now intent att ?st)) = xs_world st" by simp
  from halted_approve(1) [OF halt ap] ap w show "xs_world (snd (approve deps now i why ack ?st)) = xs_world st" by simp
next
  fix s assume "vr_valid (verifyAudit deps st)"
  then show "checkIntegrity deps (st\<lparr>xs_store := s\<rparr>) = st\<lparr>xs_store := s\<rparr>"
    by (simp add: checkIntegrity_def verifyAudit_def)
qed


theorem shield_guards_the_log_witness:
  "\<exists>st :: nat exec_state. \<not> vr_valid (verifyAudit example_deps st) \<and>
     xs_world (snd (execute example_deps example_now gate_example_intent None (checkIntegrity example_deps st))) = xs_world st"
proof -
  let ?st = "(example_state [])\<lparr>xs_log := map (\<lambda>e. e\<lparr>ae_prevHash := []\<rparr>) example_log\<rparr>"
  have "GENESIS \<noteq> []" by (simp add: GENESIS_def)
  then have "\<not> vr_valid (verifyAudit example_deps ?st)"
    by (simp add: verifyAudit_def audit_verify_def broken_def example_log_def)
  with shield_guards_the_log [of example_deps ?st example_now gate_example_intent None "js ''i''" "js ''w''" False]
  show ?thesis by blast
qed

end
