(* ===== verification/Ingress.thy ===== *)
theory Ingress
  imports Sdk Canonical_Json
begin

unbundle bit_operations_syntax

text \<open>
  The HTTP ingress: bearer authentication (\<open>src/ingress/auth.ts\<close>), idempotency keys
  (\<open>src/ingress/idempotency.ts\<close>), the fixed-window rate limiter (\<open>src/ingress/rateLimit.ts\<close>), the
  schema of a draft (\<open>src/agent/schema.ts\<close>) and the request handler (\<open>handleIngress\<close> of
  \<open>src/ingress/server.ts\<close>) with its health, readiness, status and payment routes.

  The parser of JSON texts is an argument. The disclosure routes, present only when a disclosure
  configuration is given, are not modelled; the static OpenAPI document appears as its version.
\<close>

section \<open>Authentication\<close>

definition INGRESS_TOKEN_KEY :: str where
  "INGRESS_TOKEN_KEY = js ''ingress_token''"

definition getIngressToken :: "mem_store \<Rightarrow> str option" where
  "getIngressToken s =
     (case getMeta s INGRESS_TOKEN_KEY of Some t \<Rightarrow> if t = [] then None else Some t | None \<Rightarrow> None)"

definition setIngressToken :: "str \<Rightarrow> mem_store \<Rightarrow> mem_store" where
  "setIngressToken token s = setMeta INGRESS_TOKEN_KEY token s"

text \<open>The accumulated difference of two strings of the same length, bit by bit.\<close>

definition safeEqual :: "str \<Rightarrow> str \<Rightarrow> bool" where
  "safeEqual a b \<longleftrightarrow>
     length a = length b \<and> foldl (\<lambda>diff (x, y). diff OR (x XOR y)) 0 (zip a b) = 0"

definition isLoopbackHost :: "str \<Rightarrow> bool" where
  "isLoopbackHost host \<longleftrightarrow> host \<in> {js ''127.0.0.1'', js ''localhost'', js ''::1''}"

definition lower_ascii :: "nat \<Rightarrow> nat" where
  "lower_ascii c = (if 65 \<le> c \<and> c \<le> 90 then c + 32 else c)"

definition line_end :: "nat \<Rightarrow> bool" where
  "line_end c \<longleftrightarrow> c = 10 \<or> c = 13 \<or> c = 0x2028 \<or> c = 0x2029"

text \<open>The match of \<open>/^Bearer\s+(.+)$/i\<close> on the trimmed header: its group.\<close>

definition bearerFrom :: "str option \<Rightarrow> str option" where
  "bearerFrom header =
     (case header of
        None \<Rightarrow> None
      | Some h \<Rightarrow>
          let t = trim h; rest = drop 6 t; token = dropWhile is_space rest
          in if map lower_ascii (take 6 t) = js ''bearer'' \<and> rest \<noteq> [] \<and> is_space (hd rest) \<and>
                token \<noteq> [] \<and> \<not> (\<exists>c \<in> set token. line_end c)
             then Some token else None)"

definition PUBLIC_PATHS :: "str list" where
  "PUBLIC_PATHS =
     [js ''/health'', js ''/ready'', js ''/.well-known/agent-disclosure'', js ''/agent-disclosure/respond'']"

definition authorizeIngress :: "str \<Rightarrow> str option \<Rightarrow> str option \<Rightarrow> bool" where
  "authorizeIngress path authHeader configuredToken =
     (if path \<in> set PUBLIC_PATHS then True
      else (case configuredToken of
              None \<Rightarrow> True
            | Some token \<Rightarrow>
                if token = [] then True
                else (case bearerFrom authHeader of
                        None \<Rightarrow> False
                      | Some presented \<Rightarrow> presented \<noteq> [] \<and> safeEqual presented token)))"

section \<open>Idempotency\<close>

definition idempotencyMetaKey :: "str \<Rightarrow> str" where
  "idempotencyMetaKey key = js ''idem:'' @ key"

fun httpStatusForIntentStatus :: "intent_status \<Rightarrow> nat" where
  "httpStatusForIntentStatus Settled = 200"
| "httpStatusForIntentStatus Pending = 202"
| "httpStatusForIntentStatus Failed = 502"
| "httpStatusForIntentStatus Blocked = 403"

datatype ingress_body =
    Unauthorized
  | HealthBody
  | ReadyBody bool bool
  | StatusBody bool bool "nat option"
  | InvalidIntent
  | ResultBody str intent_status "reason list" "str option" "bool option"
  | ReplayBody str intent_status "reason list" "str option"
  | OpenApiBody str
  | NotFoundBody

type_synonym response = "nat \<times> ingress_body"

definition replayIfSeen :: "mem_store \<Rightarrow> str \<Rightarrow> response option" where
  "replayIfSeen s key =
     (case getMeta s (idempotencyMetaKey key) of
        None \<Rightarrow> None
      | Some priorId \<Rightarrow>
          if priorId = [] then None
          else map_option (\<lambda>si. (httpStatusForIntentStatus (si_status si),
                 ReplayBody (i_id (si_intent si)) (si_status si) (si_reasons si) (si_receiptId si)))
               (getIntent s priorId))"

definition rememberKey :: "str \<Rightarrow> str \<Rightarrow> mem_store \<Rightarrow> mem_store" where
  "rememberKey key intentId s = setMeta (idempotencyMetaKey key) intentId s"

section \<open>Rate limiting\<close>

record rate_limiter =
  rl_windowMs :: jsnum
  rl_max :: int
  rl_buckets :: "(str, jsnum \<times> int) omap"

definition createRateLimiter :: "jsnum option \<Rightarrow> int option \<Rightarrow> rate_limiter" where
  "createRateLimiter windowMs max_requests =
     \<lparr>rl_windowMs = nullish windowMs 60000, rl_max = nullish max_requests 120, rl_buckets = []\<rparr>"

record rate_result =
  rr_ok :: bool
  rr_retryAfterMs :: "jsnum option"
  rr_remaining :: int

definition rate_check :: "str \<Rightarrow> jsnum \<Rightarrow> rate_limiter \<Rightarrow> rate_result \<times> rate_limiter" where
  "rate_check key t rl =
     (case map_of (rl_buckets rl) key of
        Some (windowStart, n) \<Rightarrow>
          if t - windowStart \<ge> rl_windowMs rl
          then (\<lparr>rr_ok = True, rr_retryAfterMs = None, rr_remaining = rl_max rl - 1\<rparr>,
                rl\<lparr>rl_buckets := AList.update key (t, 1) (rl_buckets rl)\<rparr>)
          else if n \<ge> rl_max rl
          then (\<lparr>rr_ok = False, rr_retryAfterMs = Some (windowStart + rl_windowMs rl - t), rr_remaining = 0\<rparr>, rl)
          else (\<lparr>rr_ok = True, rr_retryAfterMs = None, rr_remaining = rl_max rl - (n + 1)\<rparr>,
                rl\<lparr>rl_buckets := AList.update key (windowStart, n + 1) (rl_buckets rl)\<rparr>)
      | None \<Rightarrow>
          (\<lparr>rr_ok = True, rr_retryAfterMs = None, rr_remaining = rl_max rl - 1\<rparr>,
           rl\<lparr>rl_buckets := AList.update key (t, 1) (rl_buckets rl)\<rparr>))"

section \<open>The draft of a payment\<close>

definition nonempty_string :: "json \<Rightarrow> str option" where
  "nonempty_string j = (case j of JStr s \<Rightarrow> if s = [] then None else Some s | _ \<Rightarrow> None)"

text \<open>A positive safe integer, as the schema library understands \<open>int().positive()\<close>.\<close>

definition positive_int :: "json \<Rightarrow> jsnum option" where
  "positive_int j =
     (case j of JNum x \<Rightarrow> if is_integer x \<and> 0 < x \<and> x \<le> 9007199254740991 then Some x else None | _ \<Rightarrow> None)"

definition rail_of_text :: "json \<Rightarrow> rail_kind option" where
  "rail_of_text j =
     (case j of JStr s \<Rightarrow> List.find (\<lambda>r. rail_text r = s) [Onchain, Card, Checkout] | _ \<Rightarrow> None)"

record draft =
  dr_payee :: str
  dr_payeeClass :: str
  dr_amount :: jsnum
  dr_currency :: str
  dr_rail :: rail_kind
  dr_rationale :: str

definition parse_draft :: "json \<Rightarrow> draft option" where
  "parse_draft j =
     (case (nonempty_string (obj_get j (js ''payee'')), nonempty_string (obj_get j (js ''payeeClass'')),
            positive_int (obj_get j (js ''amount'')), nonempty_string (obj_get j (js ''currency'')),
            rail_of_text (obj_get j (js ''rail'')), nonempty_string (obj_get j (js ''rationale''))) of
        (Some payee, Some payeeClass, Some amount, Some currency, Some rail, Some rationale) \<Rightarrow>
          Some \<lparr>dr_payee = payee, dr_payeeClass = payeeClass, dr_amount = amount, dr_currency = currency,
                dr_rail = rail, dr_rationale = rationale\<rparr>
      | _ \<Rightarrow> None)"

definition intent_of_draft :: "draft \<Rightarrow> str \<Rightarrow> str \<Rightarrow> payment_intent" where
  "intent_of_draft d i now =
     \<lparr>i_id = i, i_payee = dr_payee d, i_payeeClass = dr_payeeClass d, i_amount = dr_amount d,
      i_currency = dr_currency d, i_rail = dr_rail d, i_rationale = dr_rationale d, i_createdAt = now\<rparr>"

section \<open>The handler\<close>

text \<open>
  \<open>ig_created\<close> and \<open>ig_now\<close> are the two readings of the clock that a submission makes: for the
  intent and inside the executor. A thrown value escapes the handler.
\<close>

record ingress_request =
  ig_method :: str
  ig_path :: str
  ig_body :: str
  ig_auth :: "str option"
  ig_key :: "str option"
  ig_newId :: str
  ig_created :: str
  ig_now :: str

record 'r ingress_deps =
  id_exec :: "'r exec_deps"
  id_token :: "str option"
  id_dedupe :: bool
  id_version :: "str option"
  id_parse :: "str \<Rightarrow> json option"
  id_attestation :: "(str option \<Rightarrow> attestation) option"

definition submit_intent ::
  "'r ingress_deps \<Rightarrow> ingress_request \<Rightarrow> 'r exec_state \<Rightarrow> (js_error + response) \<times> 'r exec_state" where
  "submit_intent deps req st =
     (case (case id_parse deps (ig_body req) of None \<Rightarrow> None | Some j \<Rightarrow> parse_draft j) of
        None \<Rightarrow> (Inr (400, InvalidIntent), st)
      | Some d \<Rightarrow>
          let intent = intent_of_draft d (ig_newId req) (ig_created req);
              att = (case id_attestation deps of Some f \<Rightarrow> f (ig_auth req) | None \<Rightarrow> AttNone)
          in (case execute (id_exec deps) (ig_now req) intent (Some att) st of
                (Inl e, st') \<Rightarrow> (Inl e, st')
              | (Inr r, st') \<Rightarrow>
                  (Inr (httpStatusForIntentStatus (xr_status r),
                        ResultBody (xr_intentId r) (xr_status r) (gd_reasons (xr_decision r))
                          (map_option r_id (xr_receipt r)) (xr_verified r)),
                   case ig_key req of
                     Some key \<Rightarrow>
                       if key \<noteq> [] \<and> id_dedupe deps
                       then st'\<lparr>xs_store := rememberKey key (xr_intentId r) (xs_store st')\<rparr> else st'
                   | None \<Rightarrow> st')))"

definition post_intent ::
  "'r ingress_deps \<Rightarrow> ingress_request \<Rightarrow> 'r exec_state \<Rightarrow> (js_error + response) \<times> 'r exec_state" where
  "post_intent deps req st =
     (case (case ig_key req of
              Some key \<Rightarrow> if key \<noteq> [] \<and> id_dedupe deps then replayIfSeen (xs_store st) key else None
            | None \<Rightarrow> None) of
        Some replay \<Rightarrow> (Inr replay, st)
      | None \<Rightarrow> submit_intent deps req st)"

text \<open>The routes behind the probes, with no disclosure configured.\<close>

definition ingress_routes ::
  "'r ingress_deps \<Rightarrow> ingress_request \<Rightarrow> 'r exec_state \<Rightarrow> (js_error + response) \<times> 'r exec_state" where
  "ingress_routes deps req st =
     (if ig_method req = js ''GET'' \<and> ig_path req = js ''/status''
      then (Inr (200, StatusBody (isKilled (xs_store st)) (breakerOpen (id_exec deps) (xs_store st))
                        (failures (xs_store st))), st)
      else if ig_method req = js ''POST'' \<and> ig_path req = js ''/payment-intent'' then post_intent deps req st
      else (Inr (404, NotFoundBody), st))"

definition handleIngress ::
  "'r ingress_deps \<Rightarrow> ingress_request \<Rightarrow> 'r exec_state \<Rightarrow> (js_error + response) \<times> 'r exec_state" where
  "handleIngress deps req st =
     (if \<not> authorizeIngress (ig_path req) (ig_auth req) (id_token deps) then (Inr (401, Unauthorized), st)
      else if ig_method req = js ''GET'' \<and> ig_path req = js ''/health'' then (Inr (200, HealthBody), st)
      else if ig_method req = js ''GET'' \<and> ig_path req = js ''/ready''
      then (Inr (200, ReadyBody (isKilled (xs_store st)) (breakerOpen (id_exec deps) (xs_store st))), st)
      else if ig_method req = js ''GET'' \<and> ig_path req = js ''/openapi.json''
      then (Inr (200, OpenApiBody (nullish (id_version deps) (js ''0.0.0''))), st)
      else ingress_routes deps req st)"

section \<open>Comparing tokens\<close>

lemma nat_or_zero: "x OR y = 0 \<longleftrightarrow> x = 0 \<and> y = (0 :: nat)"
proof
  assume zero: "x OR y = 0"
  have "bit x n \<or> bit y n \<longleftrightarrow> False" for n using zero bit_or_iff [of x y n] by simp
  then show "x = 0 \<and> y = 0" by (auto intro!: bit_eqI)
qed simp

lemma nat_xor_zero: "x XOR y = 0 \<longleftrightarrow> x = (y :: nat)"
proof
  assume zero: "x XOR y = 0"
  have "bit x n \<longleftrightarrow> bit y n" for n using zero bit_xor_iff [of x y n] by simp
  then show "x = y" by (rule bit_eqI)
next
  assume "x = y"
  then show "x XOR y = 0" by (auto intro!: bit_eqI simp: bit_xor_iff)
qed

lemma fold_or_zero: "foldl (\<lambda>diff (x, y). diff OR (x XOR y)) d ps = (0 :: nat) \<longleftrightarrow> d = 0 \<and> (\<forall>(x, y) \<in> set ps. x = y)"
  by (induction ps arbitrary: d) (auto simp: nat_or_zero nat_xor_zero)

lemma safeEqual_iff [simp]: "safeEqual a b \<longleftrightarrow> a = b"
proof -
  have "length a = length b \<Longrightarrow> (\<forall>(x, y) \<in> set (zip a b). x = y) \<longleftrightarrow> a = b"
    by (induction a b rule: list_induct2) auto
  then show ?thesis by (auto simp: safeEqual_def fold_or_zero)
qed

section \<open>What a remembered key survives\<close>

lemma idempotencyMetaKey_free [simp]:
  "idempotencyMetaKey key \<noteq> KILL_KEY" "idempotencyMetaKey key \<noteq> FAIL_KEY"
  by (simp_all add: idempotencyMetaKey_def KILL_KEY_def FAIL_KEY_def js_def)

interpretation remembered: sdk_invariant deps
  "\<lambda>st. getMeta (xs_store st) (idempotencyMetaKey key) = Some i \<and> getIntent (xs_store st) i \<noteq> None" for deps key i
proof unfold_locales
  fix st :: "'a exec_state" and si s'
  assume inv: "getMeta (xs_store st) (idempotencyMetaKey key) = Some i \<and> getIntent (xs_store st) i \<noteq> None"
  show "getMeta (xs_store (st\<lparr>xs_store := s'\<rparr>)) (idempotencyMetaKey key) = Some i \<and>
      getIntent (xs_store (st\<lparr>xs_store := s'\<rparr>)) i \<noteq> None" if "insertIntent si (xs_store st) = Inr s'"
    using ledger.insert_InrD(2) [OF that] insert_meta [OF that] inv by (auto simp: getMeta_def)
  show "getMeta (xs_store (st\<lparr>xs_store := s'\<rparr>)) (idempotencyMetaKey key) = Some i \<and>
      getIntent (xs_store (st\<lparr>xs_store := s'\<rparr>)) i \<noteq> None" if "updateIntent j u (xs_store st) = Inr s'" for j u
    using update_meta [OF that] that inv by (auto simp: getMeta_def getIntent_def updateIntent_Inr_iff omap.get_put)
  show "getMeta (xs_store (st\<lparr>xs_store := s'\<rparr>)) (idempotencyMetaKey key) = Some i \<and>
      getIntent (xs_store (st\<lparr>xs_store := s'\<rparr>)) i \<noteq> None" if "insertMandate m (xs_store st) = Inr s'" for m
    using that inv by (auto simp: insertMandate_def getMeta_def getIntent_def split: if_splits)
qed (auto simp: getMeta_setMeta getIntent_def ledger_simps, auto simp: getMeta_def ledger_simps)

lemma submit_cases:
  assumes "submit_intent deps req st = (res, st')"
  obtains (invalid) "res = Inr (400, InvalidIntent)" "st' = st"
  | (thrown) d e where "execute (id_exec deps) (ig_now req) (intent_of_draft d (ig_newId req) (ig_created req))
        (Some (case id_attestation deps of Some f \<Rightarrow> f (ig_auth req) | None \<Rightarrow> AttNone)) st = (Inl e, st')" "res = Inl e"
  | (executed) d r st1 where "execute (id_exec deps) (ig_now req) (intent_of_draft d (ig_newId req) (ig_created req))
        (Some (case id_attestation deps of Some f \<Rightarrow> f (ig_auth req) | None \<Rightarrow> AttNone)) st = (Inr r, st1)"
      "res = Inr (httpStatusForIntentStatus (xr_status r), ResultBody (xr_intentId r) (xr_status r)
         (gd_reasons (xr_decision r)) (map_option r_id (xr_receipt r)) (xr_verified r))"
      "st' = (case ig_key req of
                Some key \<Rightarrow> if key \<noteq> [] \<and> id_dedupe deps
                  then st1\<lparr>xs_store := rememberKey key (xr_intentId r) (xs_store st1)\<rparr> else st1
              | None \<Rightarrow> st1)"
proof (cases "case id_parse deps (ig_body req) of None \<Rightarrow> None | Some j \<Rightarrow> parse_draft j")
  case None
  with assms show thesis by (intro invalid) (auto simp: submit_intent_def)
next
  case (Some d)
  obtain out st1 where run: "execute (id_exec deps) (ig_now req) (intent_of_draft d (ig_newId req) (ig_created req))
        (Some (case id_attestation deps of Some f \<Rightarrow> f (ig_auth req) | None \<Rightarrow> AttNone)) st = (out, st1)" by fastforce
  note sub = assms [unfolded submit_intent_def Some option.case Let_def run prod.case]
  show thesis
  proof (cases out)
    case (Inl e)
    with sub run show thesis by (intro thrown) auto
  next
    case (Inr r)
    with sub run show thesis by (intro executed) auto
  qed
qed

section \<open>Properties\<close>

text \<open>
  Property C21: the transport is closed. Once a token is configured, a request off the four public paths
  passes if and only if its header carries exactly that token; every other one is answered 401 and
  changes nothing.
\<close>

theorem ingress_requires_token:
  assumes "id_token deps = Some token" "token \<noteq> []" "ig_path req \<notin> set PUBLIC_PATHS"
  shows "authorizeIngress (ig_path req) (ig_auth req) (id_token deps) = (bearerFrom (ig_auth req) = Some token) \<and>
    (bearerFrom (ig_auth req) \<noteq> Some token \<longrightarrow> handleIngress deps req st = (Inr (401, Unauthorized), st))"
  using assms by (auto simp: authorizeIngress_def handleIngress_def split: option.split)

theorem ingress_requires_token_witness:
  "handleIngress \<lparr>id_exec = example_deps, id_token = Some (js ''s3cret''), id_dedupe = True, id_version = None, id_parse = (\<lambda>_. None),
      id_attestation = None\<rparr>
    \<lparr>ig_method = js ''POST'', ig_path = js ''/payment-intent'', ig_body = [], ig_auth = Some (js ''Bearer guess''),
     ig_key = None, ig_newId = js ''pi_9'', ig_created = example_now, ig_now = example_now\<rparr> (example_state []) =
   (Inr (401, Unauthorized), example_state [])"
proof -
  let ?deps = "\<lparr>id_exec = example_deps, id_token = Some (js ''s3cret''), id_dedupe = True, id_version = None, id_parse = (\<lambda>_. None),
      id_attestation = None\<rparr>"
  let ?req = "\<lparr>ig_method = js ''POST'', ig_path = js ''/payment-intent'', ig_body = [], ig_auth = Some (js ''Bearer guess''),
     ig_key = None, ig_newId = js ''pi_9'', ig_created = example_now, ig_now = example_now\<rparr>"
  have "bearerFrom (Some (js ''Bearer guess'')) = Some (js ''guess'')" by (simp add: bearerFrom_def trim_def js_def is_space_def Let_def lower_ascii_def line_end_def)
  then have "bearerFrom (ig_auth ?req) \<noteq> Some (js ''s3cret'')" by simp
  moreover have "ig_path ?req \<notin> set PUBLIC_PATHS" by (simp add: PUBLIC_PATHS_def)
  ultimately show ?thesis using ingress_requires_token [of ?deps "js ''s3cret''" ?req "example_state []"] by simp
qed

text \<open>
  Property C24: one key, one payment. After a submission with an idempotency key was answered, whatever
  operations the kernel runs in between, a later submission with that key runs no gate and reaches no
  rail: it changes nothing and answers with the status that the intent of the first one has by then,
  which right after the first answer is the very status of that answer.
\<close>

theorem idempotent_retry:
  assumes "submit_intent deps req st = (Inr (code, body), st1)" "body \<noteq> InvalidIntent"
    and "ig_key req = Some key" "key \<noteq> []" "id_dedupe deps" "ig_newId req \<noteq> []" "ig_key retry = Some key"
  shows "\<exists>si. getIntent (xs_store (sdk_run (id_exec deps) ops st1)) (ig_newId req) = Some si \<and>
    post_intent deps retry (sdk_run (id_exec deps) ops st1) =
      (Inr (httpStatusForIntentStatus (si_status si),
            ReplayBody (i_id (si_intent si)) (si_status si) (si_reasons si) (si_receiptId si)),
       sdk_run (id_exec deps) ops st1) \<and>
    (ops = [] \<longrightarrow> httpStatusForIntentStatus (si_status si) = code)"
  using assms(1)
proof (cases rule: submit_cases)
  case (executed d r st2)
  have i: "i_id (intent_of_draft d (ig_newId req) (ig_created req)) = ig_newId req" by (simp add: intent_of_draft_def)
  from execute_stored [OF executed(1)] obtain si0 where r: "xr_intentId r = ig_newId req"
    and si0: "getIntent (xs_store st2) (ig_newId req) = Some si0" "si_status si0 = xr_status r"
    by (auto simp: i)
  have st1: "st1 = st2\<lparr>xs_store := rememberKey key (ig_newId req) (xs_store st2)\<rparr>"
    using executed(3) assms(3-5) r by simp
  have first: "getMeta (xs_store st1) (idempotencyMetaKey key) = Some (ig_newId req)"
    "getIntent (xs_store st1) (ig_newId req) = Some si0"
    using si0 by (simp_all add: st1 rememberKey_def getMeta_setMeta getIntent_def ledger_simps)
  with remembered.inv_run [of st1 key "ig_newId req" "id_exec deps" ops] obtain si where
    si: "getMeta (xs_store (sdk_run (id_exec deps) ops st1)) (idempotencyMetaKey key) = Some (ig_newId req)"
      "getIntent (xs_store (sdk_run (id_exec deps) ops st1)) (ig_newId req) = Some si"
    by auto
  have "ops = [] \<Longrightarrow> httpStatusForIntentStatus (si_status si) = code"
    using si(2) first(2) si0(2) executed(2) by (simp add: sdk_run_def)
  with si assms(4-7) show ?thesis by (auto simp: post_intent_def replayIfSeen_def)
qed (use assms(2) in simp_all)

text \<open>A submission of the example payment, by an agent that the transport has authenticated.\<close>

definition example_ingress :: "nat ingress_deps" where
  "example_ingress =
     \<lparr>id_exec = example_deps, id_token = None, id_dedupe = True, id_version = None,
      id_parse = (\<lambda>_. Some (JObj [(js ''payee'', JStr (js ''acme'')), (js ''payeeClass'', JStr (js ''saas'')),
        (js ''amount'', JNum 2500), (js ''currency'', JStr (js ''USD'')), (js ''rail'', JStr (js ''card'')),
        (js ''rationale'', JStr (js ''x402 paywall: monthly plan on base (exact)''))])),
      id_attestation = Some (\<lambda>_. AttSigned)\<rparr>"

definition example_submission :: ingress_request where
  "example_submission =
     \<lparr>ig_method = js ''POST'', ig_path = js ''/payment-intent'', ig_body = [], ig_auth = None,
      ig_key = Some (js ''k1''), ig_newId = js ''pi_1'', ig_created = example_now, ig_now = example_now\<rparr>"

lemma example_submit:
  "\<exists>body (st1 :: nat exec_state). submit_intent example_ingress example_submission (example_state []) = (Inr (200, body), st1) \<and>
     xs_world st1 = 1 \<and> body \<noteq> InvalidIntent"
proof -
  let ?d = "\<lparr>dr_payee = js ''acme'', dr_payeeClass = js ''saas'', dr_amount = 2500, dr_currency = js ''USD'',
    dr_rail = Card, dr_rationale = js ''x402 paywall: monthly plan on base (exact)''\<rparr>"
  have d: "(case id_parse example_ingress (ig_body example_submission) of None \<Rightarrow> None | Some j \<Rightarrow> parse_draft j) = Some ?d"
    and i: "intent_of_draft ?d (ig_newId example_submission) (ig_created example_submission) = gate_example_intent"
    using is_integer_of_int [of 2500]
    by (simp_all add: example_ingress_def example_submission_def parse_draft_def obj_get_def nonempty_string_def positive_int_def
        rail_of_text_def intent_of_draft_def gate_example_intent_def example_now_def)
  have un: "unsettled []" "js ''pi_1'' \<notin> (\<lambda>si. i_id (si_intent si)) ` set []" "attestation_score (Some AttSigned) = 0"
    by (simp_all add: unsettled_def attestation_score_def)
  obtain r st' where run: "execute example_deps example_now gate_example_intent (Some AttSigned) (example_state []) = (Inr r, st')"
    "xr_status r = Settled" "xs_world st' = 1"
    using example_run_att [OF un] by blast
  have sel: "id_exec example_ingress = example_deps" "id_attestation example_ingress = Some (\<lambda>_. AttSigned)"
    "ig_now example_submission = example_now" "ig_key example_submission = Some (js ''k1'')" "id_dedupe example_ingress"
    by (simp_all add: example_ingress_def example_submission_def)
  show ?thesis using d i run by (simp add: submit_intent_def sel Let_def)
qed

theorem idempotent_retry_witness:
  "\<exists>body (st1 :: nat exec_state) answer. submit_intent example_ingress example_submission (example_state []) = (Inr (200, body), st1) \<and>
     xs_world st1 = 1 \<and> post_intent example_ingress example_submission st1 = (Inr (200, answer), st1)"
proof -
  obtain body and st1 :: "nat exec_state" where sub: "submit_intent example_ingress example_submission (example_state []) = (Inr (200, body), st1)"
    "xs_world st1 = 1" "body \<noteq> InvalidIntent"
    using example_submit by blast
  have "ig_key example_submission = Some (js ''k1'')" "js ''k1'' \<noteq> []" "id_dedupe example_ingress" "ig_newId example_submission \<noteq> []"
    by (simp_all add: example_ingress_def example_submission_def)
  from idempotent_retry [OF sub(1,3) this this(1), of "[]"] sub(1,2) show ?thesis by (auto simp: sdk_run_def)
qed

section \<open>The rate limiter\<close>

fun rate_run :: "(str \<times> jsnum) list \<Rightarrow> rate_limiter \<Rightarrow> bool list \<times> rate_limiter" where
  "rate_run [] rl = ([], rl)"
| "rate_run ((key, t) # reqs) rl =
     (case rate_check key t rl of (r, rl') \<Rightarrow>
        case rate_run reqs rl' of (oks, rl'') \<Rightarrow> (rr_ok r # oks, rl''))"

text \<open>Requests that a window already open for their key covers: the answers are yes up to the maximum.\<close>

lemma rate_run_open:
  assumes "map_of (rl_buckets rl) key = Some (start, n)" "\<forall>(k, t) \<in> set reqs. t - start < rl_windowMs rl"
    and "1 \<le> n" "n \<le> max 1 (rl_max rl)"
  shows "int (length (filter (\<lambda>((k, t), ok). k = key \<and> ok) (zip reqs (fst (rate_run reqs rl))))) \<le> max 1 (rl_max rl) - n"
  using assms
proof (induction reqs arbitrary: rl n)
  case Nil
  then show ?case by simp
next
  case (Cons req reqs)
  obtain k t where req: "req = (k, t)" by (cases req)
  obtain r rl' where chk: "rate_check k t rl = (r, rl')" by fastforce
  obtain oks rl'' where run: "rate_run reqs rl' = (oks, rl'')" by fastforce
  have keep: "rl_windowMs rl' = rl_windowMs rl" "rl_max rl' = rl_max rl"
    using chk by (auto simp: rate_check_def split: option.splits if_splits prod.splits)
  show ?case
  proof (cases "k = key")
    case True
    have inside: "t - start < rl_windowMs rl" using Cons.prems(2) req by auto
    show ?thesis
    proof (cases "rl_max rl \<le> n")
      case full: True
      with chk True inside Cons.prems(1) have "rl' = rl" "\<not> rr_ok r"
        by (auto simp: rate_check_def split: if_splits)
      with Cons.IH [OF Cons.prems(1)] Cons.prems(2-4) run req chk show ?thesis by auto
    next
      case False
      with chk True inside Cons.prems(1) have "map_of (rl_buckets rl') key = Some (start, n + 1)" "rr_ok r"
        by (auto simp: rate_check_def omap.get_put split: if_splits)
      with Cons.IH [of rl' "n + 1"] Cons.prems(2-4) False run req chk keep True show ?thesis by auto
    qed
  next
    case False
    with chk Cons.prems(1) have "map_of (rl_buckets rl') key = Some (start, n)"
      by (auto simp: rate_check_def omap.get_put split: option.splits prod.splits if_splits)
    with Cons.IH [of rl' n] Cons.prems(2-4) run req chk keep False show ?thesis by auto
  qed
qed

text \<open>
  Fact: a key gets at most the maximum through per window. After the request of a key that opens
  its window, whatever requests of whatever keys come before the window is over, that key is let
  through at most the maximum number of times, the opening one included; a maximum below one still
  lets that one through.
\<close>

theorem rate_limit_bound:
  assumes "rate_check key start rl = (r, rl')"
    and "case map_of (rl_buckets rl) key of None \<Rightarrow> True | Some (earlier, n) \<Rightarrow> rl_windowMs rl \<le> start - earlier"
    and "\<forall>(k, t) \<in> set reqs. t - start < rl_windowMs rl"
  shows "rr_ok r \<and>
    1 + int (length (filter (\<lambda>((k, t), ok). k = key \<and> ok) (zip reqs (fst (rate_run reqs rl'))))) \<le> max 1 (rl_max rl)"
proof -
  have keep: "rl_windowMs rl' = rl_windowMs rl" "rl_max rl' = rl_max rl"
    using assms(1) by (auto simp: rate_check_def split: option.splits if_splits prod.splits)
  have open_window: "map_of (rl_buckets rl') key = Some (start, 1)" and "rr_ok r"
    using assms(1,2) by (auto simp: rate_check_def omap.get_put split: option.splits if_splits prod.splits)
  have "int (length (filter (\<lambda>((k, t), ok). k = key \<and> ok) (zip reqs (fst (rate_run reqs rl'))))) \<le> max 1 (rl_max rl) - 1"
    using rate_run_open [OF open_window, of reqs] assms(3) keep by simp
  then show ?thesis using \<open>rr_ok r\<close> by simp
qed

theorem rate_limit_bound_witness:
  "1 + int (length (filter (\<lambda>((k, t), ok). k = js ''ip'' \<and> ok)
     (zip [(js ''ip'', 5 :: jsnum), (js ''ip'', 9)] (fst (rate_run [(js ''ip'', 5), (js ''ip'', 9)]
        (snd (rate_check (js ''ip'') 0 (createRateLimiter (Some 10) (Some 2))))))))) \<le> 2"
proof -
  let ?rl = "createRateLimiter (Some 10) (Some 2)"
  obtain r rl' where chk: "rate_check (js ''ip'') 0 ?rl = (r, rl')" by fastforce
  have "rl_windowMs ?rl = 10" "rl_max ?rl = 2" "rl_buckets ?rl = []" by (simp_all add: createRateLimiter_def)
  with rate_limit_bound [OF chk, of "[(js ''ip'', 5), (js ''ip'', 9)]"] chk show ?thesis by simp
qed

end
