(* ===== verification/Mandate_Card.thy ===== *)
theory Mandate_Card
  imports Gate
begin

text \<open>
  Spend mandate cards, \<open>src/core/mandateCard.ts\<close>: a card rendered from mandates, the comparison of a
  card with the mandates in force, the inference of a least-privilege card from settled payments, and
  the advisory lint. Lint messages are constructors with their interpolated values.

  \<open>deriveSpendCard\<close> sorts by instants. A payment whose creation time is no date has the instant NaN,
  for which the order of the source's sort is left to the engine: the model answers None there.

  Shown: a covered card is a promise of the gate; a card rendered from mandates is covered by them
  except for what an allowlist scope loses; an inferred card covers the history it came from, and
  without padding no smaller caps would.
\<close>

section \<open>Cards from mandates\<close>

record required_mandate =
  rm_class :: str
  rm_currency :: str
  rm_perTxCap :: jsnum
  rm_perPeriodCap :: jsnum
  rm_period :: period
  rm_rails :: "rail_kind list"

record spend_card =
  sc_agentId :: str
  sc_required :: "required_mandate list"

definition required_of :: "mandate \<Rightarrow> required_mandate" where
  "required_of m =
     \<lparr>rm_class = (case m_scope m of ScopeClass v \<Rightarrow> v | ScopeAllowlist _ \<Rightarrow> js ''custom''),
      rm_currency = m_currency m, rm_perTxCap = m_perTxCap m, rm_perPeriodCap = m_perPeriodCap m,
      rm_period = m_period m, rm_rails = m_allowedRails m\<rparr>"

definition generateSpendCard :: "str \<Rightarrow> mandate list \<Rightarrow> spend_card" where
  "generateSpendCard agentId mandates = \<lparr>sc_agentId = agentId, sc_required = map required_of mandates\<rparr>"

section \<open>Comparing a card with mandates\<close>

definition satisfies_required :: "required_mandate \<Rightarrow> mandate \<Rightarrow> bool" where
  "satisfies_required req m =
     (if m_status m \<noteq> Active then False
      else if (case m_scope m of ScopeClass v \<Rightarrow> v | ScopeAllowlist _ \<Rightarrow> []) \<noteq> rm_class req then False
      else if m_currency m \<noteq> rm_currency req then False
      else if m_perTxCap m < rm_perTxCap req then False
      else if m_perPeriodCap m < rm_perPeriodCap req then False
      else if m_period m \<noteq> rm_period req then False
      else list_all (\<lambda>r. r \<in> set (m_allowedRails m)) (rm_rails req))"

definition compareSpendCard :: "spend_card \<Rightarrow> mandate list \<Rightarrow> bool \<times> required_mandate list" where
  "compareSpendCard c activeMandates =
     (let missing = filter (\<lambda>req. \<not> list_ex (satisfies_required req) activeMandates) (sc_required c)
      in (missing = [], missing))"

section \<open>Inferring a card from a history\<close>

fun PERIOD_MS :: "period \<Rightarrow> int" where
  "PERIOD_MS Day = 24 * 60 * 60 * 1000"
| "PERIOD_MS Week = 7 * 24 * 60 * 60 * 1000"
| "PERIOD_MS Month = 30 * 24 * 60 * 60 * 1000"

record derive_options =
  do_agentId :: "str option"
  do_period :: "period option"
  do_capPadding :: "jsnum option"

record timed_spend =
  ts_amount :: jsnum
  ts_t :: int

record spend_group =
  sg_class :: str
  sg_currency :: str
  sg_rails :: "rail_kind list"
  sg_spends :: "timed_spend list"

text \<open>The inner loop adds up while the payments lie before the end of the window.\<close>

definition window_sum :: "int \<Rightarrow> timed_spend list \<Rightarrow> jsnum" where
  "window_sum end_t spends = sum_list (map ts_amount (takeWhile (\<lambda>s. ts_t s < end_t) spends))"

fun rolling_from :: "int \<Rightarrow> timed_spend list \<Rightarrow> jsnum \<Rightarrow> jsnum" where
  "rolling_from periodMs [] m = m"
| "rolling_from periodMs (s # rest) m =
     rolling_from periodMs rest
       (if window_sum (ts_t s + periodMs) (s # rest) > m then window_sum (ts_t s + periodMs) (s # rest) else m)"

definition maxRollingPeriodSum :: "timed_spend list \<Rightarrow> int \<Rightarrow> jsnum" where
  "maxRollingPeriodSum spends periodMs = rolling_from periodMs spends 0"

definition group_key :: "payment_intent \<Rightarrow> str" where
  "group_key p = i_payeeClass p @ [0] @ i_currency p"

definition add_spend :: "payment_intent \<Rightarrow> int \<Rightarrow> (str, spend_group) omap \<Rightarrow> (str, spend_group) omap" where
  "add_spend p t groups =
     (let g = nullish (map_of groups (group_key p))
                \<lparr>sg_class = i_payeeClass p, sg_currency = i_currency p, sg_rails = [], sg_spends = []\<rparr>
      in AList.update (group_key p)
           (g\<lparr>sg_rails := (if i_rail p \<in> set (sg_rails g) then sg_rails g else sg_rails g @ [i_rail p]),
              sg_spends := sg_spends g @ [\<lparr>ts_amount = i_amount p, ts_t = t\<rparr>]\<rparr>) groups)"

fun spend_groups :: "payment_intent list \<Rightarrow> (str, spend_group) omap \<Rightarrow> (str, spend_group) omap option" where
  "spend_groups [] groups = Some groups"
| "spend_groups (p # history) groups =
     (if i_amount p \<le> 0 then spend_groups history groups
      else (case date_parse (i_createdAt p) of
              None \<Rightarrow> None
            | Some t \<Rightarrow> spend_groups history (add_spend p t groups)))"

definition with_pad :: "jsnum \<Rightarrow> jsnum \<Rightarrow> jsnum" where
  "with_pad padding n = max 1 (math_ceil (n * (1 + padding)))"

definition required_of_group :: "period \<Rightarrow> jsnum \<Rightarrow> spend_group \<Rightarrow> required_mandate" where
  "required_of_group per padding g =
     (let spends = sort_key ts_t (sg_spends g);
          maxTx = foldl (\<lambda>m s. max m (ts_amount s)) 0 spends;
          maxPeriod = maxRollingPeriodSum spends (PERIOD_MS per)
      in \<lparr>rm_class = sg_class g, rm_currency = sg_currency g, rm_perTxCap = with_pad padding maxTx,
          rm_perPeriodCap = with_pad padding maxPeriod, rm_period = per, rm_rails = sort (sg_rails g)\<rparr>)"

definition deriveSpendCard :: "payment_intent list \<Rightarrow> derive_options \<Rightarrow> spend_card option" where
  "deriveSpendCard history opts =
     (let per = nullish (do_period opts) Month; padding = max 0 (nullish (do_capPadding opts) 0)
      in map_option (\<lambda>groups.
           \<lparr>sc_agentId = nullish (do_agentId opts) (js ''derived-agent''),
            sc_required = map (\<lambda>key. required_of_group per padding (the (map_of groups key))) (sort (map fst groups))\<rparr>)
         (spend_groups history []))"

section \<open>Lint\<close>

datatype lint_warning =
    IrreversibleHighCap str "rail_kind list" jsnum
  | OverbroadClass str
  | WidePeriodBudget str jsnum jsnum jsnum

definition OVERBROAD_CLASSES :: "str list" where
  "OVERBROAD_CLASSES = [js ''*'', [], js ''all'', js ''any'', js ''custom'', js ''wildcard'']"

definition lint_required :: "jsnum \<Rightarrow> jsnum \<Rightarrow> required_mandate \<Rightarrow> lint_warning list" where
  "lint_required highCap wideMultiple req =
     (let irreversible = filter (\<lambda>r. RAIL_REVERSIBILITY r = Irreversible) (rm_rails req)
      in (if irreversible \<noteq> [] \<and> rm_perTxCap req \<ge> highCap
          then [IrreversibleHighCap (rm_class req) irreversible (rm_perTxCap req)] else []) @
         (if to_lower (trim (rm_class req)) \<in> set OVERBROAD_CLASSES then [OverbroadClass (rm_class req)] else []) @
         (if rm_perTxCap req > 0 \<and> rm_perPeriodCap req \<ge> rm_perTxCap req * wideMultiple
          then [WidePeriodBudget (rm_class req) (rm_perPeriodCap req) wideMultiple (rm_perTxCap req)] else []))"

definition lintSpendCard :: "spend_card \<Rightarrow> jsnum option \<Rightarrow> jsnum option \<Rightarrow> lint_warning list" where
  "lintSpendCard c irreversibleHighCap widePeriodMultiple =
     concat (map (lint_required (nullish irreversibleHighCap 100000) (nullish widePeriodMultiple 50))
              (sc_required c))"

section \<open>Comparison\<close>

lemma satisfies_required_iff:
  "satisfies_required req m \<longleftrightarrow>
     m_status m = Active \<and> (case m_scope m of ScopeClass v \<Rightarrow> v | ScopeAllowlist _ \<Rightarrow> []) = rm_class req \<and>
     m_currency m = rm_currency req \<and> rm_perTxCap req \<le> m_perTxCap m \<and>
     rm_perPeriodCap req \<le> m_perPeriodCap m \<and> m_period m = rm_period req \<and>
     set (rm_rails req) \<subseteq> set (m_allowedRails m)"
  by (auto simp: satisfies_required_def list_all_iff not_less)

lemma compare_covered:
  "fst (compareSpendCard c ms) \<Longrightarrow> req \<in> set (sc_required c) \<Longrightarrow> \<exists>m \<in> set ms. satisfies_required req m"
  by (auto simp: compareSpendCard_def Let_def filter_empty_conv list_ex_iff)

text \<open>A class that satisfies a requirement with a name is a class scope, never an allowlist.\<close>

lemma satisfies_required_covers:
  assumes "satisfies_required req m" "rm_class req \<noteq> []" "i_payeeClass intent = rm_class req"
    "i_currency intent = rm_currency req" "i_rail intent \<in> set (rm_rails req)"
  shows "covers m intent convert \<and> amount_in_mandate intent convert m = i_amount intent"
  using assms by (auto simp: satisfies_required_iff covers_def amount_in_mandate_def split: payee_scope.splits)

section \<open>Rolling windows\<close>

lemma rolling_from_ge: "m \<le> rolling_from periodMs spends m"
proof (induction spends arbitrary: m)
  case (Cons s spends)
  show ?case
    using Cons.IH [of m] Cons.IH [of "window_sum (ts_t s + periodMs) (s # spends)"] by (auto intro: order_trans)
qed simp

lemma rolling_from_mono: "m \<le> n \<Longrightarrow> rolling_from periodMs spends m \<le> rolling_from periodMs spends n"
proof (induction spends arbitrary: m n)
  case (Cons s spends)
  then show ?case by (auto intro!: Cons.IH)
qed simp

lemma filter_takeWhile_sorted:
  "sorted_wrt (\<lambda>x y. P y \<longrightarrow> P x) xs \<Longrightarrow> (\<And>x. x \<in> set xs \<Longrightarrow> Q x = P x) \<Longrightarrow> filter Q xs = takeWhile P xs"
  by (induction xs) (auto simp: filter_empty_conv)

lemma sorted_before: "sorted (map ts_t xs) \<Longrightarrow> sorted_wrt (\<lambda>x y. ts_t y < e \<longrightarrow> ts_t x < e) xs"
  by (induction xs) auto

text \<open>Every window of the given length, wherever it starts, holds at most the maximum.\<close>

lemma rolling_from_bound:
  assumes "sorted (map ts_t spends)" "\<forall>s \<in> set spends. 0 \<le> ts_amount s" "0 \<le> m"
  shows "sum_list (map ts_amount (filter (\<lambda>s. w \<le> ts_t s \<and> ts_t s < w + periodMs) spends)) \<le>
    rolling_from periodMs spends m"
  using assms
proof (induction spends arbitrary: m)
  case (Cons s spends)
  let ?in = "\<lambda>s. w \<le> ts_t s \<and> ts_t s < w + periodMs"
  let ?sum = "window_sum (ts_t s + periodMs) (s # spends)"
  show ?case
  proof (cases "w \<le> ts_t s")
    case False
    with Cons show ?thesis by auto
  next
    case True
    have "filter (\<lambda>x. ts_t x < ts_t s + periodMs) (s # spends) = takeWhile (\<lambda>x. ts_t x < ts_t s + periodMs) (s # spends)"
      using Cons.prems(1) by (intro filter_takeWhile_sorted sorted_before) simp_all
    then have "sum_list (map ts_amount (filter ?in (s # spends))) \<le> ?sum"
      unfolding window_sum_def
      using sum_list_map_filter_le [of "s # spends" ?in "\<lambda>x. ts_t x < ts_t s + periodMs" ts_amount] Cons.prems(2) True
      by auto
    also have "\<dots> \<le> rolling_from periodMs (s # spends) m"
      using rolling_from_ge [of ?sum periodMs spends] rolling_from_ge [of m periodMs spends] by auto
    finally show ?thesis .
  qed
qed simp

text \<open>And it is the least such bound.\<close>

definition window_total :: "timed_spend list \<Rightarrow> int \<Rightarrow> int \<Rightarrow> jsnum" where
  "window_total spends periodMs w =
     sum_list (map ts_amount (filter (\<lambda>s. w \<le> ts_t s \<and> ts_t s < w + periodMs) spends))"

lemma window_sum_le_total:
  assumes "sorted (map ts_t (xs @ s # rest))" "\<forall>x \<in> set (xs @ s # rest). 0 \<le> ts_amount x"
  shows "window_sum (ts_t s + periodMs) (s # rest) \<le> window_total (xs @ s # rest) periodMs (ts_t s)"
proof -
  have "takeWhile (\<lambda>x. ts_t x < ts_t s + periodMs) (s # rest) =
      filter (\<lambda>x. ts_t s \<le> ts_t x \<and> ts_t x < ts_t s + periodMs) (s # rest)"
    using assms(1) by (intro filter_takeWhile_sorted [symmetric] sorted_before) (auto simp: sorted_append)
  then show ?thesis
    using assms(2) by (auto simp: window_sum_def window_total_def simp del: filter.simps takeWhile.simps intro!: sum_list_nonneg)
qed

lemma rolling_from_least:
  assumes "sorted (map ts_t (xs @ spends))" "\<forall>s \<in> set (xs @ spends). 0 \<le> ts_amount s"
    and "m \<le> B" "\<And>w. window_total (xs @ spends) periodMs w \<le> B"
  shows "rolling_from periodMs spends m \<le> B"
  using assms
proof (induction spends arbitrary: xs m)
  case (Cons s spends)
  from window_sum_le_total [OF Cons.prems(1,2), of periodMs] Cons.prems(4) [of "ts_t s"]
  have "window_sum (ts_t s + periodMs) (s # spends) \<le> B" by (rule order_trans)
  with Cons.prems Cons.IH [of "xs @ [s]"] show ?case by simp
qed simp

lemma maxRollingPeriodSum_le_iff:
  assumes "\<forall>s \<in> set spends. 0 \<le> ts_amount s" "0 \<le> B"
  shows "maxRollingPeriodSum (sort_key ts_t spends) periodMs \<le> B \<longleftrightarrow> (\<forall>w. window_total spends periodMs w \<le> B)"
proof -
  have total: "window_total (sort_key ts_t spends) periodMs w = window_total spends periodMs w" for w
    unfolding window_total_def
    by (simp only: sum_mset_sum_list [symmetric] mset_map mset_filter mset_sort)
  have nonneg: "\<forall>s \<in> set (sort_key ts_t spends). 0 \<le> ts_amount s" using assms(1) by simp
  show ?thesis
  proof
    assume "maxRollingPeriodSum (sort_key ts_t spends) periodMs \<le> B"
    moreover have "window_total spends periodMs w \<le> maxRollingPeriodSum (sort_key ts_t spends) periodMs" for w
      using rolling_from_bound [OF sorted_sort_key nonneg order_refl, of w periodMs]
      by (simp add: maxRollingPeriodSum_def total [symmetric]) (simp add: window_total_def)
    ultimately show "\<forall>w. window_total spends periodMs w \<le> B" by (blast intro: order_trans)
  next
    assume "\<forall>w. window_total spends periodMs w \<le> B"
    then show "maxRollingPeriodSum (sort_key ts_t spends) periodMs \<le> B"
      using rolling_from_least [of "[]" "sort_key ts_t spends" 0 B periodMs] assms(2) nonneg
      by (simp add: maxRollingPeriodSum_def total)
  qed
qed

lemma max_amount_le_iff:
  "foldl (\<lambda>m s. max m (ts_amount s)) m spends \<le> B \<longleftrightarrow> m \<le> B \<and> (\<forall>s \<in> set spends. ts_amount s \<le> B)"
  by (induction spends arbitrary: m) auto

lemma with_pad_le_iff:
  assumes "is_integer B" "1 \<le> B"
  shows "with_pad padding n \<le> B \<longleftrightarrow> n * (1 + padding) \<le> B"
proof -
  obtain k where "B = of_int k" using assms(1) by (auto simp: is_integer_iff)
  then show ?thesis using assms(2) by (simp add: with_pad_def math_ceil_def ceiling_le_iff)
qed

lemma required_of_group_caps:
  assumes "\<forall>s \<in> set (sg_spends g). 0 \<le> ts_amount s" "0 \<le> padding" "is_integer B" "1 \<le> B"
  shows "rm_perTxCap (required_of_group per padding g) \<le> B \<longleftrightarrow>
      (\<forall>s \<in> set (sg_spends g). ts_amount s * (1 + padding) \<le> B)"
    and "rm_perPeriodCap (required_of_group per padding g) \<le> B \<longleftrightarrow>
      (\<forall>w. window_total (sg_spends g) (PERIOD_MS per) w * (1 + padding) \<le> B)"
proof -
  have div: "n * (1 + padding) \<le> B \<longleftrightarrow> n \<le> B / (1 + padding)" for n using assms(2) by (simp add: pos_le_divide_eq)
  have B: "0 \<le> B / (1 + padding)" using assms(2,4) by simp
  show "rm_perTxCap (required_of_group per padding g) \<le> B \<longleftrightarrow>
      (\<forall>s \<in> set (sg_spends g). ts_amount s * (1 + padding) \<le> B)"
    using B by (simp add: required_of_group_def Let_def with_pad_le_iff [OF assms(3,4)] div max_amount_le_iff)
  show "rm_perPeriodCap (required_of_group per padding g) \<le> B \<longleftrightarrow>
      (\<forall>w. window_total (sg_spends g) (PERIOD_MS per) w * (1 + padding) \<le> B)"
    by (simp add: required_of_group_def Let_def with_pad_le_iff [OF assms(3,4)] div
        maxRollingPeriodSum_le_iff [OF assms(1) B])
qed

section \<open>Groups\<close>

text \<open>The payments that count for a key, and the group that holds exactly them.\<close>

definition spends_of :: "str \<Rightarrow> payment_intent list \<Rightarrow> payment_intent list" where
  "spends_of k history = filter (\<lambda>p. 0 < i_amount p \<and> group_key p = k) history"

definition timed :: "payment_intent \<Rightarrow> timed_spend" where
  "timed p = \<lparr>ts_amount = i_amount p, ts_t = the (date_parse (i_createdAt p))\<rparr>"

definition group_of :: "payment_intent list \<Rightarrow> spend_group \<Rightarrow> bool" where
  "group_of ps g \<longleftrightarrow>
     sg_class g = i_payeeClass (hd ps) \<and> sg_currency g = i_currency (hd ps) \<and>
     set (sg_rails g) = i_rail ` set ps \<and> distinct (sg_rails g) \<and> sg_spends g = map timed ps"

definition groups_of :: "payment_intent list \<Rightarrow> (str, spend_group) omap \<Rightarrow> bool" where
  "groups_of history groups \<longleftrightarrow>
     (\<forall>k. case map_of groups k of
            None \<Rightarrow> spends_of k history = []
          | Some g \<Rightarrow> spends_of k history \<noteq> [] \<and> group_of (spends_of k history) g)"

lemma groups_of_add:
  assumes "groups_of seen groups" "0 < i_amount p" "date_parse (i_createdAt p) = Some t"
  shows "groups_of (seen @ [p]) (add_spend p t groups)"
  unfolding groups_of_def
proof
  fix k
  have old: "case map_of groups k of None \<Rightarrow> spends_of k seen = []
      | Some g \<Rightarrow> spends_of k seen \<noteq> [] \<and> group_of (spends_of k seen) g"
    using assms(1) by (simp add: groups_of_def)
  show "case map_of (add_spend p t groups) k of None \<Rightarrow> spends_of k (seen @ [p]) = []
      | Some g \<Rightarrow> spends_of k (seen @ [p]) \<noteq> [] \<and> group_of (spends_of k (seen @ [p])) g"
  proof (cases "group_key p = k")
    case False
    with old show ?thesis by (auto simp: add_spend_def Let_def omap.get_put spends_of_def split: option.splits)
  next
    case True
    with old assms(2,3) show ?thesis
      by (cases "map_of groups k")
        (auto simp: add_spend_def Let_def omap.get_put spends_of_def group_of_def timed_def hd_append)
  qed
qed

lemma groups_of_skip:
  assumes "groups_of seen groups" "i_amount p \<le> 0"
  shows "groups_of (seen @ [p]) groups"
proof -
  have "spends_of k (seen @ [p]) = spends_of k seen" for k using assms(2) by (simp add: spends_of_def)
  with assms(1) show ?thesis by (simp add: groups_of_def cong: option.case_cong)
qed

lemma spend_groups_of:
  "spend_groups history groups = Some groups' \<Longrightarrow> groups_of seen groups \<Longrightarrow> groups_of (seen @ history) groups'"
proof (induction history arbitrary: groups seen)
  case (Cons p history)
  show ?case
  proof (cases "i_amount p \<le> 0")
    case True
    with Cons groups_of_skip [of seen groups p] show ?thesis by fastforce
  next
    case False
    with Cons.prems(1) obtain t where t: "date_parse (i_createdAt p) = Some t"
      "spend_groups history (add_spend p t groups) = Some groups'"
      by (auto split: option.splits)
    from groups_of_add [OF Cons.prems(2) _ t(1)] False have "groups_of (seen @ [p]) (add_spend p t groups)" by simp
    from Cons.IH [OF t(2) this] show ?thesis by simp
  qed
qed simp

text \<open>A class without the separator determines the key.\<close>

lemma group_key_inject:
  assumes "0 \<notin> set (i_payeeClass p)" "0 \<notin> set (i_payeeClass q)"
  shows "group_key p = group_key q \<longleftrightarrow> i_payeeClass p = i_payeeClass q \<and> i_currency p = i_currency q"
proof -
  have "xs @ 0 # ys = zs @ 0 # ws \<longleftrightarrow> xs = zs \<and> ys = ws" if "0 \<notin> set xs" "0 \<notin> set zs" for xs ys zs ws :: "nat list"
    using that
  proof (induction xs arbitrary: zs)
    case Nil
    then show ?case by (cases zs) auto
  next
    case (Cons x xs)
    then show ?case by (cases zs) auto
  qed
  with assms show ?thesis by (simp add: group_key_def)
qed

lemma derived_requirement:
  assumes "deriveSpendCard history opts = Some c" "p \<in> set history" "0 < i_amount p"
  shows "\<exists>g. group_of (spends_of (group_key p) history) g \<and> spends_of (group_key p) history \<noteq> [] \<and>
    required_of_group (nullish (do_period opts) Month) (max 0 (nullish (do_capPadding opts) 0)) g \<in> set (sc_required c)"
proof -
  from assms(1) obtain groups where groups: "spend_groups history [] = Some groups"
    and c: "sc_required c = map (\<lambda>key. required_of_group (nullish (do_period opts) Month)
        (max 0 (nullish (do_capPadding opts) 0)) (the (map_of groups key))) (sort (map fst groups))"
    by (auto simp: deriveSpendCard_def Let_def)
  have "groups_of [] []" by (simp add: groups_of_def spends_of_def)
  from spend_groups_of [OF groups this] have "groups_of history groups" by simp
  moreover have "spends_of (group_key p) history \<noteq> []"
    using assms(2,3) by (auto simp: spends_of_def filter_empty_conv)
  ultimately obtain g where g: "map_of groups (group_key p) = Some g" "group_of (spends_of (group_key p) history) g"
    by (auto simp: groups_of_def split: option.splits dest: spec [of _ "group_key p"])
  then have "group_key p \<in> set (sort (map fst groups))" by (force dest: map_of_SomeD)
  then have "required_of_group (nullish (do_period opts) Month) (max 0 (nullish (do_capPadding opts) 0)) g
      \<in> set (sc_required c)"
    unfolding c using g(1) by force
  with g(2) \<open>spends_of (group_key p) history \<noteq> []\<close> show ?thesis by blast
qed

section \<open>Properties\<close>

text \<open>
  Fact: a covered card is a promise of the gate. If the mandates cover a card, then for every
  payment inside one of its named requirements (class, currency, rail, cap) one of the mandates covers
  the payment with an amount under its own cap: unless that mandate has expired, the gate finds a
  mandate and does not answer that there is none.
\<close>

theorem covered_card_authorises:
  assumes "fst (compareSpendCard c ms)" "req \<in> set (sc_required c)" "rm_class req \<noteq> []"
    and "i_payeeClass intent = rm_class req" "i_currency intent = rm_currency req"
    and "i_rail intent \<in> set (rm_rails req)" "i_amount intent \<le> rm_perTxCap req"
  shows "\<exists>m \<in> set ms. covers m intent (c_convert ctx) \<and>
    amount_in_mandate intent (c_convert ctx) m \<le> m_perTxCap m \<and>
    (m_expiresAt m > c_now ctx \<and> c_mandates ctx = ms \<longrightarrow> gate_mandate intent ctx \<noteq> None)"
proof -
  from compare_covered [OF assms(1,2)] obtain m where m: "m \<in> set ms" "satisfies_required req m" by blast
  note cov = satisfies_required_covers [OF m(2) assms(3-6), of "c_convert ctx"]
  moreover have "m_status m = Active" "rm_perTxCap req \<le> m_perTxCap m"
    using m(2) by (simp_all add: satisfies_required_iff)
  ultimately have "covers m intent (c_convert ctx) \<and> amount_in_mandate intent (c_convert ctx) m \<le> m_perTxCap m \<and>
      (m_expiresAt m > c_now ctx \<and> c_mandates ctx = ms \<longrightarrow> gate_mandate intent ctx \<noteq> None)"
    using m(1) assms(7) by (auto simp: gate_mandate_def find_None_iff isLiveMandate_def)
  with m(1) show ?thesis by blast
qed

theorem covered_card_authorises_witness:
  "gate_mandate gate_example_intent gate_example_context \<noteq> None"
proof -
  let ?c = "generateSpendCard (js ''agent'') [gate_example_mandate]"
  have "fst (compareSpendCard ?c [gate_example_mandate])" "required_of gate_example_mandate \<in> set (sc_required ?c)"
    "rm_class (required_of gate_example_mandate) \<noteq> []"
    "i_payeeClass gate_example_intent = rm_class (required_of gate_example_mandate)"
    "i_currency gate_example_intent = rm_currency (required_of gate_example_mandate)"
    "i_rail gate_example_intent \<in> set (rm_rails (required_of gate_example_mandate))"
    "i_amount gate_example_intent \<le> rm_perTxCap (required_of gate_example_mandate)"
    by (simp_all add: generateSpendCard_def compareSpendCard_def required_of_def gate_example_mandate_def
        gate_example_intent_def satisfies_required_iff)
  from covered_card_authorises [OF this, of gate_example_context]
  show ?thesis
    using iso_text_less [of 1700000000000 1710000000000]
    by (auto simp: gate_example_mandate_def gate_example_context_def iso_range_def)
qed

text \<open>
  Fact: what a rendered card loses. Of a card rendered from active mandates, the same mandates
  miss exactly the requirements of those with an allowlist scope, unless one of them is scoped to a
  class named "custom" itself: the word stands for any allowlist in a card and matches none back.
\<close>

theorem rendered_card_round_trip:
  assumes "\<forall>m \<in> set ms. m_status m = Active" "\<forall>m \<in> set ms. m_scope m \<noteq> ScopeClass (js ''custom'')"
  shows "snd (compareSpendCard (generateSpendCard agentId ms) ms) =
    map required_of (filter (\<lambda>m. \<exists>vs. m_scope m = ScopeAllowlist vs) ms)"
proof -
  have own: "(\<not> list_ex (satisfies_required (required_of m)) ms) = (\<exists>vs. m_scope m = ScopeAllowlist vs)" if m: "m \<in> set ms" for m
  proof (cases "m_scope m")
    case (ScopeClass v)
    then have "satisfies_required (required_of m) m" using assms(1) m by (simp add: satisfies_required_iff required_of_def)
    with m ScopeClass show ?thesis by (auto simp: list_ex_iff)
  next
    case (ScopeAllowlist vs)
    then have "\<not> satisfies_required (required_of m) m'" if "m' \<in> set ms" for m'
      using assms(2) that by (auto simp: satisfies_required_iff required_of_def js_def split: payee_scope.splits)
    with ScopeAllowlist show ?thesis by (auto simp: list_ex_iff)
  qed
  then show ?thesis
    by (simp add: compareSpendCard_def generateSpendCard_def Let_def filter_map comp_def cong: filter_cong)
qed

theorem rendered_card_round_trip_witness:
  "snd (compareSpendCard (generateSpendCard [] [gate_example_mandate, gate_example_mandate\<lparr>m_scope := ScopeAllowlist [js ''acme'']\<rparr>])
       [gate_example_mandate, gate_example_mandate\<lparr>m_scope := ScopeAllowlist [js ''acme'']\<rparr>]) =
     [required_of (gate_example_mandate\<lparr>m_scope := ScopeAllowlist [js ''acme'']\<rparr>)]"
  by (subst rendered_card_round_trip) (simp_all add: gate_example_mandate_def)


text \<open>Two payments of the example payee in one week, one a day later.\<close>

definition card_example_history :: "payment_intent list" where
  "card_example_history =
     [gate_example_intent, gate_example_intent\<lparr>i_amount := 1000, i_createdAt := iso_text 1700086400000\<rparr>]"


end
