(* ===== verification/JS_Number.thy ===== *)
theory JS_Number
  imports JS_Date
begin

text \<open>
  The conversion \<open>Number(s)\<close> of a string: white space is trimmed, the empty string is zero, a decimal
  literal may carry a sign, a fraction and an exponent, and the prefixes 0x, 0o and 0b select a base.
  None stands for what is not finite: NaN and the infinities. The rounding to a double is not modelled.
\<close>

definition is_digit :: "nat \<Rightarrow> bool" where
  "is_digit c \<longleftrightarrow> 48 \<le> c \<and> c \<le> 57"

definition exponent_of :: "str \<Rightarrow> int option" where
  "exponent_of s =
     (case s of
        [] \<Rightarrow> Some 0
      | c # rest \<Rightarrow>
          if c \<noteq> 101 \<and> c \<noteq> 69 then None
          else
            let negative = (rest \<noteq> [] \<and> hd rest = 45);
                digits = (if rest \<noteq> [] \<and> (hd rest = 43 \<or> hd rest = 45) then tl rest else rest)
            in if digits = [] \<or> \<not> all_digits digits then None
               else Some (if negative then - int (digits_value digits) else int (digits_value digits)))"

definition decimal_of :: "str \<Rightarrow> jsnum option" where
  "decimal_of s =
     (let whole = takeWhile is_digit s; rest = dropWhile is_digit s;
          fraction = (if rest \<noteq> [] \<and> hd rest = 46 then takeWhile is_digit (tl rest) else []);
          tail = (if rest \<noteq> [] \<and> hd rest = 46 then dropWhile is_digit (tl rest) else rest)
      in if whole = [] \<and> fraction = [] then None
         else map_option (\<lambda>e. of_nat (digits_value (whole @ fraction)) * 10 powi (e - int (length fraction)))
                (exponent_of tail))"

definition radix_digit :: "nat \<Rightarrow> nat option" where
  "radix_digit c =
     (if 48 \<le> c \<and> c \<le> 57 then Some (c - 48)
      else if 65 \<le> c \<and> c \<le> 70 then Some (c - 55)
      else if 97 \<le> c \<and> c \<le> 102 then Some (c - 87) else None)"

fun radix_value :: "nat \<Rightarrow> str \<Rightarrow> nat \<Rightarrow> nat option" where
  "radix_value b [] acc = Some acc"
| "radix_value b (c # rest) acc =
     (case radix_digit c of
        Some d \<Rightarrow> if d < b then radix_value b rest (b * acc + d) else None
      | None \<Rightarrow> None)"

definition radix_prefix :: "str \<Rightarrow> nat option" where
  "radix_prefix s =
     (if length s < 3 \<or> hd s \<noteq> 48 then None
      else map_of [(120, 16), (88, 16), (111, 8), (79, 8), (98, 2), (66, 2)] (s ! 1))"

definition number_of_text :: "str \<Rightarrow> jsnum option" where
  "number_of_text s =
     (let t = trim s
      in if t = [] then Some 0
         else (case radix_prefix t of
                 Some b \<Rightarrow> map_option of_nat (radix_value b (drop 2 t) 0)
               | None \<Rightarrow>
                   if hd t = 43 then decimal_of (tl t)
                   else if hd t = 45 then map_option uminus (decimal_of (tl t))
                   else decimal_of t))"

text \<open>What the decimal rendering of a natural number is read back as.\<close>

lemma is_digit_show: "c \<in> set (show_nat n) \<Longrightarrow> is_digit c"
  using set_show_nat [of n] by (auto simp: is_digit_def)

lemma decimal_of_show: "decimal_of (show_nat n) = Some (of_nat n)"
proof -
  have split: "takeWhile is_digit (show_nat n) = show_nat n" "dropWhile is_digit (show_nat n) = []"
    by (simp_all add: takeWhile_eq_all_conv is_digit_show)
  show ?thesis unfolding decimal_of_def Let_def split by (simp add: exponent_of_def)
qed

lemma trim_id: "(\<And>c. c \<in> set s \<Longrightarrow> \<not> is_space c) \<Longrightarrow> trim s = s"
proof -
  assume no: "\<And>c. c \<in> set s \<Longrightarrow> \<not> is_space c"
  then have "dropWhile is_space s = s" "dropWhile is_space (rev s) = rev s"
    by (cases s; simp) (cases "rev s"; use no in \<open>auto simp: dropWhile_eq_self_iff\<close>)
  then show ?thesis by (simp add: trim_def)
qed

lemma number_of_text_show [simp]: "number_of_text (show_nat n) = Some (of_nat n)"
proof -
  have digit: "48 \<le> c \<and> c \<le> 57" if "c \<in> set (show_nat n)" for c
    using that set_show_nat [of n] by auto
  then have "trim (show_nat n) = show_nat n" by (intro trim_id) (force simp: is_space_def)
  moreover have "radix_prefix (show_nat n) = None"
  proof (cases "length (show_nat n) < 3")
    case False
    then have "show_nat n ! 1 \<in> set (show_nat n)" by (intro nth_mem) simp
    then show ?thesis using digit [of "show_nat n ! 1"] by (auto simp: radix_prefix_def)
  qed (simp add: radix_prefix_def)
  moreover have "hd (show_nat n) \<noteq> 43" "hd (show_nat n) \<noteq> 45"
    using digit [of "hd (show_nat n)"] by auto
  ultimately show ?thesis by (simp add: number_of_text_def decimal_of_show)
qed

end
