(* ===== verification/X402_Proxy.thy ===== *)
theory X402_Proxy
  imports Executor_Promises Executor_Ledger JS_Number
begin

text \<open>
  The forward proxy that governs an agent's x402 spend, \<open>src/proxy/x402Proxy.ts\<close>: the choice of a
  payment requirement, the intent made of it, the decision core and the round trip.

  The upstream server is a function on a state of its own, so that a second request to it is visible;
  the parser of JSON texts is an argument that returns the challenge as the source types it. The
  node:http wrapper is not modelled.
\<close>

section \<open>Challenges\<close>

record requirement402 =
  x4_scheme :: str
  x4_network :: str
  x4_asset :: str
  x4_payTo :: str
  x4_maxAmountRequired :: str
  x4_resource :: "str option"
  x4_description :: "str option"
  x4_mimeType :: "str option"
  x4_maxTimeoutSeconds :: "jsnum option"
  x4_extra :: "(str option \<times> str option) option"

record challenge402 =
  ch_x402Version :: "jsnum option"
  ch_accepts :: "requirement402 list option"
  ch_error :: "str option"
  ch_resource :: "str option"

record challenge_context =
  cx_newId :: str
  cx_clock :: str
  cx_rail :: "rail_kind option"
  cx_currencyOf :: "(requirement402 \<Rightarrow> str) option"
  cx_payeeClassOf :: "(requirement402 \<Rightarrow> str) option"
  cx_networks :: "str list option"

datatype challenge_outcome = Settle402 | RouteToOperator | Block402 | NoRequirement

datatype proxy_reason = NoAcceptableNetwork | GateReason reason

record challenge_decision =
  cd_outcome :: challenge_outcome
  cd_requirement :: "requirement402 option"
  cd_intent :: "payment_intent option"
  cd_result :: "execute_result option"
  cd_reasons :: "proxy_reason list"

section \<open>From a challenge to a decision\<close>

definition eligible402 :: "str list option \<Rightarrow> requirement402 \<Rightarrow> bool" where
  "eligible402 networks r \<longleftrightarrow>
     (case networks of Some ns \<Rightarrow> x4_network r \<in> set ns | None \<Rightarrow> True) \<and>
     number_of_text (x4_maxAmountRequired r) \<noteq> None"

definition amount402 :: "requirement402 \<Rightarrow> jsnum" where
  "amount402 r = nullish (number_of_text (x4_maxAmountRequired r)) 0"

definition selectRequirement :: "requirement402 list \<Rightarrow> str list option \<Rightarrow> requirement402 option" where
  "selectRequirement accepts networks =
     (case filter (eligible402 networks) accepts of
        [] \<Rightarrow> None
      | r0 # rest \<Rightarrow> Some (foldl (\<lambda>best r. if amount402 r < amount402 best then r else best) r0 rest))"

definition intentFor :: "requirement402 \<Rightarrow> challenge_context \<Rightarrow> payment_intent" where
  "intentFor req ctx =
     \<lparr>i_id = cx_newId ctx, i_payee = x4_payTo req,
      i_payeeClass = (case cx_payeeClassOf ctx of Some f \<Rightarrow> f req | None \<Rightarrow> js ''x402-service''),
      i_amount = math_trunc (amount402 req),
      i_currency = (case cx_currencyOf ctx of Some f \<Rightarrow> f req | None \<Rightarrow> js ''USDC''),
      i_rail = nullish (cx_rail ctx) Onchain,
      i_rationale = js ''x402 paywall: '' @
        nullish (or_else (x4_description req) (x4_resource req)) (js ''resource'') @ js '' on '' @
        x4_network req @ js '' ('' @ x4_scheme req @ js '')'',
      i_createdAt = cx_clock ctx\<rparr>"

definition outcome402 :: "intent_status \<Rightarrow> challenge_outcome" where
  "outcome402 s = (if s = Settled then Settle402 else if s = Pending then RouteToOperator else Block402)"

definition handleChallenge ::
  "'r exec_deps \<Rightarrow> str \<Rightarrow> requirement402 list \<Rightarrow> challenge_context \<Rightarrow> 'r exec_state \<Rightarrow>
   (js_error + challenge_decision) \<times> 'r exec_state" where
  "handleChallenge deps now accepts ctx st =
     (case selectRequirement accepts (cx_networks ctx) of
        None \<Rightarrow> (Inr \<lparr>cd_outcome = NoRequirement, cd_requirement = None, cd_intent = None, cd_result = None,
                    cd_reasons = [NoAcceptableNetwork]\<rparr>, st)
      | Some requirement \<Rightarrow>
          let intent = intentFor requirement ctx
          in (case execute deps now intent None st of
                (Inl e, st') \<Rightarrow> (Inl e, st')
              | (Inr result, st') \<Rightarrow>
                  (Inr \<lparr>cd_outcome = outcome402 (xr_status result), cd_requirement = Some requirement,
                        cd_intent = Some intent, cd_result = Some result,
                        cd_reasons = map GateReason (gd_reasons (xr_decision result))\<rparr>, st')))"

section \<open>The round trip\<close>

record proxy_request =
  pq_method :: str
  pq_url :: str
  pq_headers :: "(str \<times> str) list"
  pq_body :: "str option"

record proxy_response =
  pr_status :: nat
  pr_headers :: "(str \<times> str) list"
  pr_body :: str

text \<open>An answer is the upstream's, or one of the proxy's own: status, header mark and governed body.\<close>

datatype proxy_answer =
    Upstream proxy_response
  | Governed nat str challenge_outcome "str option" "proxy_reason list"

record ('r, 'u) proxy_deps =
  px_exec :: "'r exec_deps"
  px_upstream :: "proxy_request \<Rightarrow> str option \<Rightarrow> 'u \<Rightarrow> (js_error + proxy_response) \<times> 'u"
  px_ctx :: challenge_context
  px_buildProof :: "(execute_result \<Rightarrow> str) option"
  px_parse :: "str \<Rightarrow> challenge402 option"

definition defaultProof :: "execute_result \<Rightarrow> str" where
  "defaultProof result = (case xr_receipt result of Some rc \<Rightarrow> r_providerRef rc | None \<Rightarrow> [])"

definition parseChallenge :: "(str \<Rightarrow> challenge402 option) \<Rightarrow> proxy_response \<Rightarrow> challenge402 option" where
  "parseChallenge parse res =
     (case parse (pr_body res) of
        None \<Rightarrow> None
      | Some parsed \<Rightarrow>
          if ch_accepts parsed = None then None
          else Some (parsed\<lparr>ch_x402Version := Some (nullish (ch_x402Version parsed) 1)\<rparr>))"

definition answer_decision ::
  "('r, 'u) proxy_deps \<Rightarrow> proxy_request \<Rightarrow> challenge_decision \<Rightarrow> 'u \<Rightarrow> (js_error + proxy_answer) \<times> 'u" where
  "answer_decision deps req d u =
     (case (cd_outcome d, cd_result d) of
        (Settle402, Some result) \<Rightarrow>
          (case px_upstream deps req (Some ((nullish (px_buildProof deps) defaultProof) result)) u of
             (Inl e, u') \<Rightarrow> (Inl e, u')
           | (Inr response, u') \<Rightarrow> (Inr (Upstream response), u'))
      | (RouteToOperator, _) \<Rightarrow>
          (Inr (Governed 402 (js ''pending-operator'') (cd_outcome d) (map_option i_id (cd_intent d)) (cd_reasons d)), u)
      | _ \<Rightarrow>
          (Inr (Governed 403 (js ''blocked'') (cd_outcome d) (map_option i_id (cd_intent d)) (cd_reasons d)), u))"

definition forward ::
  "('r, 'u) proxy_deps \<Rightarrow> str \<Rightarrow> proxy_request \<Rightarrow> 'u \<Rightarrow> 'r exec_state \<Rightarrow>
   (js_error + proxy_answer) \<times> 'u \<times> 'r exec_state" where
  "forward deps now req u st =
     (case px_upstream deps req None u of
        (Inl e, u1) \<Rightarrow> (Inl e, u1, st)
      | (Inr first, u1) \<Rightarrow>
          if pr_status first \<noteq> 402 then (Inr (Upstream first), u1, st)
          else (case parseChallenge (px_parse deps) first of
                  None \<Rightarrow> (Inr (Upstream first), u1, st)
                | Some challenge \<Rightarrow>
                    (case handleChallenge (px_exec deps) now (nullish (ch_accepts challenge) []) (px_ctx deps) st of
                       (Inl e, st1) \<Rightarrow> (Inl e, u1, st1)
                     | (Inr d, st1) \<Rightarrow>
                         (case answer_decision deps req d u1 of (out, u2) \<Rightarrow> (out, u2, st1)))))"

section \<open>The choice of a requirement\<close>

lemma foldl_best:
  "foldl (\<lambda>best r. if f r < f best then r else best) r0 rs \<in> set (r0 # rs) \<and>
   (\<forall>r \<in> set (r0 # rs). f (foldl (\<lambda>best r. if f r < f best then r else best) r0 rs) \<le> (f r :: 'b::linorder))"
proof (induction rs arbitrary: r0)
  case (Cons r rs)
  show ?case
  proof (cases "f r < f r0")
    case True
    with Cons [of r] show ?thesis by auto
  next
    case False
    with Cons [of r0] show ?thesis by auto
  qed
qed simp

lemma selectRequirement_SomeD:
  assumes "selectRequirement accepts networks = Some r"
  shows "r \<in> set accepts" "eligible402 networks r"
    "\<And>r'. r' \<in> set accepts \<Longrightarrow> eligible402 networks r' \<Longrightarrow> amount402 r \<le> amount402 r'"
proof -
  from assms obtain r0 rest where el: "filter (eligible402 networks) accepts = r0 # rest"
    and r: "r = foldl (\<lambda>best r. if amount402 r < amount402 best then r else best) r0 rest"
    by (auto simp: selectRequirement_def split: list.splits)
  note best = foldl_best [of amount402 r0 rest, folded r]
  from best have "r \<in> set (filter (eligible402 networks) accepts)" by (simp only: el)
  then show "r \<in> set accepts" "eligible402 networks r" by simp_all
  show "amount402 r \<le> amount402 r'" if "r' \<in> set accepts" "eligible402 networks r'" for r'
  proof -
    from that have "r' \<in> set (r0 # rest)" by (simp only: el [symmetric]) simp
    with best show ?thesis by blast
  qed
qed

lemma selectRequirement_None_iff:
  "selectRequirement accepts networks = None \<longleftrightarrow> (\<forall>r \<in> set accepts. \<not> eligible402 networks r)"
  by (cases "filter (eligible402 networks) accepts")
    (auto simp: selectRequirement_def filter_empty_conv filter_eq_Cons_iff)

section \<open>The cases of a round trip\<close>

lemma handleChallenge_cases:
  assumes "handleChallenge deps now accepts ctx st = (res, st')"
  obtains (none) "selectRequirement accepts (cx_networks ctx) = None" "st' = st"
      "\<And>d. res = Inr d \<Longrightarrow> cd_result d = None \<and> cd_outcome d = NoRequirement" "\<And>e. res \<noteq> Inl e"
  | (thrown) r e where "selectRequirement accepts (cx_networks ctx) = Some r"
      "execute deps now (intentFor r ctx) None st = (Inl e, st')" "res = Inl e"
  | (run) r result d where "selectRequirement accepts (cx_networks ctx) = Some r"
      "execute deps now (intentFor r ctx) None st = (Inr result, st')" "res = Inr d"
      "cd_outcome d = outcome402 (xr_status result)" "cd_result d = Some result"
proof (cases "selectRequirement accepts (cx_networks ctx)")
  case None
  with assms show thesis by (intro none) (auto simp: handleChallenge_def)
next
  case (Some r)
  obtain out st1 where run': "execute deps now (intentFor r ctx) None st = (out, st1)" by fastforce
  show thesis
    using assms Some run' thrown [OF Some] run [OF Some]
    by (cases out) (auto simp: handleChallenge_def Let_def)
qed

lemma outcome402_Settle [simp]: "outcome402 s = Settle402 \<longleftrightarrow> s = Settled"
  by (simp add: outcome402_def)

lemma answer_decision_quiet:
  "answer_decision deps req d u = (out, u') \<Longrightarrow> cd_outcome d \<noteq> Settle402 \<or> cd_result d = None \<Longrightarrow> u' = u"
  by (auto simp: answer_decision_def split: challenge_outcome.splits option.splits)

lemma answer_decision_retry:
  "cd_outcome d = Settle402 \<Longrightarrow> cd_result d = Some result \<Longrightarrow> answer_decision deps req d u = (out, u') \<Longrightarrow>
     u' = snd (px_upstream deps req (Some ((nullish (px_buildProof deps) defaultProof) result)) u)"
  by (auto simp: answer_decision_def split: prod.splits sum.splits)

lemma forward_cases:
  assumes "forward deps now req u st = (out, u', st')"
  obtains (passed) "st' = st" "u' = snd (px_upstream deps req None u)"
  | (governed) first u1 ch r res where "px_upstream deps req None u = (Inr first, u1)" "pr_status first = 402"
      "parseChallenge (px_parse deps) first = Some ch"
      "selectRequirement (nullish (ch_accepts ch) []) (cx_networks (px_ctx deps)) = Some r"
      "execute (px_exec deps) now (intentFor r (px_ctx deps)) None st = (res, st')"
      "u' = (case res of
               Inr result \<Rightarrow>
                 if xr_status result = Settled
                 then snd (px_upstream deps req (Some ((nullish (px_buildProof deps) defaultProof) result)) u1) else u1
             | Inl _ \<Rightarrow> u1)"
proof -
  obtain resp u1 where up: "px_upstream deps req None u = (resp, u1)" by fastforce
  show thesis
  proof (cases resp)
    case (Inl e)
    with up assms show thesis by (intro passed) (auto simp: forward_def)
  next
    case (Inr first)
    show thesis
    proof (cases "pr_status first = 402 \<and> parseChallenge (px_parse deps) first \<noteq> None")
      case False
      with up Inr assms show thesis by (intro passed) (auto simp: forward_def split: if_splits)
    next
      case True
      then obtain ch where ch: "parseChallenge (px_parse deps) first = Some ch" by blast
      obtain dec st1 where h: "handleChallenge (px_exec deps) now (nullish (ch_accepts ch) []) (px_ctx deps) st = (dec, st1)"
        by fastforce
      note fw = assms [unfolded forward_def up Inr prod.case sum.case ch option.case h]
      from h show thesis
      proof (cases rule: handleChallenge_cases)
        case none
        then obtain d where d: "dec = Inr d" "cd_result d = None" by (cases dec) auto
        obtain out2 u2 where a: "answer_decision deps req d u1 = (out2, u2)" by fastforce
        from answer_decision_quiet [OF a] d(2) have "u2 = u1" by simp
        with none(2) fw True d(1) a show thesis by (intro passed) (auto simp: up)
      next
        case (thrown r e)
        with fw True show thesis by (intro governed [OF up [unfolded Inr] _ ch thrown(1)]) auto
      next
        case (run r result d)
        obtain out2 u2 where a: "answer_decision deps req d u1 = (out2, u2)" by fastforce
        have st: "st' = st1" "u' = u2" using fw True run(3) a by auto
        show thesis
        proof (rule governed [OF up [unfolded Inr] _ ch run(1)])
          show "pr_status first = 402" using True ..
          show "execute (px_exec deps) now (intentFor r (px_ctx deps)) None st = (Inr result, st')"
            using run(2) st by simp
          show "u' = (case Inr result of
               Inr result \<Rightarrow>
                 if xr_status result = Settled
                 then snd (px_upstream deps req (Some ((nullish (px_buildProof deps) defaultProof) result)) u1) else u1
             | Inl (_ :: js_error) \<Rightarrow> u1)"
            using answer_decision_quiet [OF a] answer_decision_retry [OF _ run(5) a] run(4) st by auto
        qed
      qed
    qed
  qed
qed

lemma settled_on_file:
  assumes "execute deps now intent att st = (Inr r, st')" "xr_status r = Settled"
  shows "\<exists>si rc. xr_receipt r = Some rc \<and> getReceipt (xs_store st') (r_id rc) = Some rc \<and>
    getIntent (xs_store st) (i_id intent) = None \<and> getIntent (xs_store st') (i_id intent) = Some si \<and>
    si_status si = Settled \<and> si_receiptId si = Some (r_id rc)"
  using assms by (elim execute_settledE) (assumption, intro exI conjI, assumption+, simp_all add: stored_def)

section \<open>Properties\<close>


text \<open>
  Fact: no proof without a payment. If the round trip left the upstream server in another state
  than its first request did, then the payment settled: the intent is stored as settled with its
  receipt, and the one retry carried the proof built from that result.
\<close>

theorem proxy_retries_only_paid:
  assumes "forward deps now req u st = (out, u', st')" "u' \<noteq> snd (px_upstream deps req None u)"
  shows "\<exists>intent result si rc. execute (px_exec deps) now intent None st = (Inr result, st') \<and>
    xr_status result = Settled \<and> xr_receipt result = Some rc \<and> getReceipt (xs_store st') (r_id rc) = Some rc \<and>
    getIntent (xs_store st) (i_id intent) = None \<and> getIntent (xs_store st') (i_id intent) = Some si \<and>
    si_status si = Settled \<and> si_receiptId si = Some (r_id rc) \<and>
    u' = snd (px_upstream deps req (Some ((nullish (px_buildProof deps) defaultProof) result))
               (snd (px_upstream deps req None u)))"
  using assms(1)
proof (cases rule: forward_cases)
  case (governed first u1 ch r res)
  from governed(1,6) assms(2) obtain result where result: "res = Inr result" "xr_status result = Settled"
    by (cases res) (auto split: if_splits)
  have run: "execute (px_exec deps) now (intentFor r (px_ctx deps)) None st = (Inr result, st')"
    using governed(5) result(1) by simp
  moreover have "u' = snd (px_upstream deps req (Some ((nullish (px_buildProof deps) defaultProof) result))
               (snd (px_upstream deps req None u)))"
    using governed(1,6) result by simp
  ultimately show ?thesis using result(2) settled_on_file [OF run result(2)] by blast
qed (use assms(2) in simp)

text \<open>An upstream that counts its requests and asks 2500 for the example payee, then serves whoever pays.\<close>

definition example_requirement :: requirement402 where
  "example_requirement =
     \<lparr>x4_scheme = js ''exact'', x4_network = js ''base'', x4_asset = js ''0xa'', x4_payTo = js ''acme'',
      x4_maxAmountRequired = show_nat 2500, x4_resource = None, x4_description = Some (js ''monthly plan''),
      x4_mimeType = None, x4_maxTimeoutSeconds = None, x4_extra = None\<rparr>"

definition example_proxy :: "(nat, nat) proxy_deps" where
  "example_proxy =
     \<lparr>px_exec = example_deps,
      px_upstream = (\<lambda>req w n. (Inr \<lparr>pr_status = (if w = None then 402 else 200), pr_headers = [], pr_body = []\<rparr>, n + 1)),
      px_ctx = \<lparr>cx_newId = js ''pi_1'', cx_clock = example_now, cx_rail = Some Card, cx_currencyOf = Some (\<lambda>_. js ''USD''),
        cx_payeeClassOf = Some (\<lambda>_. js ''saas''), cx_networks = None\<rparr>,
      px_buildProof = None,
      px_parse = (\<lambda>_. Some \<lparr>ch_x402Version = None, ch_accepts = Some [example_requirement], ch_error = None, ch_resource = None\<rparr>)\<rparr>"

lemma example_proxy_intent: "intentFor example_requirement (px_ctx example_proxy) = gate_example_intent"
  by (simp add: intentFor_def example_proxy_def example_requirement_def gate_example_intent_def amount402_def
      math_trunc_def math_floor_def example_now_def js_def)

lemma example_forward:
  "\<exists>answer st'. forward example_proxy example_now req 0 (example_state []) = (Inr (Upstream answer), 2, st') \<and>
     answer = \<lparr>pr_status = 200, pr_headers = [], pr_body = []\<rparr> \<and> xs_world st' = 1"
proof -
  obtain result st' where run: "execute example_deps example_now gate_example_intent None (example_state []) = (Inr result, st')"
    "xr_status result = Settled" "xs_world st' = 1"
    using example_run [of "[]"] by (auto simp: unsettled_def)
  have sel: "selectRequirement [example_requirement] None = Some example_requirement"
    by (simp add: selectRequirement_def eligible402_def example_requirement_def)
  have ctx: "cx_networks (px_ctx example_proxy) = None" "px_exec example_proxy = example_deps"
    by (simp_all add: example_proxy_def)
  have up: "px_upstream example_proxy req None 0 = (Inr \<lparr>pr_status = 402, pr_headers = [], pr_body = []\<rparr>, 1)"
    "px_upstream example_proxy req (Some w) (Suc 0) = (Inr \<lparr>pr_status = 200, pr_headers = [], pr_body = []\<rparr>, 2)" for w
    by (simp_all add: example_proxy_def)
  have parse: "parseChallenge (px_parse example_proxy) res = Some \<lparr>ch_x402Version = Some 1,
      ch_accepts = Some [example_requirement], ch_error = None, ch_resource = None\<rparr>" for res
    by (simp add: parseChallenge_def example_proxy_def)
  have "handleChallenge (px_exec example_proxy) example_now [example_requirement] (px_ctx example_proxy) (example_state []) =
      (Inr \<lparr>cd_outcome = Settle402, cd_requirement = Some example_requirement, cd_intent = Some gate_example_intent,
            cd_result = Some result, cd_reasons = map GateReason (gd_reasons (xr_decision result))\<rparr>, st')"
    using run by (simp add: handleChallenge_def ctx sel example_proxy_intent outcome402_def)
  then show ?thesis
    using run(3) by (simp add: forward_def answer_decision_def up parse)
qed


theorem proxy_retries_only_paid_witness:
  "\<exists>(result :: execute_result) (st' :: nat exec_state) (rc :: receipt). xr_status result = Settled \<and> xr_receipt result = Some rc \<and>
     getReceipt (xs_store st') (r_id rc) = Some rc \<and>
     forward example_proxy example_now \<lparr>pq_method = js ''GET'', pq_url = js ''/plan'', pq_headers = [], pq_body = None\<rparr> 0
       (example_state []) = (Inr (Upstream \<lparr>pr_status = 200, pr_headers = [], pr_body = []\<rparr>), 2, st')"
proof -
  let ?req = "\<lparr>pq_method = js ''GET'', pq_url = js ''/plan'', pq_headers = [], pq_body = None\<rparr>"
  obtain answer and st' :: "nat exec_state" where fw: "forward example_proxy example_now ?req 0 (example_state []) =
      (Inr (Upstream answer), 2, st')" "answer = \<lparr>pr_status = 200, pr_headers = [], pr_body = []\<rparr>"
    using example_forward by blast
  have "(2 :: nat) \<noteq> snd (px_upstream example_proxy ?req None 0)" by (simp add: example_proxy_def)
  note paid = proxy_retries_only_paid [OF fw(1) this]
  obtain result :: execute_result and rc :: receipt where
    "xr_status result = Settled" "xr_receipt result = Some rc" "getReceipt (xs_store st') (r_id rc) = Some rc"
    using paid by blast
  with fw(1) [unfolded fw(2)] show ?thesis by blast
qed

end
