(* ===== verification/Earning_Desk.thy ===== *)
theory Earning_Desk
  imports Executor_Ledger
begin

text \<open>
  The earning side, \<open>src/earn/earningDesk.ts\<close>: price quotes, the acceptance policy for inbound
  payments and the desk that records them in the signed log of the kernel. The verifier of a payment
  proof is an argument, as it is in the source. A desk keeps no state of its own.
\<close>

section \<open>Quotes, payments, policy\<close>

record price_quote =
  pq_service :: str
  pq_priceMinor :: jsnum
  pq_currency :: str
  pq_payTo :: "str option"

record inbound_payment =
  ip_service :: str
  ip_amountMinor :: jsnum
  ip_currency :: str
  ip_payer :: "str option"
  ip_proof :: "json option"

record acceptance_policy =
  ap_currency :: str
  ap_minPriceMinor :: jsnum
  ap_allowedServices :: "str list option"

datatype inbound_reason =
    CurrencyNotAccepted str str
  | BelowMinimum jsnum jsnum
  | ServiceNotOffered str
  | NoEarningVerifier
  | ProofNotVerified
  | PaymentRecorded

record receive_result =
  rv_accepted :: bool
  rv_reasons :: "inbound_reason list"

fun inbound_text :: "(jsnum \<Rightarrow> str) \<Rightarrow> inbound_reason \<Rightarrow> str" where
  "inbound_text num (CurrencyNotAccepted got want) =
     js ''currency '' @ got @ js '' not accepted (want '' @ want @ js '')''"
| "inbound_text num (BelowMinimum got least) = js ''amount '' @ num got @ js '' below minimum '' @ num least"
| "inbound_text num (ServiceNotOffered s) = js ''service \"'' @ s @ js ''\" is not offered''"
| "inbound_text num NoEarningVerifier = js ''no earning verifier configured '' @ [8212] @ js '' cannot confirm payment''"
| "inbound_text num ProofNotVerified = js ''payment proof did not verify''"
| "inbound_text num PaymentRecorded = js ''payment verified and recorded''"

definition evaluateInbound :: "inbound_payment \<Rightarrow> acceptance_policy \<Rightarrow> receive_result" where
  "evaluateInbound payment policy =
     (let reasons =
        (if ip_currency payment \<noteq> ap_currency policy
         then [CurrencyNotAccepted (ip_currency payment) (ap_currency policy)] else []) @
        (if ip_amountMinor payment < ap_minPriceMinor policy
         then [BelowMinimum (ip_amountMinor payment) (ap_minPriceMinor policy)] else []) @
        (case ap_allowedServices policy of
           Some allowed \<Rightarrow> if ip_service payment \<notin> set allowed then [ServiceNotOffered (ip_service payment)] else []
         | None \<Rightarrow> [])
      in \<lparr>rv_accepted = (reasons = []), rv_reasons = reasons\<rparr>)"

section \<open>The desk\<close>

record 'r desk =
  dk_exec :: "'r exec_deps"
  dk_policy :: acceptance_policy
  dk_verifier :: "(inbound_payment \<Rightarrow> bool) option"

definition inbound_json :: "inbound_payment \<Rightarrow> json" where
  "inbound_json p =
     JObj [(js ''service'', JStr (ip_service p)), (js ''amountMinor'', JNum (ip_amountMinor p)),
           (js ''currency'', JStr (ip_currency p)), (js ''payer'', json_opt JStr (ip_payer p)),
           (js ''proof'', json_opt (\<lambda>j. j) (ip_proof p))]"

definition record_earning :: "'r desk \<Rightarrow> event_type \<Rightarrow> json \<Rightarrow> str \<Rightarrow> 'r exec_state \<Rightarrow> 'r exec_state" where
  "record_earning desk type payload now st = record_event (dk_exec desk) type (JsonP payload) now st"

definition quote :: "'r desk \<Rightarrow> str \<Rightarrow> str \<Rightarrow> jsnum \<Rightarrow> str option \<Rightarrow> 'r exec_state \<Rightarrow> price_quote \<times> 'r exec_state" where
  "quote desk now service priceMinor payTo st =
     (let q = \<lparr>pq_service = service, pq_priceMinor = priceMinor, pq_currency = ap_currency (dk_policy desk),
               pq_payTo = payTo\<rparr>
      in (q, record_earning desk EarningQuoted
               (JObj [(js ''service'', JStr service), (js ''priceMinor'', JNum priceMinor),
                      (js ''currency'', JStr (pq_currency q)), (js ''payTo'', json_opt JStr payTo)]) now st))"

definition reject_inbound ::
  "'r desk \<Rightarrow> str \<Rightarrow> inbound_payment \<Rightarrow> inbound_reason list \<Rightarrow> 'r exec_state \<Rightarrow> receive_result \<times> 'r exec_state" where
  "reject_inbound desk now payment reasons st =
     (\<lparr>rv_accepted = False, rv_reasons = reasons\<rparr>,
      record_earning desk EarningRejected
        (JObj [(js ''payment'', inbound_json payment),
               (js ''reasons'', JArr (map (JStr \<circ> inbound_text (num_text (xd_crypto (dk_exec desk)))) reasons))]) now st)"

definition receive :: "'r desk \<Rightarrow> str \<Rightarrow> inbound_payment \<Rightarrow> 'r exec_state \<Rightarrow> receive_result \<times> 'r exec_state" where
  "receive desk now payment st =
     (let policyCheck = evaluateInbound payment (dk_policy desk)
      in if \<not> rv_accepted policyCheck then reject_inbound desk now payment (rv_reasons policyCheck) st
         else (case dk_verifier desk of
                 None \<Rightarrow> reject_inbound desk now payment [NoEarningVerifier] st
               | Some verify \<Rightarrow>
                   if \<not> verify payment then reject_inbound desk now payment [ProofNotVerified] st
                   else (\<lparr>rv_accepted = True, rv_reasons = [PaymentRecorded]\<rparr>,
                         record_earning desk EarningReceived
                           (JObj [(js ''service'', JStr (ip_service payment)), (js ''amount'', JNum (ip_amountMinor payment)),
                                  (js ''currency'', JStr (ip_currency payment)),
                                  (js ''payer'', json_opt JStr (ip_payer payment))]) now st)))"

section \<open>Properties\<close>

lemma evaluateInbound_accepted:
  "rv_accepted (evaluateInbound p policy) \<longleftrightarrow>
     ip_currency p = ap_currency policy \<and> ap_minPriceMinor policy \<le> ip_amountMinor p \<and>
     (case ap_allowedServices policy of Some allowed \<Rightarrow> ip_service p \<in> set allowed | None \<Rightarrow> True)"
  by (auto simp: evaluateInbound_def Let_def not_less split: option.splits)

lemma reject_inbound_result [simp]:
  "rv_accepted (fst (reject_inbound desk now p rs st)) = False"
  "snd (reject_inbound desk now p rs st) = record_earning desk EarningRejected
     (JObj [(js ''payment'', inbound_json p),
       (js ''reasons'', JArr (map (JStr \<circ> inbound_text (num_text (xd_crypto (dk_exec desk)))) rs))]) now st"
  by (simp_all add: reject_inbound_def)

lemma receive_accepted:
  "rv_accepted (fst (receive desk now p st)) \<longleftrightarrow>
     rv_accepted (evaluateInbound p (dk_policy desk)) \<and> (\<exists>verify. dk_verifier desk = Some verify \<and> verify p)"
  by (auto simp: receive_def Let_def split: option.splits)

lemma receive_records:
  "\<exists>payload. snd (receive desk now p st) =
     record_earning desk (if rv_accepted (fst (receive desk now p st)) then EarningReceived else EarningRejected) payload now st"
  by (auto simp: receive_def Let_def split: option.splits)

text \<open>
  Fact: income is never recorded on faith, and nothing inbound goes unrecorded. The desk accepts a
  payment exactly when it is in the currency of the policy, not below its minimum, for an offered
  service, and an injected verifier confirms its proof. Either way the log gains one entry, that of the
  reception or that of the rejection, the audit trail stays sound, and mandates, intents, receipts and
  the world stay as they are.
\<close>

theorem inbound_accounted:
  "(rv_accepted (fst (receive desk now p st)) \<longleftrightarrow>
      ip_currency p = ap_currency (dk_policy desk) \<and> ap_minPriceMinor (dk_policy desk) \<le> ip_amountMinor p \<and>
      (case ap_allowedServices (dk_policy desk) of Some allowed \<Rightarrow> ip_service p \<in> set allowed | None \<Rightarrow> True) \<and>
      (\<exists>verify. dk_verifier desk = Some verify \<and> verify p)) \<and>
   map ae_type (xs_log (snd (receive desk now p st))) = map ae_type (xs_log st) @
     [if rv_accepted (fst (receive desk now p st)) then EarningReceived else EarningRejected] \<and>
   (audited (dk_exec desk) st \<longrightarrow> audited (dk_exec desk) (snd (receive desk now p st))) \<and>
   st_mandates (xs_store (snd (receive desk now p st))) = st_mandates (xs_store st) \<and>
   st_intents (xs_store (snd (receive desk now p st))) = st_intents (xs_store st) \<and>
   st_receipts (xs_store (snd (receive desk now p st))) = st_receipts (xs_store st) \<and>
   xs_world (snd (receive desk now p st)) = xs_world st"
proof -
  obtain payload where eq: "snd (receive desk now p st) =
      record_event (dk_exec desk) (if rv_accepted (fst (receive desk now p st)) then EarningReceived else EarningRejected)
        (JsonP payload) now st"
    using receive_records [of desk now p st] by (auto simp: record_earning_def)
  have books: "st_mandates (xs_store (record_event deps t pl ts st)) = st_mandates (xs_store st)"
    "st_intents (xs_store (record_event deps t pl ts st)) = st_intents (xs_store st)"
    "st_receipts (xs_store (record_event deps t pl ts st)) = st_receipts (xs_store st)"
    "xs_world (record_event deps t pl ts st) = xs_world st" for deps t pl ts
    by (simp_all add: record_event_def Let_def ledger_simps)
  have "map ae_type (xs_log (snd (receive desk now p st))) = map ae_type (xs_log st) @
      [if rv_accepted (fst (receive desk now p st)) then EarningReceived else EarningRejected]"
    by (subst eq) (rule log_types_record)
  moreover have "audited (dk_exec desk) st \<longrightarrow> audited (dk_exec desk) (snd (receive desk now p st))"
    by (subst eq) (use trail.inv_record in blast)
  moreover have "st_mandates (xs_store (snd (receive desk now p st))) = st_mandates (xs_store st)"
    "st_intents (xs_store (snd (receive desk now p st))) = st_intents (xs_store st)"
    "st_receipts (xs_store (snd (receive desk now p st))) = st_receipts (xs_store st)"
    "xs_world (snd (receive desk now p st)) = xs_world st"
    by (subst eq, rule books)+
  ultimately show ?thesis by (simp add: receive_accepted evaluateInbound_accepted)
qed

text \<open>A desk that sells one service, and its answer to a payment whose proof verifies.\<close>

definition example_desk :: "nat desk" where
  "example_desk =
     \<lparr>dk_exec = example_deps,
      dk_policy = \<lparr>ap_currency = js ''USD'', ap_minPriceMinor = 100, ap_allowedServices = Some [js ''search'']\<rparr>,
      dk_verifier = Some (\<lambda>p. ip_proof p \<noteq> None)\<rparr>"

definition example_inbound :: inbound_payment where
  "example_inbound =
     \<lparr>ip_service = js ''search'', ip_amountMinor = 150, ip_currency = js ''USD'', ip_payer = None,
      ip_proof = Some (JStr (js ''0xtx''))\<rparr>"

theorem inbound_accounted_witness:
  "rv_accepted (fst (receive example_desk example_now example_inbound (example_state []))) \<and>
   map ae_type (xs_log (snd (receive example_desk example_now example_inbound (example_state [])))) = [EarningReceived] \<and>
   audited example_deps (snd (receive example_desk example_now example_inbound (example_state [])))"
proof -
  have "audited example_deps (example_state [])"
    by (simp add: audited_def example_state_def createMemoryStore_def audit_verify_def)
  then have "audited (dk_exec example_desk) (example_state [])" by (simp add: example_desk_def)
  moreover have "xs_log (example_state []) = []" by (simp add: example_state_def)
  moreover have "dk_exec example_desk = example_deps" by (simp add: example_desk_def)
  moreover have "rv_accepted (fst (receive example_desk example_now example_inbound (example_state [])))"
    by (simp add: receive_accepted evaluateInbound_accepted example_desk_def example_inbound_def)
  ultimately show ?thesis
    using inbound_accounted [of example_desk example_now example_inbound "example_state []"] by simp
qed

end
