(* ===== verification/Multi_Tenant.thy ===== *)
theory Multi_Tenant
  imports Ingress
begin

text \<open>
  Tenant isolation, \<open>src/store/multiTenant.ts\<close>: a cache of one store per tenant over an injected factory.

  The source hands out a reference to a store, and operations act on the object behind it. Here the
  cached stores are the objects: what a holder of a tenant's store does is an update of that cache
  entry (\<open>tenant_op\<close>). An evicted store lives on with whoever holds it; in the model it is gone, so
  operations through a handle kept across its eviction are not modelled.
\<close>

record tenants =
  tn_factory :: "str \<Rightarrow> mem_store"
  tn_stores :: "(str, mem_store) omap"

definition createMultiTenantStore :: "(str \<Rightarrow> mem_store) \<Rightarrow> tenants" where
  "createMultiTenantStore factory = \<lparr>tn_factory = factory, tn_stores = []\<rparr>"

definition forTenant :: "str \<Rightarrow> tenants \<Rightarrow> js_error + (mem_store \<times> tenants)" where
  "forTenant tenantId t =
     (if tenantId = [] then Inl (Thrown (js ''tenantId is required''))
      else (case map_of (tn_stores t) tenantId of
              Some s \<Rightarrow> Inr (s, t)
            | None \<Rightarrow>
                let s = tn_factory t tenantId
                in Inr (s, t\<lparr>tn_stores := AList.update tenantId s (tn_stores t)\<rparr>)))"

definition tenant_ids :: "tenants \<Rightarrow> str list" where
  "tenant_ids t = map fst (tn_stores t)"

definition evict :: "str \<Rightarrow> tenants \<Rightarrow> tenants" where
  "evict tenantId t = t\<lparr>tn_stores := AList.delete tenantId (tn_stores t)\<rparr>"

section \<open>Operations on the stores handed out\<close>

datatype tenant_op =
    Use str "mem_store \<Rightarrow> mem_store"
  | Evict str

fun tenant_of :: "tenant_op \<Rightarrow> str" where
  "tenant_of (Use i f) = i"
| "tenant_of (Evict i) = i"

fun tenant_step :: "tenant_op \<Rightarrow> tenants \<Rightarrow> tenants" where
  "tenant_step (Use i f) t =
     (case forTenant i t of
        Inl _ \<Rightarrow> t
      | Inr (s, t') \<Rightarrow> t'\<lparr>tn_stores := AList.update i (f s) (tn_stores t')\<rparr>)"
| "tenant_step (Evict i) t = evict i t"

definition tenant_run :: "tenant_op list \<Rightarrow> tenants \<Rightarrow> tenants" where
  "tenant_run ops t = fold tenant_step ops t"

text \<open>What a tenant gets when it asks for its store: the cached one, or a fresh one of the factory.\<close>

definition store_view :: "tenants \<Rightarrow> str \<Rightarrow> mem_store" where
  "store_view t i = nullish (map_of (tn_stores t) i) (tn_factory t i)"

lemma forTenant_view: "i \<noteq> [] \<Longrightarrow> \<exists>t'. forTenant i t = Inr (store_view t i, t') \<and> store_view t' = store_view t"
  by (auto simp: forTenant_def store_view_def Let_def fun_eq_iff omap.get_put split: option.splits)

lemma tenant_step_view:
  "tn_factory (tenant_step op t) = tn_factory t"
  "i \<noteq> tenant_of op \<Longrightarrow> store_view (tenant_step op t) i = store_view t i"
  "i \<noteq> [] \<Longrightarrow> store_view (tenant_step (Use i f) t) i = f (store_view t i)"
  "store_view (tenant_step (Evict i) t) i = tn_factory t i"
  by (cases op; auto simp: forTenant_def store_view_def evict_def Let_def omap.get_put omap.get_del split: option.splits)+

lemma tenant_step_distinct: "distinct (tenant_ids t) \<Longrightarrow> distinct (tenant_ids (tenant_step op t))"
  by (cases op)
    (auto simp: tenant_ids_def forTenant_def evict_def Let_def omap.ok_put omap.ok_del split: option.splits)

text \<open>
  Fact: tenants are isolated. After any sequence of operations on any tenants, the store a tenant
  gets is the one it would get had only its own operations run; and every tenant is cached once.
\<close>

theorem tenant_isolation:
  assumes "i \<noteq> []"
  shows "store_view (tenant_run ops (createMultiTenantStore factory)) i =
      store_view (tenant_run (filter (\<lambda>op. tenant_of op = i) ops) (createMultiTenantStore factory)) i \<and>
    distinct (tenant_ids (tenant_run ops (createMultiTenantStore factory)))"
proof
  have "store_view (tenant_run ops t) i = store_view (tenant_run (filter (\<lambda>op. tenant_of op = i) ops) t') i"
    if "store_view t i = store_view t' i" "tn_factory t = tn_factory t'" for t t'
    using that
  proof (induction ops arbitrary: t t')
    case (Cons op ops)
    show ?case
    proof (cases "tenant_of op = i")
      case False
      with Cons.IH [of "tenant_step op t" t'] Cons.prems show ?thesis
        by (simp add: tenant_run_def tenant_step_view(1,2))
    next
      case True
      have "store_view (tenant_step op t) i = store_view (tenant_step op t') i"
        using True assms Cons.prems by (cases op) (simp_all add: tenant_step_view(3,4) del: tenant_step.simps)
      with Cons.IH [of "tenant_step op t" "tenant_step op t'"] Cons.prems True show ?thesis
        by (simp add: tenant_run_def tenant_step_view(1))
    qed
  qed (simp add: tenant_run_def)
  then show "store_view (tenant_run ops (createMultiTenantStore factory)) i =
      store_view (tenant_run (filter (\<lambda>op. tenant_of op = i) ops) (createMultiTenantStore factory)) i" by blast
  have "distinct (tenant_ids t) \<Longrightarrow> distinct (tenant_ids (tenant_run ops t))" for t
    by (induction ops arbitrary: t) (simp_all add: tenant_run_def tenant_step_distinct)
  then show "distinct (tenant_ids (tenant_run ops (createMultiTenantStore factory)))"
    by (simp add: createMultiTenantStore_def tenant_ids_def)
qed

theorem tenant_isolation_witness:
  "isKilled (store_view (tenant_run [Use (js ''acme'') (setMeta KILL_KEY (js ''1'')), Use (js ''globex'') (\<lambda>s. s)]
     (createMultiTenantStore (\<lambda>i. createMemoryStore i))) (js ''acme'')) \<and>
   \<not> isKilled (store_view (tenant_run [Use (js ''acme'') (setMeta KILL_KEY (js ''1'')), Use (js ''globex'') (\<lambda>s. s)]
     (createMultiTenantStore (\<lambda>i. createMemoryStore i))) (js ''globex''))"
proof -
  let ?ops = "[Use (js ''acme'') (setMeta KILL_KEY (js ''1'')), Use (js ''globex'') (\<lambda>s. s)]"
  let ?t = "createMultiTenantStore (\<lambda>i. createMemoryStore i)"
  have names: "js ''acme'' \<noteq> []" "js ''globex'' \<noteq> []" by simp_all
  have acme: "store_view (tenant_run ?ops ?t) (js ''acme'') =
      store_view (tenant_run [Use (js ''acme'') (setMeta KILL_KEY (js ''1''))] ?t) (js ''acme'')"
    using tenant_isolation [OF names(1), of ?ops "\<lambda>i. createMemoryStore i"] by simp
  have globex: "store_view (tenant_run ?ops ?t) (js ''globex'') =
      store_view (tenant_run [Use (js ''globex'') (\<lambda>s. s)] ?t) (js ''globex'')"
    using tenant_isolation [OF names(2), of ?ops "\<lambda>i. createMemoryStore i"] by simp
  show ?thesis
    unfolding acme globex
    by (simp add: tenant_run_def tenant_step_view(3) names del: tenant_step.simps)
      (simp add: isKilled_def getMeta_setMeta store_view_def createMultiTenantStore_def createMemoryStore_def getMeta_def setMeta_def)
qed

end
