(* ===== verification/Compliance.thy ===== *)
theory Compliance
  imports Executor_Ledger
begin

text \<open>
  Screening and oversight: the sanctions list screener and its two seams into the gate
  (\<open>src/compliance/sanctions.ts\<close>), the structuring heuristic (\<open>src/compliance/aml.ts\<close>) and the
  deployer-oversight report over the audit log (\<open>src/compliance/oversight.ts\<close>).

  A provider is a function from the intent and the gate's observations to a verdict; the structuring
  screen may throw, on a clock string that is not a date. The report reads payloads as the log records
  them; what is undefined in a payload is an absent option.
\<close>

section \<open>The screening seam\<close>

datatype verdict =
    Clear
  | Flagged jsnum "str list"
  | BlockedBy str

record provider_compliance =
  cp_id :: str
  cp_screen :: "payment_intent \<Rightarrow> (str list \<times> reversibility) option \<Rightarrow> verdict"

record sanction_entry =
  se_ref :: str
  se_name :: "str option"
  se_aliases :: "str list option"
  se_payees :: "str list option"
  se_chainAddresses :: "str list option"

fun collapse_spaces :: "bool \<Rightarrow> str \<Rightarrow> str" where
  "collapse_spaces inside [] = []"
| "collapse_spaces inside (c # s) =
     (if is_space c then (if inside then collapse_spaces True s else 32 # collapse_spaces True s)
      else c # collapse_spaces False s)"

definition norm_name :: "str \<Rightarrow> str" where
  "norm_name s = collapse_spaces False (to_lower (trim s))"

record sanction_index =
  sx_byName :: "(str, sanction_entry) omap"
  sx_byPayee :: "(str, sanction_entry) omap"
  sx_byAddress :: "(str, sanction_entry) omap"

definition index_all :: "sanction_entry \<Rightarrow> str list \<Rightarrow> (str, sanction_entry) omap \<Rightarrow> (str, sanction_entry) omap" where
  "index_all e keys m = foldl (\<lambda>m k. AList.update (norm_name k) e m) m keys"

definition entry_names :: "sanction_entry \<Rightarrow> str list" where
  "entry_names e =
     (case se_name e of Some n \<Rightarrow> if n = [] then [] else [n] | None \<Rightarrow> []) @ nullish (se_aliases e) []"

definition index_entry :: "sanction_index \<Rightarrow> sanction_entry \<Rightarrow> sanction_index" where
  "index_entry idx e =
     \<lparr>sx_byName = index_all e (entry_names e) (sx_byName idx),
      sx_byPayee = index_all e (nullish (se_payees e) []) (sx_byPayee idx),
      sx_byAddress = index_all e (nullish (se_chainAddresses e) []) (sx_byAddress idx)\<rparr>"

definition indexEntries :: "sanction_entry list \<Rightarrow> sanction_index" where
  "indexEntries entries = foldl index_entry \<lparr>sx_byName = [], sx_byPayee = [], sx_byAddress = []\<rparr> entries"

definition sanction_hit :: "sanction_index \<Rightarrow> str \<Rightarrow> sanction_entry option" where
  "sanction_hit idx payee =
     or_else (map_of (sx_byPayee idx) payee)
       (or_else (map_of (sx_byName idx) payee) (map_of (sx_byAddress idx) payee))"

definition ListScreener :: "sanction_entry list \<Rightarrow> str option \<Rightarrow> provider_compliance" where
  "ListScreener entries i =
     \<lparr>cp_id = nullish i (js ''list-screener''),
      cp_screen = (\<lambda>intent _.
        case sanction_hit (indexEntries entries) (norm_name (i_payee intent)) of
          Some hit \<Rightarrow>
            BlockedBy (js ''payee matches sanctions/deny listing '' @ se_ref hit @
              (case se_name hit of Some n \<Rightarrow> if n = [] then [] else js '' ('' @ n @ js '')'' | None \<Rightarrow> []))
        | None \<Rightarrow> Clear)\<rparr>"

definition denyRuleFromCompliance :: "provider_compliance \<Rightarrow> str option \<Rightarrow> deny_rule" where
  "denyRuleFromCompliance p reason =
     \<lparr>dr_id = js ''compliance:'' @ cp_id p,
      dr_reason = nullish reason (js ''sanctions/AML compliance screening hit''),
      dr_match = (\<lambda>intent known side. case cp_screen p intent (Some (known, side)) of BlockedBy _ \<Rightarrow> True | _ \<Rightarrow> False)\<rparr>"

definition reputationFromCompliance ::
  "provider_compliance \<Rightarrow> str list \<Rightarrow> (payment_intent \<Rightarrow> reversibility) \<Rightarrow> (str \<Rightarrow> reputation_level option) option \<Rightarrow>
   payment_intent \<Rightarrow> reputation_level option" where
  "reputationFromCompliance p known reversibilityOf base intent =
     (case cp_screen p intent (Some (known, reversibilityOf intent)) of
        Clear \<Rightarrow> (case base of Some f \<Rightarrow> f (i_payee intent) | None \<Rightarrow> None)
      | _ \<Rightarrow> Some RepFlagged)"

section \<open>Structuring\<close>

record structuring_options =
  sto_thresholdMinor :: jsnum
  sto_marginFraction :: "jsnum option"
  sto_windowMinutes :: "jsnum option"
  sto_minCount :: "nat option"
  sto_riskBump :: "jsnum option"

definition just_under :: "structuring_options \<Rightarrow> jsnum \<Rightarrow> bool" where
  "just_under opts amount \<longleftrightarrow>
     amount \<ge> math_floor (sto_thresholdMinor opts * (1 - nullish (sto_marginFraction opts) (1 / 10))) \<and>
     amount < sto_thresholdMinor opts"

definition structuring_start :: "structuring_options \<Rightarrow> str \<Rightarrow> js_error + str" where
  "structuring_start opts now =
     (case date_parse now of
        None \<Rightarrow> Inl RangeError
      | Some t \<Rightarrow> to_iso \<lfloor>math_trunc (of_int t - nullish (sto_windowMinutes opts) 1440 * 60000)\<rfloor>)"

definition structuring_screen ::
  "(jsnum \<Rightarrow> str) \<Rightarrow> structuring_options \<Rightarrow> str \<Rightarrow> prior_spend list \<Rightarrow> payment_intent \<Rightarrow> js_error + verdict" where
  "structuring_screen num opts now recentPayments intent =
     (if \<not> just_under opts (i_amount intent) then Inr Clear
      else bindE (structuring_start opts now) (\<lambda>windowStart.
        let priorJustUnder = length (filter (\<lambda>s. ps_at s \<ge> windowStart \<and> just_under opts (ps_amount s)) recentPayments);
            total = priorJustUnder + 1
        in Inr (if total \<ge> nullish (sto_minCount opts) 3
                then Flagged (nullish (sto_riskBump opts) 2)
                       [js ''possible structuring: '' @ show_nat total @ js '' payments just under the '' @
                        num (sto_thresholdMinor opts) @ js '' threshold within the window'']
                else Clear)))"

section \<open>The oversight report\<close>

record report_period =
  rp_start :: str
  rp_end :: str

record spend_bucket =
  sb_count :: nat
  sb_totalByCurrency :: "(str, jsnum) omap"

record oversight =
  ho_autoExecuted :: spend_bucket
  ho_operatorConfirmed :: spend_bucket
  ho_blocked :: spend_bucket
  ho_denyListHits :: nat
  ho_denyReasons :: "str list"
  mo_mandatesGranted :: nat
  mo_mandatesRevoked :: nat
  mo_settled :: spend_bucket
  rk_entriesInPeriod :: nat

definition emptyBucket :: spend_bucket where
  "emptyBucket = \<lparr>sb_count = 0, sb_totalByCurrency = []\<rparr>"

definition inPeriod :: "str \<Rightarrow> report_period \<Rightarrow> bool" where
  "inPeriod ts p \<longleftrightarrow> ts \<ge> rp_start p \<and> ts < rp_end p"

definition addToBucket :: "(jsnum \<times> str) option \<Rightarrow> spend_bucket \<Rightarrow> spend_bucket" where
  "addToBucket spend b =
     \<lparr>sb_count = sb_count b + 1,
      sb_totalByCurrency =
        (case spend of
           Some (amount, currency) \<Rightarrow>
             AList.update currency (nullish (map_of (sb_totalByCurrency b) currency) 0 + amount) (sb_totalByCurrency b)
         | None \<Rightarrow> sb_totalByCurrency b)\<rparr>"

definition DENY_PREFIX :: str where
  "DENY_PREFIX = js ''deny-list:''"

definition intent_spend :: "decision_payload \<Rightarrow> (jsnum \<times> str) option" where
  "intent_spend p = map_option (\<lambda>i. (i_amount i, i_currency i)) (dp_intent p)"

definition deny_texts :: "(jsnum \<Rightarrow> str) \<Rightarrow> decision_payload \<Rightarrow> str list" where
  "deny_texts num p =
     map (\<lambda>t. trim (drop (length DENY_PREFIX) t))
       (filter (\<lambda>t. starts_with t DENY_PREFIX) (map (reason_text num) (dp_reasons p)))"

definition add_decision :: "(jsnum \<Rightarrow> str) \<Rightarrow> decision_payload \<Rightarrow> oversight \<Rightarrow> oversight" where
  "add_decision num p rep =
     (case dp_outcome p of
        Block \<Rightarrow>
          rep\<lparr>ho_blocked := addToBucket (intent_spend p) (ho_blocked rep),
            ho_denyListHits := ho_denyListHits rep + length (deny_texts num p),
            ho_denyReasons := foldl (\<lambda>rs t. if t \<in> set rs then rs else rs @ [t]) (ho_denyReasons rep) (deny_texts num p)\<rparr>
      | AutoExecute \<Rightarrow>
          if dp_phase p = PhaseOperatorApproval
          then rep\<lparr>ho_operatorConfirmed := addToBucket (intent_spend p) (ho_operatorConfirmed rep)\<rparr>
          else rep\<lparr>ho_autoExecuted := addToBucket (intent_spend p) (ho_autoExecuted rep)\<rparr>
      | ConfirmOperator \<Rightarrow> rep)"

definition add_entry :: "(jsnum \<Rightarrow> str) \<Rightarrow> report_period \<Rightarrow> oversight \<Rightarrow> audit_entry \<Rightarrow> oversight" where
  "add_entry num per rep0 e =
     (if \<not> inPeriod (ae_ts e) per then rep0
      else
        let rep = rep0\<lparr>rk_entriesInPeriod := rk_entriesInPeriod rep0 + 1\<rparr>
        in (case ae_type e of
              MandateGranted \<Rightarrow> rep\<lparr>mo_mandatesGranted := mo_mandatesGranted rep + 1\<rparr>
            | MandateRevoked \<Rightarrow> rep\<lparr>mo_mandatesRevoked := mo_mandatesRevoked rep + 1\<rparr>
            | PaymentSettled \<Rightarrow>
                rep\<lparr>mo_settled := addToBucket
                    (case ae_payload e of PaymentSettledP _ _ amount currency _ \<Rightarrow> Some (amount, currency) | _ \<Rightarrow> None)
                    (mo_settled rep)\<rparr>
            | GateDecisionEvent \<Rightarrow> (case ae_payload e of GateDecisionP p \<Rightarrow> add_decision num p rep | _ \<Rightarrow> rep)
            | _ \<Rightarrow> rep))"

definition empty_oversight :: oversight where
  "empty_oversight =
     \<lparr>ho_autoExecuted = emptyBucket, ho_operatorConfirmed = emptyBucket, ho_blocked = emptyBucket,
      ho_denyListHits = 0, ho_denyReasons = [], mo_mandatesGranted = 0, mo_mandatesRevoked = 0,
      mo_settled = emptyBucket, rk_entriesInPeriod = 0\<rparr>"

record oversight_report =
  or_period :: report_period
  or_sections :: oversight
  or_mandatesActiveAtEnd :: nat
  or_totalEntries :: nat
  or_integrity :: verify_result

definition deployerOversightReport ::
  "(jsnum \<Rightarrow> str) \<Rightarrow> audit_entry list \<Rightarrow> mandate list \<Rightarrow> verify_result \<Rightarrow> report_period \<Rightarrow> oversight_report" where
  "deployerOversightReport num audit mandates integrity per =
     (let rep = foldl (add_entry num per) empty_oversight audit
      in \<lparr>or_period = per,
          or_sections = rep\<lparr>ho_denyReasons := sort (ho_denyReasons rep)\<rparr>,
          or_mandatesActiveAtEnd =
            length (filter (\<lambda>m. m_status m = Active \<and> m_grantedAt m < rp_end per \<and> m_expiresAt m > rp_end per) mandates),
          or_totalEntries = length audit, or_integrity = integrity\<rparr>)"

section \<open>What the index finds\<close>

text \<open>Everything a listing is known by: payee ids, names and aliases, chain addresses.\<close>

definition listed_as :: "sanction_entry \<Rightarrow> str list" where
  "listed_as e = nullish (se_payees e) [] @ entry_names e @ nullish (se_chainAddresses e) []"

lemma index_all_mem: "map_of (index_all e keys m) k \<noteq> None \<longleftrightarrow> k \<in> norm_name ` set keys \<or> map_of m k \<noteq> None"
  unfolding index_all_def by (induction keys arbitrary: m) (auto simp: omap.get_put)

lemma sanction_hit_iff:
  "sanction_hit (indexEntries entries) payee \<noteq> None \<longleftrightarrow> (\<exists>e \<in> set entries. payee \<in> norm_name ` set (listed_as e))"
proof -
  have "sanction_hit (foldl index_entry idx entries) payee \<noteq> None \<longleftrightarrow>
      sanction_hit idx payee \<noteq> None \<or> (\<exists>e \<in> set entries. payee \<in> norm_name ` set (listed_as e))" for idx
  proof (induction entries arbitrary: idx)
    case (Cons e entries)
    have hit: "sanction_hit idx k \<noteq> None \<longleftrightarrow>
        map_of (sx_byPayee idx) k \<noteq> None \<or> map_of (sx_byName idx) k \<noteq> None \<or> map_of (sx_byAddress idx) k \<noteq> None" for idx k
      by (cases "map_of (sx_byPayee idx) k"; cases "map_of (sx_byName idx) k") (simp_all add: sanction_hit_def)
    have "sanction_hit (index_entry idx e) payee \<noteq> None \<longleftrightarrow>
        sanction_hit idx payee \<noteq> None \<or> payee \<in> norm_name ` set (listed_as e)"
      unfolding hit index_entry_def sanction_index.select_convs index_all_mem listed_as_def set_append image_Un by blast
    with Cons [of "index_entry idx e"] show ?case by auto
  qed simp
  from this [of "\<lparr>sx_byName = [], sx_byPayee = [], sx_byAddress = []\<rparr>"] show ?thesis
    by (simp add: indexEntries_def sanction_hit_def)
qed

lemma compliance_rule_match:
  "dr_match (denyRuleFromCompliance (ListScreener entries i) reason) intent known side \<longleftrightarrow>
     (\<exists>e \<in> set entries. norm_name (i_payee intent) \<in> norm_name ` set (listed_as e))"
  using sanction_hit_iff [of entries "norm_name (i_payee intent)"]
  by (auto simp: denyRuleFromCompliance_def ListScreener_def split: option.splits)

section \<open>What the report counts\<close>

text \<open>A bucket holds exactly the given spends: how many, and their sum in each currency.\<close>

definition bucket_holds :: "spend_bucket \<Rightarrow> (jsnum \<times> str) option list \<Rightarrow> bool" where
  "bucket_holds b spends \<longleftrightarrow>
     sb_count b = length spends \<and>
     (\<forall>c. nullish (map_of (sb_totalByCurrency b) c) 0 =
        sum_list (map (\<lambda>sp. case sp of Some (a, c') \<Rightarrow> if c' = c then a else 0 | None \<Rightarrow> 0) spends))"

lemma bucket_holds_empty [simp]: "bucket_holds emptyBucket []"
  by (simp add: bucket_holds_def emptyBucket_def)

lemma bucket_holds_add: "bucket_holds b spends \<Longrightarrow> bucket_holds (addToBucket sp b) (spends @ [sp])"
  by (auto simp: bucket_holds_def addToBucket_def omap.get_put split: option.splits)

definition decisions_in :: "report_period \<Rightarrow> audit_entry list \<Rightarrow> decision_payload list" where
  "decisions_in per audit =
     List.map_filter (\<lambda>e. if inPeriod (ae_ts e) per \<and> ae_type e = GateDecisionEvent
       then (case ae_payload e of GateDecisionP p \<Rightarrow> Some p | _ \<Rightarrow> None) else None) audit"

definition settlements_in :: "report_period \<Rightarrow> audit_entry list \<Rightarrow> (jsnum \<times> str) option list" where
  "settlements_in per audit =
     map (\<lambda>e. case ae_payload e of PaymentSettledP _ _ amount currency _ \<Rightarrow> Some (amount, currency) | _ \<Rightarrow> None)
       (filter (\<lambda>e. inPeriod (ae_ts e) per \<and> ae_type e = PaymentSettled) audit)"

definition disposed :: "gate_outcome \<Rightarrow> (phase \<Rightarrow> bool) \<Rightarrow> decision_payload list \<Rightarrow> (jsnum \<times> str) option list" where
  "disposed out ph ps = map intent_spend (filter (\<lambda>p. dp_outcome p = out \<and> ph (dp_phase p)) ps)"

definition report_holds :: "report_period \<Rightarrow> audit_entry list \<Rightarrow> oversight \<Rightarrow> bool" where
  "report_holds per audit rep \<longleftrightarrow>
     bucket_holds (ho_autoExecuted rep) (disposed AutoExecute (\<lambda>ph. ph \<noteq> PhaseOperatorApproval) (decisions_in per audit)) \<and>
     bucket_holds (ho_operatorConfirmed rep) (disposed AutoExecute (\<lambda>ph. ph = PhaseOperatorApproval) (decisions_in per audit)) \<and>
     bucket_holds (ho_blocked rep) (disposed Block (\<lambda>_. True) (decisions_in per audit)) \<and>
     bucket_holds (mo_settled rep) (settlements_in per audit) \<and>
     rk_entriesInPeriod rep = length (filter (\<lambda>e. inPeriod (ae_ts e) per) audit)"

lemma decisions_in_append: "decisions_in per (xs @ ys) = decisions_in per xs @ decisions_in per ys"
  by (simp add: decisions_in_def map_filter_def)

lemma add_decision_holds:
  assumes "bucket_holds (ho_autoExecuted rep) (disposed AutoExecute (\<lambda>ph. ph \<noteq> PhaseOperatorApproval) ps)"
    "bucket_holds (ho_operatorConfirmed rep) (disposed AutoExecute (\<lambda>ph. ph = PhaseOperatorApproval) ps)"
    "bucket_holds (ho_blocked rep) (disposed Block (\<lambda>_. True) ps)"
  shows "bucket_holds (ho_autoExecuted (add_decision num p rep)) (disposed AutoExecute (\<lambda>ph. ph \<noteq> PhaseOperatorApproval) (ps @ [p]))"
    "bucket_holds (ho_operatorConfirmed (add_decision num p rep)) (disposed AutoExecute (\<lambda>ph. ph = PhaseOperatorApproval) (ps @ [p]))"
    "bucket_holds (ho_blocked (add_decision num p rep)) (disposed Block (\<lambda>_. True) (ps @ [p]))"
    "mo_settled (add_decision num p rep) = mo_settled rep" "rk_entriesInPeriod (add_decision num p rep) = rk_entriesInPeriod rep"
  using assms by (cases "dp_outcome p"; auto simp: add_decision_def disposed_def intro: bucket_holds_add)+

lemma add_entry_holds:
  assumes "report_holds per audit rep"
  shows "report_holds per (audit @ [e]) (add_entry num per rep e)"
proof (cases "inPeriod (ae_ts e) per")
  case False
  with assms show ?thesis
    by (simp add: report_holds_def add_entry_def decisions_in_append settlements_in_def) (simp add: decisions_in_def map_filter_def)
next
  case True
  obtain r0 where r0: "r0 = rep\<lparr>rk_entriesInPeriod := rk_entriesInPeriod rep + 1\<rparr>" by blast
  have holds: "bucket_holds (ho_autoExecuted r0) (disposed AutoExecute (\<lambda>ph. ph \<noteq> PhaseOperatorApproval) (decisions_in per audit))"
    "bucket_holds (ho_operatorConfirmed r0) (disposed AutoExecute (\<lambda>ph. ph = PhaseOperatorApproval) (decisions_in per audit))"
    "bucket_holds (ho_blocked r0) (disposed Block (\<lambda>_. True) (decisions_in per audit))"
    "bucket_holds (mo_settled r0) (settlements_in per audit)"
    "rk_entriesInPeriod r0 = Suc (length (filter (\<lambda>e. inPeriod (ae_ts e) per) audit))"
    using assms by (simp_all add: report_holds_def r0)
  note dec = add_decision_holds [OF holds(1-3)]
  have ds: "decisions_in per [e] = (if ae_type e = GateDecisionEvent
      then (case ae_payload e of GateDecisionP p \<Rightarrow> [p] | _ \<Rightarrow> []) else [])"
    using True by (simp add: decisions_in_def map_filter_def split: payload.splits)
  have step: "add_entry num per rep e =
      (case ae_type e of
         MandateGranted \<Rightarrow> r0\<lparr>mo_mandatesGranted := mo_mandatesGranted r0 + 1\<rparr>
       | MandateRevoked \<Rightarrow> r0\<lparr>mo_mandatesRevoked := mo_mandatesRevoked r0 + 1\<rparr>
       | PaymentSettled \<Rightarrow>
           r0\<lparr>mo_settled := addToBucket
               (case ae_payload e of PaymentSettledP _ _ amount currency _ \<Rightarrow> Some (amount, currency) | _ \<Rightarrow> None)
               (mo_settled r0)\<rparr>
       | GateDecisionEvent \<Rightarrow> (case ae_payload e of GateDecisionP p \<Rightarrow> add_decision num p r0 | _ \<Rightarrow> r0)
       | _ \<Rightarrow> r0)"
    unfolding add_entry_def Let_def r0 by (simp only: True not_True_eq_False if_False)
  show ?thesis
    unfolding step using holds True
    by (cases "ae_type e"; cases "ae_payload e")
      (simp_all add: report_holds_def decisions_in_append ds settlements_in_def dec bucket_holds_add)
qed

lemma oversight_holds: "report_holds per audit (foldl (add_entry num per) empty_oversight audit)"
proof (induction audit rule: rev_induct)
  case Nil
  then show ?case
    by (simp add: report_holds_def empty_oversight_def decisions_in_def map_filter_def settlements_in_def disposed_def)
next
  case (snoc e audit)
  then show ?case by (simp add: add_entry_holds)
qed

section \<open>The trace of an approval\<close>

lemma record_event_entry:
  "\<exists>e. xs_log (record_event deps t pl ts st) = xs_log st @ [e] \<and> ae_type e = t \<and> ae_payload e = pl \<and> ae_ts e = ts"
  by (simp add: record_event_log log_record_def make_entry_def Let_def)

lemma settle_log:
  assumes "settle deps intent now st = (Inr (rc, v), st')"
  shows "\<exists>e2 e3. xs_log st' = xs_log st @ [e2, e3] \<and> ae_type e2 = PaymentSettled \<and> ae_ts e2 = r_settledAt rc \<and>
    ae_type e3 = PaymentVerified"
  using assms
  by (auto simp: settle_def settle_record_def record_event_log log_record_def make_entry_def Let_def
      split: option.splits prod.splits sum.splits)

lemma approve_settled_log:
  assumes "approve deps now i why ack st = (Inr r, st')" "xr_status r = Settled"
  shows "\<exists>e1 e2 e3 p rc. xs_log st' = xs_log st @ [e1, e2, e3] \<and> xr_receipt r = Some rc \<and>
    ae_type e1 = GateDecisionEvent \<and> ae_payload e1 = GateDecisionP p \<and> dp_outcome p = gd_outcome (xr_decision r) \<and>
    dp_intent p = None \<and> dp_phase p = PhaseOperatorApproval \<and>
    ae_type e2 = PaymentSettled \<and> ae_ts e2 = r_settledAt rc \<and> ae_type e3 = PaymentVerified"
  using assms(1)
proof (cases rule: approve_cases)
  case stopped
  then have False
    using assms(2) by (cases rule: approve_decide_cases) (auto simp: exec_result_def elim!: change_intent_cases)
  then show ?thesis ..
next
  case (settled si d st1 out st2)
  from settled(2) have st1: "st1 = record_decision deps (approval_payload i d why ack) now st"
    by (cases rule: approve_decide_cases) auto
  have out: "\<exists>rc v. out = Inr (rc, v) \<and> xr_receipt r = Some rc \<and> xr_decision r = d \<and> xs_log st' = xs_log st2"
    using settled(4) assms(2)
    by (cases out) (auto simp: approve_record_def exec_result_def recordOutcome_def elim!: change_intent_cases)
  then obtain rc v where rc: "out = Inr (rc, v)" "xr_receipt r = Some rc" "xr_decision r = d" "xs_log st' = xs_log st2"
    by blast
  obtain e1 where e1: "xs_log st1 = xs_log st @ [e1]" "ae_type e1 = GateDecisionEvent"
    "ae_payload e1 = GateDecisionP ((approval_payload i d why ack)\<lparr>dp_policyHash := Some (current_policy_hash deps st)\<rparr>)"
    using record_event_entry [of deps GateDecisionEvent] unfolding st1 record_decision_def by blast
  from settle_log [OF settled(3) [unfolded rc(1)]] obtain e2 e3 where e2: "xs_log st2 = xs_log st1 @ [e2, e3]"
    "ae_type e2 = PaymentSettled" "ae_ts e2 = r_settledAt rc" "ae_type e3 = PaymentVerified" by blast
  have "xs_log st' = xs_log st @ [e1, e2, e3]" by (simp add: rc(4) e2(1) e1(1))
  then show ?thesis
    using e1 e2 rc by (simp add: approval_payload_def)
qed

section \<open>Properties\<close>


definition example_listing :: sanction_entry where
  "example_listing =
     \<lparr>se_ref = js ''SDN-1'', se_name = Some (js ''ACME  Laundering''), se_aliases = Some [js ''Acme''], se_payees = None,
      se_chainAddresses = None\<rparr>"


text \<open>
  Fact: the oversight report against its definition. Each bucket of the report holds exactly the
  decisions of the period with its outcome and phase, and the settlements of the period: their number,
  and in every currency the sum of the amounts recorded with them.
\<close>

theorem oversight_report_exact:
  "report_holds per audit (or_sections (deployerOversightReport num audit mandates integrity per))"
  using oversight_holds [of per audit num]
  by (simp add: deployerOversightReport_def Let_def report_holds_def)

text \<open>
  Fact: the report misses what the operator confirms. An approval that settles while the gate, run
  again, still asks for the operator counts as a settlement of its period but not as confirmed by the
  operator; and no approval that settles adds any amount to the confirmed total, because its decision
  is recorded without the intent.
\<close>

theorem confirmed_spend_unreported:
  assumes "approve deps now i why ack st = (Inr r, st')" "xr_status r = Settled" "xr_receipt r = Some rc"
  shows "sb_count (mo_settled (or_sections (deployerOversightReport num (xs_log st') ms v per))) =
      sb_count (mo_settled (or_sections (deployerOversightReport num (xs_log st) ms v per))) +
      (if inPeriod (r_settledAt rc) per then 1 else 0) \<and>
    sb_totalByCurrency (ho_operatorConfirmed (or_sections (deployerOversightReport num (xs_log st') ms v per))) =
      sb_totalByCurrency (ho_operatorConfirmed (or_sections (deployerOversightReport num (xs_log st) ms v per))) \<and>
    (gd_outcome (xr_decision r) = ConfirmOperator \<longrightarrow>
      ho_operatorConfirmed (or_sections (deployerOversightReport num (xs_log st') ms v per)) =
      ho_operatorConfirmed (or_sections (deployerOversightReport num (xs_log st) ms v per)))"
proof -
  from approve_settled_log [OF assms(1,2)] assms(3) obtain e1 e2 e3 p where
    log: "xs_log st' = xs_log st @ [e1, e2, e3]" and e1: "ae_type e1 = GateDecisionEvent" "ae_payload e1 = GateDecisionP p"
      "dp_outcome p = gd_outcome (xr_decision r)" "dp_intent p = None"
    and e2: "ae_type e2 = PaymentSettled" "ae_ts e2 = r_settledAt rc" and e3: "ae_type e3 = PaymentVerified"
    by auto
  have decision: "mo_settled (add_entry num per rep e1) = mo_settled rep"
    "sb_totalByCurrency (ho_operatorConfirmed (add_entry num per rep e1)) = sb_totalByCurrency (ho_operatorConfirmed rep)"
    "gd_outcome (xr_decision r) = ConfirmOperator \<Longrightarrow>
       ho_operatorConfirmed (add_entry num per rep e1) = ho_operatorConfirmed rep" for rep
    using e1 by (auto simp: add_entry_def add_decision_def addToBucket_def intent_spend_def Let_def split: gate_outcome.splits)
  have settled: "sb_count (mo_settled (add_entry num per rep e2)) =
      sb_count (mo_settled rep) + (if inPeriod (r_settledAt rc) per then 1 else 0)"
    "ho_operatorConfirmed (add_entry num per rep e2) = ho_operatorConfirmed rep" for rep
    using e2 by (auto simp: add_entry_def addToBucket_def Let_def)
  have verified: "mo_settled (add_entry num per rep e3) = mo_settled rep"
    "ho_operatorConfirmed (add_entry num per rep e3) = ho_operatorConfirmed rep" for rep
    using e3 by (auto simp: add_entry_def Let_def)
  show ?thesis
    by (simp add: deployerOversightReport_def Let_def log decision settled verified)
qed

theorem confirmed_spend_unreported_witness:
  "\<exists>r (st' :: nat exec_state). approve example_deps example_now (js ''pi_1'') (js ''ok'') False (example_state [parked_example]) = (Inr r, st') \<and>
     xr_status r = Settled \<and>
     sb_totalByCurrency (ho_operatorConfirmed (or_sections (deployerOversightReport (\<lambda>_. []) (xs_log st') []
       \<lparr>vr_valid = True, vr_brokenAt = None, vr_reason = None\<rparr> \<lparr>rp_start = [], rp_end = js ''3''\<rparr>))) = []"
proof -
  obtain r and st' :: "nat exec_state" where run:
    "approve example_deps example_now (js ''pi_1'') (js ''ok'') False (example_state [parked_example]) = (Inr r, st')"
    "xr_status r = Settled"
    using example_approval by blast
  obtain rc where "xr_receipt r = Some rc" using approve_settled_log [OF run] by blast
  moreover have "xs_log (example_state [parked_example]) = []" by (simp add: example_state_def)
  ultimately have "sb_totalByCurrency (ho_operatorConfirmed (or_sections (deployerOversightReport (\<lambda>_. []) (xs_log st') []
       \<lparr>vr_valid = True, vr_brokenAt = None, vr_reason = None\<rparr> \<lparr>rp_start = [], rp_end = js ''3''\<rparr>))) =
      sb_totalByCurrency (ho_operatorConfirmed (or_sections (deployerOversightReport (\<lambda>_. []) [] []
       \<lparr>vr_valid = True, vr_brokenAt = None, vr_reason = None\<rparr> \<lparr>rp_start = [], rp_end = js ''3''\<rparr>)))"
    using confirmed_spend_unreported [OF run, of rc "\<lambda>_. []" "[]"
        "\<lparr>vr_valid = True, vr_brokenAt = None, vr_reason = None\<rparr>" "\<lparr>rp_start = [], rp_end = js ''3''\<rparr>"] by simp
  with run show ?thesis by (simp add: deployerOversightReport_def empty_oversight_def emptyBucket_def)
qed

end
