(* ===== verification/Audit_Export.thy ===== *)
theory Audit_Export
  imports Compliance
begin

text \<open>
  The portable audit chain, \<open>src/audit/export.ts\<close>: export as text, parsing and standalone verification,
  and the compliance package that bundles the chain with the oversight report.

  The JSON writer and reader for entries and for arrays of entries are arguments (\<open>json_codec\<close>); what
  is assumed of them where a text is read back is \<open>faithful_codec\<close>: a text is read back as the entries
  it was written from, an object is written on one line between braces, an array between brackets.
\<close>

section \<open>Export and parsing\<close>

record json_codec =
  jc_entry :: "audit_entry \<Rightarrow> str"
  jc_entries :: "audit_entry list \<Rightarrow> str"
  jc_parse_entry :: "str \<Rightarrow> audit_entry option"
  jc_parse_entries :: "str \<Rightarrow> audit_entry list option"

datatype export_format = JsonFormat | JsonlFormat

definition exportAuditChain :: "json_codec \<Rightarrow> audit_entry list \<Rightarrow> export_format option \<Rightarrow> str" where
  "exportAuditChain codec entries format =
     (if nullish format JsonlFormat = JsonFormat then jc_entries codec entries
      else join_lines (map (jc_entry codec) entries))"

definition parse_json :: "(str \<Rightarrow> 'a option) \<Rightarrow> str \<Rightarrow> js_error + 'a" where
  "parse_json parse s = (case parse s of Some x \<Rightarrow> Inr x | None \<Rightarrow> Inl (Thrown (js ''SyntaxError'')))"

definition parseAuditExport :: "json_codec \<Rightarrow> str \<Rightarrow> js_error + audit_entry list" where
  "parseAuditExport codec serialized =
     (let trimmed = trim serialized
      in if trimmed = [] then Inr []
         else if hd trimmed = 91 then parse_json (jc_parse_entries codec) trimmed
         else mapE (parse_json (jc_parse_entry codec)) (filter (\<lambda>l. trim l \<noteq> []) (split_char 10 trimmed)))"

definition verifyAuditExport :: "crypto \<Rightarrow> json_codec \<Rightarrow> str \<Rightarrow> str \<Rightarrow> js_error + verify_result" where
  "verifyAuditExport c codec serialized operatorKey =
     bindE (parseAuditExport codec serialized) (\<lambda>entries.
       bindE (audit_new (SingleKey operatorKey)) (\<lambda>_. Inr (audit_verify c (SingleKey operatorKey) entries)))"

section \<open>The compliance package\<close>

record package_integrity =
  pi_verdict :: verify_result
  pi_tip :: "(nat \<times> str) option"
  pi_entryCount :: nat

record compliance_package =
  pk_chain :: str
  pk_chainFormat :: export_format
  pk_oversight :: oversight_report
  pk_integrity :: package_integrity

definition chain_tip :: "audit_entry list \<Rightarrow> (nat \<times> str) option" where
  "chain_tip entries = (if entries = [] then None else Some (ae_seq (last entries), ae_hash (last entries)))"

definition exportCompliancePackage ::
  "crypto \<Rightarrow> json_codec \<Rightarrow> audit_entry list \<Rightarrow> mandate list \<Rightarrow> report_period \<Rightarrow> str \<Rightarrow> export_format option \<Rightarrow>
   js_error + compliance_package" where
  "exportCompliancePackage c codec entries mandates per operatorKey format =
     bindE (audit_new (SingleKey operatorKey)) (\<lambda>_.
       let fmt = nullish format JsonlFormat;
           verdict = audit_verify c (SingleKey operatorKey) entries
       in Inr \<lparr>pk_chain = exportAuditChain codec entries (Some fmt), pk_chainFormat = fmt,
               pk_oversight = deployerOversightReport (num_text c) entries mandates verdict per,
               pk_integrity = \<lparr>pi_verdict = verdict, pi_tip = chain_tip entries, pi_entryCount = length entries\<rparr>\<rparr>)"

datatype package_reason =
    ChainIntegrityFailed "verify_reason option"
  | VerdictMismatch
  | EntryCountMismatch nat nat
  | TipPresenceMismatch
  | TipMismatch
  | ReportVerdictMismatch

record package_verification =
  pv_valid :: bool
  pv_chain :: verify_result
  pv_reasons :: "package_reason list"

definition tip_reasons :: "(nat \<times> str) option \<Rightarrow> (nat \<times> str) option \<Rightarrow> package_reason list" where
  "tip_reasons tip proofTip =
     (if (tip = None) \<noteq> (proofTip = None) then [TipPresenceMismatch]
      else if tip \<noteq> None \<and> proofTip \<noteq> None \<and> tip \<noteq> proofTip then [TipMismatch] else [])"

definition package_reasons :: "compliance_package \<Rightarrow> verify_result \<Rightarrow> audit_entry list \<Rightarrow> package_reason list" where
  "package_reasons pkg chain entries =
     (if \<not> vr_valid chain then [ChainIntegrityFailed (vr_reason chain)] else []) @
     (if vr_valid (pi_verdict (pk_integrity pkg)) \<noteq> vr_valid chain then [VerdictMismatch] else []) @
     (if length entries \<noteq> pi_entryCount (pk_integrity pkg)
      then [EntryCountMismatch (pi_entryCount (pk_integrity pkg)) (length entries)] else []) @
     tip_reasons (chain_tip entries) (pi_tip (pk_integrity pkg)) @
     (if vr_valid (or_integrity (pk_oversight pkg)) \<noteq> vr_valid chain then [ReportVerdictMismatch] else [])"

definition verifyCompliancePackage ::
  "crypto \<Rightarrow> json_codec \<Rightarrow> compliance_package \<Rightarrow> str \<Rightarrow> js_error + package_verification" where
  "verifyCompliancePackage c codec pkg operatorKey =
     bindE (verifyAuditExport c codec (pk_chain pkg) operatorKey) (\<lambda>chain.
       bindE (parseAuditExport codec (pk_chain pkg)) (\<lambda>entries.
         let reasons = package_reasons pkg chain entries
         in Inr \<lparr>pv_valid = (reasons = []), pv_chain = chain, pv_reasons = reasons\<rparr>))"

section \<open>Reading an export back\<close>

definition one_line :: "str \<Rightarrow> bool" where
  "one_line l \<longleftrightarrow> l \<noteq> [] \<and> hd l = 123 \<and> last l = 125 \<and> 10 \<notin> set l"

definition faithful_codec :: "json_codec \<Rightarrow> audit_entry list \<Rightarrow> bool" where
  "faithful_codec codec entries \<longleftrightarrow>
     (\<forall>e \<in> set entries. jc_parse_entry codec (jc_entry codec e) = Some e \<and> one_line (jc_entry codec e)) \<and>
     jc_parse_entries codec (jc_entries codec entries) = Some entries \<and>
     jc_entries codec entries \<noteq> [] \<and> hd (jc_entries codec entries) = 91 \<and> last (jc_entries codec entries) = 93"

lemma join_lines_ends:
  "ls \<noteq> [] \<Longrightarrow> (\<And>l. l \<in> set ls \<Longrightarrow> one_line l) \<Longrightarrow>
     join_lines ls \<noteq> [] \<and> hd (join_lines ls) = 123 \<and> last (join_lines ls) = 125"
  by (induction ls rule: join_lines.induct) (auto simp: one_line_def)

lemma trim_outer: "s \<noteq> [] \<Longrightarrow> \<not> is_space (hd s) \<Longrightarrow> \<not> is_space (last s) \<Longrightarrow> trim s = s"
proof -
  assume s: "s \<noteq> []" "\<not> is_space (hd s)" "\<not> is_space (last s)"
  then have "dropWhile is_space s = s" by (cases s) auto
  moreover have "dropWhile is_space (rev s) = rev s" using s by (cases "rev s") (auto simp: hd_rev [symmetric])
  ultimately show ?thesis by (simp add: trim_def)
qed

lemma not_space_delimiters [simp]: "\<not> is_space 123" "\<not> is_space 125" "\<not> is_space 91" "\<not> is_space 93"
  by (simp_all add: is_space_def)

lemma mapE_map_Inr: "(\<And>x. x \<in> set xs \<Longrightarrow> f (g x) = Inr x) \<Longrightarrow> mapE f (map g xs) = Inr xs"
  by (induction xs) auto

lemma parse_export:
  assumes "faithful_codec codec entries"
  shows "parseAuditExport codec (exportAuditChain codec entries format) = Inr entries"
proof (cases "nullish format JsonlFormat = JsonFormat")
  case True
  with assms trim_outer [of "jc_entries codec entries"] show ?thesis
    by (simp add: exportAuditChain_def parseAuditExport_def faithful_codec_def parse_json_def)
next
  case False
  let ?ls = "map (jc_entry codec) entries"
  show ?thesis
  proof (cases "entries = []")
    case True
    with False show ?thesis by (simp add: exportAuditChain_def parseAuditExport_def trim_def)
  next
    case nonempty: False
    have lines: "\<And>l. l \<in> set ?ls \<Longrightarrow> one_line l" using assms by (auto simp: faithful_codec_def)
    with nonempty have ends: "join_lines ?ls \<noteq> []" "hd (join_lines ?ls) = 123" "last (join_lines ?ls) = 125"
      using join_lines_ends [of ?ls] by simp_all
    then have "trim (join_lines ?ls) = join_lines ?ls" by (intro trim_outer) simp_all
    moreover have "split_char 10 (join_lines ?ls) = ?ls"
      using nonempty lines by (intro split_join_lines) (auto simp: one_line_def)
    moreover have "filter (\<lambda>l. trim l \<noteq> []) ?ls = ?ls"
      using lines trim_outer by (fastforce simp: filter_id_conv one_line_def)
    moreover have "mapE (parse_json (jc_parse_entry codec)) ?ls = Inr entries"
      using assms by (intro mapE_map_Inr) (simp add: faithful_codec_def parse_json_def)
    ultimately show ?thesis using False ends by (simp add: exportAuditChain_def parseAuditExport_def)
  qed
qed

section \<open>Properties\<close>

text \<open>
  Property C30: an exported chain is read back and verified as it was. In either format, with any number of
  entries, parsing the export returns the entries, and the standalone verification gives the verdict
  that the log itself gives under that key; only an empty key is refused.
\<close>

theorem audit_export_round_trip:
  assumes "faithful_codec codec entries"
  shows "parseAuditExport codec (exportAuditChain codec entries format) = Inr entries \<and>
    verifyAuditExport c codec (exportAuditChain codec entries format) operatorKey =
      (if operatorKey = [] then Inl (Thrown (js ''AuditLog requires a non-empty operator key''))
       else Inr (audit_verify c (SingleKey operatorKey) entries))"
  using parse_export [OF assms] by (simp add: verifyAuditExport_def audit_new_def)

text \<open>A codec that writes every entry of the example log as one object and reads nothing else.\<close>

definition example_codec :: json_codec where
  "example_codec =
     \<lparr>jc_entry = (\<lambda>_. js ''{}''), jc_entries = (\<lambda>_. js ''[{}]''),
      jc_parse_entry = (\<lambda>s. if s = js ''{}'' then Some (hd example_log) else None),
      jc_parse_entries = (\<lambda>s. if s = js ''[{}]'' then Some example_log else None)\<rparr>"

lemma example_codec_faithful: "faithful_codec example_codec example_log"
proof -
  obtain e where e: "example_log = [e]" using example_log_entry by blast
  show ?thesis unfolding faithful_codec_def example_codec_def e by (simp add: one_line_def js_def)
qed

theorem audit_export_round_trip_witness:
  "\<exists>v. verifyAuditExport example_crypto example_codec (exportAuditChain example_codec example_log None) (js ''k'') = Inr v \<and>
     vr_valid v"
  using audit_export_round_trip [OF example_codec_faithful, of None example_crypto "js ''k''"] example_log_valid
  by simp

text \<open>
  Fact: what a compliance package proves. A package made from a chain and then given any oversight
  report whatsoever is accepted if and only if the chain verifies and the report says so: no other
  figure of the report is compared with the chain.
\<close>

theorem compliance_package_checks:
  assumes "faithful_codec codec entries"
    and "exportCompliancePackage c codec entries mandates per operatorKey format = Inr pkg"
  shows "\<exists>pv. verifyCompliancePackage c codec (pkg\<lparr>pk_oversight := report\<rparr>) operatorKey = Inr pv \<and>
    pv_chain pv = audit_verify c (SingleKey operatorKey) entries \<and>
    (pv_valid pv \<longleftrightarrow> vr_valid (audit_verify c (SingleKey operatorKey) entries) \<and> vr_valid (or_integrity report))"
proof -
  from assms(2) have key: "operatorKey \<noteq> []"
    and pkg: "pk_chain pkg = exportAuditChain codec entries (Some (nullish format JsonlFormat))"
      "pk_integrity pkg = \<lparr>pi_verdict = audit_verify c (SingleKey operatorKey) entries, pi_tip = chain_tip entries,
         pi_entryCount = length entries\<rparr>"
    by (auto simp: exportCompliancePackage_def audit_new_def Let_def split: if_splits)
  have "verifyCompliancePackage c codec (pkg\<lparr>pk_oversight := report\<rparr>) operatorKey =
      (let reasons = package_reasons (pkg\<lparr>pk_oversight := report\<rparr>) (audit_verify c (SingleKey operatorKey) entries) entries
       in Inr \<lparr>pv_valid = (reasons = []), pv_chain = audit_verify c (SingleKey operatorKey) entries, pv_reasons = reasons\<rparr>)"
    using key parse_export [OF assms(1)] by (simp add: verifyCompliancePackage_def verifyAuditExport_def audit_new_def pkg(1))
  then show ?thesis by (auto simp: Let_def package_reasons_def pkg(2) tip_reasons_def)
qed

theorem compliance_package_checks_witness:
  "\<exists>pkg report pv. exportCompliancePackage example_crypto example_codec example_log [] \<lparr>rp_start = [], rp_end = js ''z''\<rparr> (js ''k'') None = Inr pkg \<and>
     mo_mandatesRevoked (or_sections (pk_oversight pkg)) = 1 \<and> mo_mandatesRevoked (or_sections report) = 0 \<and>
     verifyCompliancePackage example_crypto example_codec (pkg\<lparr>pk_oversight := report\<rparr>) (js ''k'') = Inr pv \<and> pv_valid pv"
proof -
  let ?per = "\<lparr>rp_start = [], rp_end = js ''z''\<rparr>"
  let ?report = "deployerOversightReport example_num [] [] (audit_verify example_crypto (SingleKey (js ''k'')) example_log) ?per"
  obtain pkg where pkg: "exportCompliancePackage example_crypto example_codec example_log [] ?per (js ''k'') None = Inr pkg"
    by (simp add: exportCompliancePackage_def audit_new_def Let_def)
  obtain e where e: "example_log = [e]" "ae_ts e = js ''t''" "ae_type e = MandateRevoked" using example_log_entry by blast
  have "inPeriod (js ''t'') ?per" by (simp add: inPeriod_def js_def)
  with e(2,3) have "mo_mandatesRevoked (foldl (add_entry num ?per) empty_oversight [e]) = 1" for num
    by (simp add: add_entry_def empty_oversight_def)
  then have "mo_mandatesRevoked (or_sections (deployerOversightReport num example_log [] v ?per)) = 1" for num v
    unfolding e(1) by (simp add: deployerOversightReport_def Let_def)
  moreover have "pk_oversight pkg = deployerOversightReport (num_text example_crypto) example_log []
      (audit_verify example_crypto (SingleKey (js ''k'')) example_log) ?per"
    using pkg by (auto simp: exportCompliancePackage_def audit_new_def Let_def)
  ultimately have honest: "mo_mandatesRevoked (or_sections (pk_oversight pkg)) = 1" by auto
  have swapped: "mo_mandatesRevoked (or_sections ?report) = 0"
    by (simp add: deployerOversightReport_def empty_oversight_def)
  have claim: "vr_valid (or_integrity ?report)"
    using example_log_valid by (simp add: deployerOversightReport_def Let_def)
  obtain pv where "verifyCompliancePackage example_crypto example_codec (pkg\<lparr>pk_oversight := ?report\<rparr>) (js ''k'') = Inr pv"
    "pv_valid pv"
    using compliance_package_checks [OF example_codec_faithful pkg, of ?report] example_log_valid claim by blast
  with pkg honest swapped show ?thesis by blast
qed

end
