(* ===== verification/Trajectory.thy ===== *)
theory Trajectory
  imports Sdk
begin

text \<open>
  The deterministic process check over a signed trace, \<open>src/evals/process.ts\<close>: the index of the trace and
  the rules. A violation is a constructor with the values its text interpolates.

  Shown: the check is exact for its three blocking rules; every trace the kernel can produce satisfies
  two of them, so that on such a trace only the rule about halts can fire.
\<close>

section \<open>The index of a trace\<close>

definition decision_of_entry :: "audit_entry \<Rightarrow> decision_payload option" where
  "decision_of_entry e =
     (if ae_type e = GateDecisionEvent then (case ae_payload e of GateDecisionP p \<Rightarrow> Some p | _ \<Rightarrow> None) else None)"

definition settled_id :: "audit_entry \<Rightarrow> str option" where
  "settled_id e =
     (if ae_type e = PaymentSettled then (case ae_payload e of PaymentSettledP i _ _ _ _ \<Rightarrow> Some i | _ \<Rightarrow> None) else None)"

definition halted_id :: "audit_entry \<Rightarrow> str option" where
  "halted_id e =
     (if ae_type e = PaymentHalted then (case ae_payload e of PaymentHaltedP i _ _ \<Rightarrow> Some i | _ \<Rightarrow> None) else None)"

definition failed_id :: "audit_entry \<Rightarrow> str option" where
  "failed_id e =
     (if ae_type e = PaymentFailed then (case ae_payload e of PaymentFailedP i _ \<Rightarrow> Some i | _ \<Rightarrow> None) else None)"

record trace_index =
  tx_settled :: "str list"
  tx_halted :: "str list"
  tx_decisions :: "(str, decision_payload list) omap"
  tx_auto :: "str list"
  tx_failed :: "str list"
  tx_fingerprints :: "(str, nat) omap"

definition set_add :: "'a \<Rightarrow> 'a list \<Rightarrow> 'a list" where
  "set_add x xs = (if x \<in> set xs then xs else xs @ [x])"

definition add_id :: "str option \<Rightarrow> str list \<Rightarrow> str list" where
  "add_id i xs = (case i of Some x \<Rightarrow> if x = [] then xs else set_add x xs | None \<Rightarrow> xs)"

definition trace_fingerprint :: "(jsnum \<Rightarrow> str) \<Rightarrow> decision_payload \<Rightarrow> str" where
  "trace_fingerprint num p =
     (case dp_intent p of
        Some i \<Rightarrow> i_payee i @ [124] @ num (i_amount i) @ [124] @ rail_text (i_rail i)
      | None \<Rightarrow> js ''undefined|undefined|undefined'')"

definition index_decision :: "(jsnum \<Rightarrow> str) \<Rightarrow> decision_payload \<Rightarrow> trace_index \<Rightarrow> trace_index" where
  "index_decision num p ix =
     (if dp_intentId p = [] then ix
      else
        let fp = trace_fingerprint num p
        in ix\<lparr>tx_decisions := AList.update (dp_intentId p)
                (nullish (map_of (tx_decisions ix) (dp_intentId p)) [] @ [p]) (tx_decisions ix),
              tx_auto := (if dp_outcome p = AutoExecute then set_add (dp_intentId p) (tx_auto ix) else tx_auto ix),
              tx_fingerprints := (if dp_outcome p = Block
                then AList.update fp (nullish (map_of (tx_fingerprints ix) fp) 0 + 1) (tx_fingerprints ix)
                else tx_fingerprints ix)\<rparr>)"

definition index_trace_entry :: "(jsnum \<Rightarrow> str) \<Rightarrow> trace_index \<Rightarrow> audit_entry \<Rightarrow> trace_index" where
  "index_trace_entry num ix e =
     (case decision_of_entry e of
        Some p \<Rightarrow> index_decision num p ix
      | None \<Rightarrow>
          ix\<lparr>tx_settled := add_id (settled_id e) (tx_settled ix),
             tx_halted := add_id (halted_id e) (tx_halted ix),
             tx_failed := add_id (failed_id e) (tx_failed ix)\<rparr>)"

definition trace_index_of :: "(jsnum \<Rightarrow> str) \<Rightarrow> audit_entry list \<Rightarrow> trace_index" where
  "trace_index_of num trace =
     foldl (index_trace_entry num)
       \<lparr>tx_settled = [], tx_halted = [], tx_decisions = [], tx_auto = [], tx_failed = [], tx_fingerprints = []\<rparr> trace"

section \<open>The rules\<close>

datatype violation =
    SettleWithoutGateDecision str
  | SettleBlockedIntent str
  | SettleWhileHalted str
  | DoomLoop str nat
  | IncompleteAutoExecute str

fun blocking :: "violation \<Rightarrow> bool" where
  "blocking (DoomLoop fp n) = False"
| "blocking (IncompleteAutoExecute i) = False"
| "blocking v = True"

definition settled_violations :: "trace_index \<Rightarrow> str \<Rightarrow> violation list" where
  "settled_violations ix i =
     (let decisions = nullish (map_of (tx_decisions ix) i) []
      in if decisions = [] then [SettleWithoutGateDecision i]
         else (if list_all (\<lambda>d. dp_outcome d = Block) decisions then [SettleBlockedIntent i] else []) @
              (if i \<in> set (tx_halted ix) then [SettleWhileHalted i] else []))"

record process_result =
  pc_ok :: bool
  pc_violations :: "violation list"
  pc_blockViolations :: "violation list"

definition checkTrajectory :: "(jsnum \<Rightarrow> str) \<Rightarrow> audit_entry list \<Rightarrow> process_result" where
  "checkTrajectory num trace =
     (let ix = trace_index_of num trace;
          violations =
            concat (map (settled_violations ix) (tx_settled ix)) @
            List.map_filter (\<lambda>(fp, n). if n \<ge> 3 then Some (DoomLoop fp n) else None) (tx_fingerprints ix) @
            map IncompleteAutoExecute
              (filter (\<lambda>i. i \<notin> set (tx_settled ix) \<and> i \<notin> set (tx_failed ix)) (tx_auto ix));
          blockViolations = filter blocking violations
      in \<lparr>pc_ok = (blockViolations = []), pc_violations = violations, pc_blockViolations = blockViolations\<rparr>)"

section \<open>The check is exact\<close>

lemma set_set_add [simp]: "set (set_add x xs) = insert x (set xs)"
  by (auto simp: set_add_def)

lemma set_add_id: "set (add_id i xs) = set xs \<union> {x. i = Some x \<and> x \<noteq> []}"
  by (auto simp: add_id_def split: option.splits)

lemma trace_index_snoc: "trace_index_of num (trace @ [e]) = index_trace_entry num (trace_index_of num trace) e"
  by (simp add: trace_index_of_def)

lemma decision_entry_ids:
  "decision_of_entry e = Some p \<Longrightarrow> settled_id e = None \<and> halted_id e = None \<and> failed_id e = None"
  by (auto simp: decision_of_entry_def settled_id_def halted_id_def failed_id_def split: if_splits)

lemma index_ids:
  "set (tx_settled (trace_index_of num trace)) = {i. i \<noteq> [] \<and> (\<exists>e \<in> set trace. settled_id e = Some i)}"
  "set (tx_halted (trace_index_of num trace)) = {i. i \<noteq> [] \<and> (\<exists>e \<in> set trace. halted_id e = Some i)}"
proof (induction trace rule: rev_induct)
  case (snoc e trace)
  show "set (tx_settled (trace_index_of num (trace @ [e]))) = {i. i \<noteq> [] \<and> (\<exists>e \<in> set (trace @ [e]). settled_id e = Some i)}"
    "set (tx_halted (trace_index_of num (trace @ [e]))) = {i. i \<noteq> [] \<and> (\<exists>e \<in> set (trace @ [e]). halted_id e = Some i)}"
    using snoc
    by (auto simp: trace_index_snoc index_trace_entry_def index_decision_def Let_def set_add_id
        split: option.splits dest: decision_entry_ids)
qed (simp_all add: trace_index_of_def)

lemma index_decisions:
  "i \<noteq> [] \<Longrightarrow> nullish (map_of (tx_decisions (trace_index_of num trace)) i) [] =
     filter (\<lambda>p. dp_intentId p = i) (List.map_filter decision_of_entry trace)"
proof (induction trace rule: rev_induct)
  case (snoc e trace)
  then show ?case
    by (auto simp: trace_index_snoc index_trace_entry_def index_decision_def Let_def omap.get_put map_filter_def
        split: option.splits)
qed (simp add: trace_index_of_def map_filter_def)

definition licensed :: "audit_entry list \<Rightarrow> str \<Rightarrow> bool" where
  "licensed trace i \<longleftrightarrow>
     (\<exists>e \<in> set trace. \<exists>p. decision_of_entry e = Some p \<and> dp_intentId p = i \<and> dp_outcome p \<noteq> Block)"

lemma settled_violations_blocking: "v \<in> set (settled_violations ix i) \<Longrightarrow> blocking v"
  by (auto simp: settled_violations_def Let_def split: if_splits)

lemma filter_none: "(\<And>x. x \<in> set xs \<Longrightarrow> \<not> P x) \<Longrightarrow> filter P xs = []"
  by (simp add: filter_empty_conv)

lemma check_ok_iff:
  "pc_ok (checkTrajectory num trace) \<longleftrightarrow>
     (\<forall>i. i \<noteq> [] \<and> (\<exists>e \<in> set trace. settled_id e = Some i) \<longrightarrow>
        licensed trace i \<and> \<not> (\<exists>e \<in> set trace. halted_id e = Some i))"
proof -
  let ?ix = "trace_index_of num trace"
  have none: "settled_violations ?ix i = [] \<longleftrightarrow> licensed trace i \<and> i \<notin> set (tx_halted ?ix)" if "i \<noteq> []" for i
  proof -
    have "licensed trace i \<longleftrightarrow>
        (\<exists>p \<in> set (filter (\<lambda>p. dp_intentId p = i) (List.map_filter decision_of_entry trace)). dp_outcome p \<noteq> Block)"
      by (force simp: licensed_def map_filter_def)
    then show ?thesis
      unfolding settled_violations_def Let_def index_decisions [OF that] by (auto simp: list_all_iff filter_empty_conv)
  qed
  have settled: "filter blocking (concat (map (settled_violations ?ix) is)) = concat (map (settled_violations ?ix) is)" for "is"
    by (auto simp: filter_id_conv settled_violations_blocking)
  have "pc_ok (checkTrajectory num trace) \<longleftrightarrow> concat (map (settled_violations ?ix) (tx_settled ?ix)) = []"
    unfolding checkTrajectory_def Let_def process_result.select_convs filter_append settled
    by (auto simp: map_filter_def filter_empty_conv split: if_splits)
  also have "\<dots> \<longleftrightarrow> (\<forall>i \<in> set (tx_settled ?ix). settled_violations ?ix i = [])" by auto
  also have "\<dots> \<longleftrightarrow> (\<forall>i. i \<noteq> [] \<and> (\<exists>e \<in> set trace. settled_id e = Some i) \<longrightarrow>
        licensed trace i \<and> \<not> (\<exists>e \<in> set trace. halted_id e = Some i))"
    using none by (auto simp: index_ids)
  finally show ?thesis .
qed

section \<open>The traces of the kernel\<close>

text \<open>Growth of the log by entries that settle nothing, or only the given intent.\<close>

definition grows :: "str set \<Rightarrow> 'r exec_state \<Rightarrow> 'r exec_state \<Rightarrow> bool" where
  "grows ids st st' \<longleftrightarrow>
     (\<exists>es. xs_log st' = xs_log st @ es \<and> (\<forall>e \<in> set es. \<forall>i. settled_id e = Some i \<longrightarrow> i \<in> ids))"

lemma grows_refl [simp]: "xs_log st' = xs_log st \<Longrightarrow> grows ids st st'"
  by (simp add: grows_def)

lemma grows_trans: "grows ids st st1 \<Longrightarrow> grows ids st1 st2 \<Longrightarrow> grows ids st st2"
  by (fastforce simp: grows_def)

lemma grows_mono: "grows ids st st' \<Longrightarrow> ids \<subseteq> ids' \<Longrightarrow> grows ids' st st'"
  by (fastforce simp: grows_def)

lemma grows_record: "t \<noteq> PaymentSettled \<Longrightarrow> xs_log st0 = xs_log st \<Longrightarrow> grows ids st (record_event deps t pl ts st0)"
  by (auto simp: grows_def record_event_log log_record_def make_entry_def Let_def settled_id_def)

lemma grows_record_settled:
  "xs_log st0 = xs_log st \<Longrightarrow> grows {i} st (record_event deps PaymentSettled (PaymentSettledP i rid a c rl) ts st0)"
  by (auto simp: grows_def record_event_log log_record_def make_entry_def Let_def settled_id_def)

lemma grows_settle:
  assumes "settle deps intent now st = (out, st')"
  shows "grows {i_id intent} st st'"
  using assms
proof (cases rule: settle_cases)
  case (provider p answer w)
  show ?thesis
  proof (cases answer)
    case (Inl e)
    with provider(4) show ?thesis by (auto simp: settle_record_def intro!: grows_record)
  next
    case (Inr r0)
    let ?rc = "r0\<lparr>r_providerId := Some (pv_id p)\<rparr>"
    let ?st2 = "record_event deps PaymentSettled
                      (PaymentSettledP (i_id intent) (r_id ?rc) (i_amount intent) (i_currency intent) (i_rail intent))
                      (r_settledAt ?rc) (st\<lparr>xs_world := w, xs_store := insertReceipt ?rc (xs_store st)\<rparr>)"
    have one: "grows {i_id intent} st ?st2" by (rule grows_record_settled) simp
    have two: "grows {i_id intent} ?st2 (record_event deps PaymentVerified pl ts ?st2)"
      "grows {i_id intent} ?st2 (record_event deps PaymentFailed pl ts ?st2)" for pl ts
      by (rule grows_record; simp)+
    from provider(4) Inr have "\<exists>pl ts. st' = record_event deps PaymentVerified pl ts ?st2 \<or> st' = record_event deps PaymentFailed pl ts ?st2"
      by (auto simp: settle_record_def Let_def split: sum.splits)
    with grows_trans [OF one two(1)] grows_trans [OF one two(2)] show ?thesis by blast
  qed
qed simp

lemma file_intent_log: "file_intent si after res st = (r, st') \<Longrightarrow> (\<And>x. xs_log (after x) = xs_log x) \<Longrightarrow> xs_log st' = xs_log st"
  by (auto elim!: file_intent_cases)

lemma change_intent_log:
  "change_intent i u after res st = (r, st') \<Longrightarrow> (\<And>x. xs_log (after x) = xs_log x) \<Longrightarrow> xs_log st' = xs_log st"
  by (auto elim!: change_intent_cases)

lemma recordOutcome_log [simp]: "xs_log (recordOutcome b st) = xs_log st"
  by (simp add: recordOutcome_def)

text \<open>A run that reaches the rail has put a decision on record that did not block.\<close>

lemma execute_decide_grows:
  assumes "execute_decide deps now intent att st = (pr, st')"
  shows "grows {} st st'" "pr = ToRail d \<Longrightarrow> licensed (xs_log st') (i_id intent)"
proof -
  have log: "\<exists>e. xs_log (record_decision deps pl now st) = xs_log st @ [e] \<and> ae_type e = GateDecisionEvent \<and>
      (\<exists>p. ae_payload e = GateDecisionP p \<and> dp_intentId p = dp_intentId pl \<and> dp_outcome p = dp_outcome pl)" for pl
    by (auto simp: record_decision_def record_event_log log_record_def make_entry_def Let_def)
  have dec: "grows {} st (record_decision deps pl now st)" for pl
    unfolding record_decision_def by (rule grows_record) simp_all
  have halt: "grows {} st (record_event deps PaymentHalted pl now st)" for pl by (rule grows_record) simp_all
  show "grows {} st st'"
    using assms
  proof (cases rule: execute_decide_cases)
    case (halted h res)
    from file_intent_log [OF halted(3)] halt show ?thesis by (metis grows_trans grows_refl)
  next
    case (blocked gated inputs d res)
    from file_intent_log [OF blocked(7)] dec show ?thesis by (metis grows_trans grows_refl recordOutcome_log)
  next
    case (parked gated inputs d res)
    from file_intent_log [OF parked(7)] dec show ?thesis by (metis grows_trans grows_refl)
  qed (simp_all add: dec)
  show "licensed (xs_log st') (i_id intent)" if "pr = ToRail d"
    using assms
  proof (cases rule: execute_decide_cases)
    case (rail d' inputs)
    from log [of "agent_payload deps intent d' inputs"] rail show ?thesis
      by (auto simp: licensed_def decision_of_entry_def agent_payload_def)
  qed (use that in simp_all)
qed

lemma licensed_grows: "licensed (xs_log st) i \<Longrightarrow> grows ids st st' \<Longrightarrow> licensed (xs_log st') i"
  by (force simp: licensed_def grows_def)

lemma approve_decide_grows:
  assumes "approve_decide deps now i why ack st = (pr, st')"
  shows "grows {} st st'" "pr = ToRail d \<Longrightarrow> licensed (xs_log st') i"
proof -
  have log: "\<exists>e. xs_log (record_decision deps pl now st) = xs_log st @ [e] \<and> ae_type e = GateDecisionEvent \<and>
      (\<exists>p. ae_payload e = GateDecisionP p \<and> dp_intentId p = dp_intentId pl \<and> dp_outcome p = dp_outcome pl)" for pl
    by (auto simp: record_decision_def record_event_log log_record_def make_entry_def Let_def)
  have dec: "grows {} st (record_decision deps pl now st)" for pl
    unfolding record_decision_def by (rule grows_record) simp_all
  have halt: "grows {} st (record_event deps PaymentHalted pl now st)" for pl by (rule grows_record) simp_all
  show "grows {} st st'"
    using assms
  proof (cases rule: approve_decide_cases)
    case (blocked si d res)
    from change_intent_log [OF blocked(7)] dec show ?thesis by (metis grows_trans grows_refl recordOutcome_log)
  qed (simp_all add: dec halt)
  show "licensed (xs_log st') i" if "pr = ToRail d"
    using assms
  proof (cases rule: approve_decide_cases)
    case (rail si d')
    from log [of "approval_payload i d' why ack"] rail show ?thesis
      by (auto simp: licensed_def decision_of_entry_def approval_payload_def)
  qed (use that in simp_all)
qed

lemma execute_trace:
  assumes "execute deps now intent att st = (res, st')"
  shows "grows {} st st' \<or> grows {i_id intent} st st' \<and> licensed (xs_log st') (i_id intent)"
  using assms
proof (cases rule: execute_cases)
  case stopped
  with execute_decide_grows(1) show ?thesis by blast
next
  case (settled d st1 out st2)
  have last: "grows {i_id intent} st2 st'"
    using settled(3) by (cases out) (auto simp: execute_record_def split: prod.splits intro!: grows_refl dest!: file_intent_log)
  have mid: "grows {i_id intent} st1 st2" by (rule grows_settle [OF settled(2)])
  have "grows {i_id intent} st st1" by (rule grows_mono [OF execute_decide_grows(1) [OF settled(1)]]) simp
  then have "grows {i_id intent} st st'" by (rule grows_trans [OF grows_trans [OF _ mid] last])
  moreover have "licensed (xs_log st') (i_id intent)"
    using licensed_grows [OF execute_decide_grows(2) [OF settled(1) refl] grows_trans [OF mid last]] .
  ultimately show ?thesis by blast
qed

lemma approve_trace:
  assumes "approve deps now i why ack st = (res, st')" "store_wf (xs_store st)"
  shows "grows {} st st' \<or> grows {i} st st' \<and> licensed (xs_log st') i"
  using assms(1)
proof (cases rule: approve_cases)
  case stopped
  with approve_decide_grows(1) show ?thesis by blast
next
  case (settled si d st1 out st2)
  have i: "i_id (si_intent si) = i" using keyed_map_of [OF _ settled(1) [unfolded getIntent_def]] assms(2)
    by (fastforce simp: store_wf_def)
  have last: "grows {i} st2 st'"
    using settled(4) by (cases out) (auto simp: approve_record_def split: prod.splits intro!: grows_refl dest!: change_intent_log)
  have mid: "grows {i} st1 st2" using grows_settle [OF settled(3)] by (simp add: i)
  have "grows {i} st st1" by (rule grows_mono [OF approve_decide_grows(1) [OF settled(2)]]) simp
  then have "grows {i} st st'" by (rule grows_trans [OF grows_trans [OF _ mid] last])
  moreover have "licensed (xs_log st') i"
    using licensed_grows [OF approve_decide_grows(2) [OF settled(2) refl] grows_trans [OF mid last]] .
  ultimately show ?thesis by blast
qed

lemma refund_trace:
  assumes "refund deps now i amt why st = (res, st')"
  shows "grows {} st st'"
  using assms
proof (cases rule: refund_cases)
  case (rail si rc p do_refund amount answer w)
  show ?thesis
  proof (cases answer)
    case (Inl e)
    with rail(11) show ?thesis by (auto simp: grows_def)
  next
    case (Inr ref)
    with rail(11) show ?thesis by (auto elim!: change_intent_cases intro!: grows_record)
  qed
qed simp_all

definition all_licensed :: "'r exec_state \<Rightarrow> bool" where
  "all_licensed st \<longleftrightarrow> (\<forall>e \<in> set (xs_log st). \<forall>i. settled_id e = Some i \<longrightarrow> licensed (xs_log st) i)"

lemma all_licensed_grows:
  assumes "all_licensed st" "grows ids st st'" "\<And>i. i \<in> ids \<Longrightarrow> licensed (xs_log st') i"
  shows "all_licensed st'"
  unfolding all_licensed_def
proof (intro ballI allI impI)
  fix e i
  assume e: "e \<in> set (xs_log st')" "settled_id e = Some i"
  from assms(2) obtain es where es: "xs_log st' = xs_log st @ es" "\<forall>e \<in> set es. \<forall>i. settled_id e = Some i \<longrightarrow> i \<in> ids"
    by (auto simp: grows_def)
  show "licensed (xs_log st') i"
  proof (cases "e \<in> set (xs_log st)")
    case True
    with assms(1) e(2) have "licensed (xs_log st) i" by (auto simp: all_licensed_def)
    then show ?thesis using assms(2) by (rule licensed_grows)
  next
    case False
    with e es assms(3) show ?thesis by auto
  qed
qed

lemma sdk_step_licensed:
  assumes "all_licensed st" "store_wf (xs_store st)"
  shows "all_licensed (sdk_step deps op st)"
proof -
  have quiet: "all_licensed st'" if "grows {} st st'" for st' using all_licensed_grows [OF assms(1) that] by simp
  have one: "all_licensed st'" if "grows {} st st' \<or> grows {i} st st' \<and> licensed (xs_log st') i" for st' i
    using that all_licensed_grows [OF assms(1), of "{i}" st'] quiet by auto
  show ?thesis
  proof (cases op)
    case (OpPay uuid created now input)
    obtain res st' where "execute deps now (pay_intent uuid created input) (pay_attestation input) st = (res, st')" by fastforce
    with one [OF execute_trace [OF this]] OpPay show ?thesis by (simp add: pay_def)
  next
    case (OpApprove now i why ack)
    obtain res st' where "approve deps now i why (ack = Some True) st = (res, st')" by fastforce
    with one [OF approve_trace [OF this assms(2)]] OpApprove show ?thesis by (simp add: sdk_approve_def)
  next
    case (OpRefund now i amt why)
    obtain res st' where "refund deps now i amt why st = (res, st')" by fastforce
    with quiet [OF refund_trace [OF this]] OpRefund show ?thesis by simp
  qed (auto simp: grantMandate_def sdk_revokeMandate_def amendMandate_def extendMandate_def checkIntegrity_def
        engageKillSwitch_def disengageKillSwitch_def resetCircuitBreaker_def Let_def assms(1)
        split: sum.split intro!: quiet grows_record)
qed

lemma sdk_run_licensed: "all_licensed st \<Longrightarrow> store_wf (xs_store st) \<Longrightarrow> all_licensed (sdk_run deps ops st)"
  unfolding sdk_run_def
proof (induction ops arbitrary: st)
  case (Cons op ops)
  from Cons.IH [OF sdk_step_licensed [OF Cons.prems] sdk_wf.inv_step [OF Cons.prems(2)]] show ?case by simp
qed simp

section \<open>Properties\<close>

text \<open>
  Property C29: what the process check can find in a trace of the kernel. From the construction of the facade
  over a fresh store, after any operations, no settlement lacks a decision and none was blocked by
  all its decisions: the check passes if and only if no settled intent was ever halted. (So it also
  reports an intent that was halted once and approved after the operator resumed.)
\<close>

theorem kernel_traces_pass_check:
  assumes "new_agent_worth c jcs randomKey options world = Inr aw" "so_store options = None"
  shows "let log = xs_log (sdk_run (aw_deps aw) ops (aw_state aw))
    in pc_ok (checkTrajectory num log) =
      (\<nexists>i e e'. i \<noteq> [] \<and> e \<in> set log \<and> e' \<in> set log \<and> settled_id e = Some i \<and> halted_id e' = Some i)"
proof -
  from assms have init: "xs_log (aw_state aw) = []" "store_wf (xs_store (aw_state aw))"
    by (auto simp: new_agent_worth_def Let_def bindE_Inr_iff createMemoryStore_def
        store_wf_init [unfolded createMemoryStore_def])
  then have "all_licensed (sdk_run (aw_deps aw) ops (aw_state aw))"
    by (intro sdk_run_licensed) (simp_all add: all_licensed_def)
  then show ?thesis
    unfolding Let_def check_ok_iff by (auto simp: all_licensed_def)
qed

theorem kernel_traces_pass_check_witness:
  "\<exists>aw. new_agent_worth example_crypto (\<lambda>_. []) (js ''r'') example_options 0 = Inr aw \<and>
     length (xs_log (sdk_run (aw_deps aw) [OpRevoke example_now (js ''m_1''), OpKill] (aw_state aw))) = 1 \<and>
     pc_ok (checkTrajectory (\<lambda>_. []) (xs_log (sdk_run (aw_deps aw) [OpRevoke example_now (js ''m_1''), OpKill] (aw_state aw))))"
proof -
  obtain aw where aw: "new_agent_worth example_crypto (\<lambda>_. []) (js ''r'') example_options 0 = Inr aw"
    using example_construct by blast
  have fresh: "so_store example_options = None" by (simp add: example_options_def)
  with aw have "xs_log (aw_state aw) = []"
    by (auto simp: new_agent_worth_def Let_def bindE_Inr_iff createMemoryStore_def)
  then obtain e where e: "xs_log (sdk_run (aw_deps aw) [OpRevoke example_now (js ''m_1''), OpKill] (aw_state aw)) = [e]"
    "ae_type e = MandateRevoked"
    by (simp add: sdk_run_def sdk_revokeMandate_def engageKillSwitch_def record_event_log log_record_def make_entry_def Let_def)
  from kernel_traces_pass_check [OF aw fresh, where num = "\<lambda>_. []"
      and ops = "[OpRevoke example_now (js ''m_1''), OpKill]"] e aw
  show ?thesis by (auto simp: Let_def settled_id_def)
qed

end
