(* ===== verification/JS_Regex.thy ===== *)
theory JS_Regex
  imports JS_Prelude
begin

text \<open>
  The regular expressions of the source, without capture groups and back references: literals,
  character classes, alternatives, sequences, options, bounded and unbounded repetition of a class,
  word boundaries and the two anchors. \<open>re_ends\<close> lists the positions at which a match that starts at a
  position may end, and \<open>re_test\<close> is the method \<open>test\<close>: some position of the text starts a match. A
  position is the text before it, reversed, and the text after it. Under the flag \<open>i\<close> two code units are
  the same when they are the same ASCII letter in either case.
\<close>

datatype regex =
    Lit str
  | Cls "nat \<Rightarrow> bool"
  | Rep nat "nat option" "nat \<Rightarrow> bool"
  | Opt regex
  | Alt regex regex
  | Seq regex regex
  | Boundary
  | AtStart
  | AtEnd

definition fold_case :: "bool \<Rightarrow> nat \<Rightarrow> nat" where
  "fold_case ignoring c = (if ignoring \<and> 65 \<le> c \<and> c \<le> 90 then c + 32 else c)"

definition word_char :: "nat \<Rightarrow> bool" where
  "word_char c \<longleftrightarrow> (48 \<le> c \<and> c \<le> 57) \<or> (65 \<le> c \<and> c \<le> 90) \<or> c = 95 \<or> (97 \<le> c \<and> c \<le> 122)"

definition word_next :: "str \<Rightarrow> bool" where
  "word_next s \<longleftrightarrow> (case s of c # _ \<Rightarrow> word_char c | [] \<Rightarrow> False)"

text \<open>How many characters of a class may be taken: at least the least count, at most the greatest.\<close>

definition rep_lengths :: "nat \<Rightarrow> nat option \<Rightarrow> (nat \<Rightarrow> bool) \<Rightarrow> str \<Rightarrow> nat list" where
  "rep_lengths least greatest f s =
     filter (\<lambda>n. case greatest of Some g \<Rightarrow> n \<le> g | None \<Rightarrow> True) [least..<Suc (length (takeWhile f s))]"

definition advance :: "nat \<Rightarrow> str \<times> str \<Rightarrow> str \<times> str" where
  "advance n p = (rev (take n (snd p)) @ fst p, drop n (snd p))"

fun re_ends :: "bool \<Rightarrow> regex \<Rightarrow> str \<times> str \<Rightarrow> (str \<times> str) list" where
  "re_ends ic (Lit s) p =
     (if map (fold_case ic) (take (length s) (snd p)) = map (fold_case ic) s then [advance (length s) p] else [])"
| "re_ends ic (Cls f) p = (case snd p of c # _ \<Rightarrow> if f c then [advance 1 p] else [] | [] \<Rightarrow> [])"
| "re_ends ic (Rep m n f) p = map (\<lambda>k. advance k p) (rep_lengths m n f (snd p))"
| "re_ends ic (Opt e) p = re_ends ic e p @ [p]"
| "re_ends ic (Alt e f) p = re_ends ic e p @ re_ends ic f p"
| "re_ends ic (Seq e f) p = concat (map (re_ends ic f) (re_ends ic e p))"
| "re_ends ic Boundary p = (if word_next (fst p) \<noteq> word_next (snd p) then [p] else [])"
| "re_ends ic AtStart p = (if fst p = [] then [p] else [])"
| "re_ends ic AtEnd p = (if snd p = [] then [p] else [])"

definition re_test :: "bool \<Rightarrow> regex \<Rightarrow> str \<Rightarrow> bool" where
  "re_test ic e s = list_ex (\<lambda>i. re_ends ic e (rev (take i s), drop i s) \<noteq> []) [0..<Suc (length s)]"

text \<open>Sequences and alternatives of several parts.\<close>

fun seqs :: "regex list \<Rightarrow> regex" where
  "seqs [] = Lit []"
| "seqs [e] = e"
| "seqs (e # es) = Seq e (seqs es)"

fun alts :: "str list \<Rightarrow> regex" where
  "alts [] = Cls (\<lambda>_. False)"
| "alts [s] = Lit s"
| "alts (s # ss) = Alt (Lit s) (alts ss)"

section \<open>What a match is\<close>

lemma re_test_iff: "re_test ic e s \<longleftrightarrow> (\<exists>a b. s = a @ b \<and> re_ends ic e (rev a, b) \<noteq> [])"
proof
  assume "re_test ic e s"
  then obtain i where "re_ends ic e (rev (take i s), drop i s) \<noteq> []" unfolding re_test_def list_ex_iff by blast
  then show "\<exists>a b. s = a @ b \<and> re_ends ic e (rev a, b) \<noteq> []"
    by (intro exI [of _ "take i s"] exI [of _ "drop i s"]) simp
next
  assume "\<exists>a b. s = a @ b \<and> re_ends ic e (rev a, b) \<noteq> []"
  then obtain a b where s: "s = a @ b" "re_ends ic e (rev a, b) \<noteq> []" by blast
  then show "re_test ic e s"
    unfolding re_test_def list_ex_iff by (intro bexI [of _ "length a"]) auto
qed

text \<open>A literal is found exactly when the text contains it.\<close>

lemma re_test_Lit:
  "re_test ic (Lit w) s \<longleftrightarrow> (\<exists>a m b. s = a @ m @ b \<and> map (fold_case ic) m = map (fold_case ic) w)"
proof
  assume "re_test ic (Lit w) s"
  then obtain a b where "s = a @ b" "map (fold_case ic) (take (length w) b) = map (fold_case ic) w"
    by (auto simp: re_test_iff split: if_splits)
  then show "\<exists>a m b. s = a @ m @ b \<and> map (fold_case ic) m = map (fold_case ic) w"
    by (intro exI [of _ a] exI [of _ "take (length w) b"] exI [of _ "drop (length w) b"]) simp
next
  assume "\<exists>a m b. s = a @ m @ b \<and> map (fold_case ic) m = map (fold_case ic) w"
  then obtain a m b where "s = a @ m @ b" "map (fold_case ic) m = map (fold_case ic) w" by blast
  moreover from this(2) have "length m = length w" by (rule map_eq_imp_length_eq)
  ultimately show "re_test ic (Lit w) s"
    unfolding re_test_iff by (intro exI [of _ a] exI [of _ "m @ b"]) simp
qed

lemma re_test_Alt: "re_test ic (Alt e f) s \<longleftrightarrow> re_test ic e s \<or> re_test ic f s"
  unfolding re_test_iff by (auto simp: ex_disj_distrib conj_disj_distribL)

end
