(* ===== verification/Replay_Sim.thy ===== *)
theory Replay_Sim
  imports Trajectory Deny_List Executor_Ledger
begin

text \<open>
  Counterfactual replay (obs/replaySim.ts): the recorded agent decisions run again through the gate under
  a candidate policy, with the recorded external inputs held fixed and the period spend rebuilt from what
  the candidate would have executed. The property: the candidate's budgets bind the replay as they bind
  the kernel.
\<close>

record replay_candidate =
  rc_mandates :: "mandate list"
  rc_config :: "gate_config option"
  rc_denyRules :: "deny_rule list option"

record replay_record =
  rr_intentId :: str
  rr_original :: gate_outcome
  rr_replayed :: gate_outcome
  rr_changed :: bool

record replay_report =
  rp_total :: nat
  rp_unchanged :: nat
  rp_changed :: nat
  rp_records :: "replay_record list"

text \<open>A recorded agent decision: what was decided, on which intent, on which inputs.\<close>

definition agent_decision :: "audit_entry \<Rightarrow> (decision_payload \<times> payment_intent) option" where
  "agent_decision e =
     (case decision_of_entry e of
        Some p \<Rightarrow> if dp_phase p = PhaseAgent then map_option (\<lambda>i. (p, i)) (dp_intent p) else None
      | None \<Rightarrow> None)"

definition recorded_trust :: "decision_payload \<Rightarrow> trust_level" where
  "recorded_trust p = nullish (case dp_inputs p of Some r \<Rightarrow> ri_trust r | None \<Rightarrow> None) TrustNew"

text \<open>The period spend of a mandate of the candidate, from what the replay let through so far.\<close>

definition replay_spend ::
  "mandate list \<Rightarrow> (str, prior_spend list) omap \<Rightarrow> str \<Rightarrow> str \<Rightarrow> js_error + prior_spend list" where
  "replay_spend ms settled now i =
     (case List.find (\<lambda>m. m_id m = i) ms of
        None \<Rightarrow> Inr []
      | Some m \<Rightarrow>
          bindE (periodStart now (m_period m)) (\<lambda>start.
            Inr (filter (\<lambda>s. ps_at s \<ge> start) (nullish (map_of settled i) []))))"

definition counterfactual_context ::
  "replay_candidate \<Rightarrow> (str, prior_spend list) omap \<Rightarrow> decision_payload \<Rightarrow> payment_intent \<Rightarrow> gate_context" where
  "counterfactual_context candidate settled p intent =
     \<lparr>c_now = i_createdAt intent,
      c_mandates = rc_mandates candidate,
      c_periodSpend = replay_spend (rc_mandates candidate) settled (i_createdAt intent),
      c_knownPayees = (if recorded_trust p = TrustNew then [] else [i_payee intent]),
      c_trustOf = Some (\<lambda>_. recorded_trust p),
      c_convert = None,
      c_attestation = (case dp_inputs p of Some r \<Rightarrow> ri_attestation r | None \<Rightarrow> None),
      c_reputationOf =
        (case (case dp_inputs p of Some r \<Rightarrow> ri_reputation r | None \<Rightarrow> None) of
           Some level \<Rightarrow> Some (\<lambda>_. Some level) | None \<Rightarrow> None),
      c_denyRules = nullish (rc_denyRules candidate) DEFAULT_DENY_RULES,
      c_config = nullish (rc_config candidate) DEFAULT_GATE_CONFIG,
      c_reversibility = (case dp_inputs p of Some r \<Rightarrow> ri_reversibility r | None \<Rightarrow> None)\<rparr>"

definition count_settled ::
  "gate_decision \<Rightarrow> payment_intent \<Rightarrow> (str, prior_spend list) omap \<Rightarrow> (str, prior_spend list) omap" where
  "count_settled d intent settled =
     (case gd_mandateId d of
        Some i \<Rightarrow>
          if gd_outcome d = AutoExecute \<and> i \<noteq> []
          then AList.update i (nullish (map_of settled i) [] @
                 [\<lparr>ps_amount = i_amount intent, ps_at = i_createdAt intent\<rparr>]) settled
          else settled
      | None \<Rightarrow> settled)"

fun replay_decisions ::
  "replay_candidate \<Rightarrow> (decision_payload \<times> payment_intent) list \<Rightarrow> (str, prior_spend list) omap \<Rightarrow>
     js_error + ((str, prior_spend list) omap \<times> replay_record list)" where
  "replay_decisions candidate [] settled = Inr (settled, [])"
| "replay_decisions candidate ((p, intent) # ds) settled =
     bindE (evaluateGate intent (counterfactual_context candidate settled p intent)) (\<lambda>d.
       bindE (replay_decisions candidate ds (count_settled d intent settled)) (\<lambda>(settled', rs).
         Inr (settled', \<lparr>rr_intentId = i_id intent, rr_original = dp_outcome p, rr_replayed = gd_outcome d,
                         rr_changed = (dp_outcome p \<noteq> gd_outcome d)\<rparr> # rs)))"

definition replayAudit :: "audit_entry list \<Rightarrow> replay_candidate \<Rightarrow> js_error + replay_report" where
  "replayAudit entries candidate =
     bindE (replay_decisions candidate (List.map_filter agent_decision entries) []) (\<lambda>(_, records).
       let changed = length (filter rr_changed records)
       in Inr \<lparr>rp_total = length records, rp_unchanged = length records - changed, rp_changed = changed,
               rp_records = records\<rparr>)"

section \<open>The budgets of the candidate\<close>

definition replayed_since :: "(str, prior_spend list) omap \<Rightarrow> str \<Rightarrow> str \<Rightarrow> jsnum" where
  "replayed_since settled i start = total_spent (filter (\<lambda>s. ps_at s \<ge> start) (nullish (map_of settled i) []))"

definition replay_within :: "mandate list \<Rightarrow> (str, prior_spend list) omap \<Rightarrow> str \<Rightarrow> bool" where
  "replay_within ms settled now \<longleftrightarrow>
     (\<forall>m \<in> set ms. \<forall>start. periodStart now (m_period m) = Inr start \<longrightarrow>
        replayed_since settled (m_id m) start \<le> m_perPeriodCap m)"

definition replay_nonneg :: "(str, prior_spend list) omap \<Rightarrow> bool" where
  "replay_nonneg settled \<longleftrightarrow> (\<forall>i. \<forall>s \<in> set (nullish (map_of settled i) []). 0 \<le> ps_amount s)"

lemma replayed_since_antimono:
  assumes "replay_nonneg settled" "a \<le> b"
  shows "replayed_since settled i b \<le> replayed_since settled i a"
proof -
  let ?xs = "nullish (map_of settled i) []"
  have "total_spent (filter (\<lambda>s. ps_at s \<ge> b) xs) \<le> total_spent (filter (\<lambda>s. ps_at s \<ge> a) xs)"
    if "\<forall>s \<in> set xs. 0 \<le> ps_amount s" for xs
    using that assms(2) by (induction xs) (auto simp: total_spent_def)
  with assms(1) show ?thesis by (simp add: replayed_since_def replay_nonneg_def)
qed

lemma replay_within_later:
  assumes "replay_within ms settled (iso_text t)" "replay_nonneg settled"
    and "iso_range t" "iso_range u" "100 \<le> utc_full_year t" "t \<le> u"
  shows "replay_within ms settled (iso_text u)"
  unfolding replay_within_def
proof (intro ballI allI impI)
  fix m b assume m: "m \<in> set ms" and "periodStart (iso_text u) (m_period m) = Inr b"
  from periodStart_iso_mono [OF assms(3-6) this(2)] obtain a where
    a: "periodStart (iso_text t) (m_period m) = Inr a" "a \<le> b" by blast
  with replayed_since_antimono [OF assms(2) a(2), of "m_id m"] assms(1) m
  show "replayed_since settled (m_id m) b \<le> m_perPeriodCap m" unfolding replay_within_def by fastforce
qed

lemma find_by_id:
  assumes "distinct (map m_id ms)" "m \<in> set ms"
  shows "List.find (\<lambda>m'. m_id m' = m_id m) ms = Some m"
  using assms by (induction ms) auto

lemma replay_step:
  assumes "distinct (map m_id (rc_mandates candidate))"
    and "evaluateGate intent (counterfactual_context candidate settled p intent) = Inr d"
    and "replay_within (rc_mandates candidate) settled (i_createdAt intent)" "replay_nonneg settled"
  shows "replay_within (rc_mandates candidate) (count_settled d intent settled) (i_createdAt intent)"
    "replay_nonneg (count_settled d intent settled)"
proof -
  let ?s = "count_settled d intent settled" and ?ms = "rc_mandates candidate"
  have "replay_within ?ms ?s (i_createdAt intent) \<and> replay_nonneg ?s"
  proof (cases "?s = settled")
    case False
    then obtain i where i: "gd_mandateId d = Some i" "gd_outcome d = AutoExecute"
      and s: "?s = AList.update i (nullish (map_of settled i) [] @
          [\<lparr>ps_amount = i_amount intent, ps_at = i_createdAt intent\<rparr>]) settled"
      by (auto simp: count_settled_def split: option.splits if_splits)
    from gate_auto_sound [OF assms(2) i(2)] i(1) obtain m sp ws where
      m: "m \<in> set ?ms" "i = m_id m" "replay_spend ?ms settled (i_createdAt intent) (m_id m) = Inr sp"
        "may_auto intent (counterfactual_context candidate settled p intent) m sp ws"
      by (auto simp: counterfactual_context_def)
    have conv: "c_convert (counterfactual_context candidate settled p intent) = None" by (simp add: counterfactual_context_def)
    have may: "0 < i_amount intent" "covers m intent None"
      "total_spent sp + amount_in_mandate intent None m \<le> m_perPeriodCap m"
      using m(4) unfolding may_auto_def conv by blast+
    note may(3) [unfolded amount_same_currency [OF may(2)]]
    moreover from m(3) find_by_id [OF assms(1) m(1)] have "total_spent sp = replayed_since settled (m_id m) start"
      if "periodStart (i_createdAt intent) (m_period m) = Inr start" for start
      using that by (simp add: replay_spend_def replayed_since_def)
    ultimately have fits: "replayed_since settled (m_id m) start + i_amount intent \<le> m_perPeriodCap m"
      if "periodStart (i_createdAt intent) (m_period m) = Inr start" for start using that by simp
    have since: "replayed_since ?s k start \<le>
        (if k = m_id m then replayed_since settled k start + i_amount intent else replayed_since settled k start)" for k start
      using may(1) by (simp add: s m(2) replayed_since_def update_conv total_spent_def)
    have "replayed_since ?s (m_id m') start \<le> m_perPeriodCap m'"
      if m': "m' \<in> set ?ms" "periodStart (i_createdAt intent) (m_period m') = Inr start" for m' start
    proof (cases "m_id m' = m_id m")
      case True
      with assms(1) m(1) m'(1) have "m' = m" by (simp add: distinct_map inj_on_def)
      with since [of "m_id m" start] fits [of start] m'(2) show ?thesis by simp
    next
      case False
      with since [of "m_id m'" start] assms(3) m' show ?thesis by (force simp: replay_within_def)
    qed
    moreover have "replay_nonneg ?s"
      using assms(4) may(1) by (auto simp: replay_nonneg_def s update_conv)
    ultimately show ?thesis by (auto simp: replay_within_def)
  qed (use assms in simp)
  then show "replay_within ?ms ?s (i_createdAt intent)" "replay_nonneg ?s" by blast+
qed

text \<open>Clock readings at which the replay cannot throw.\<close>

definition replay_instant :: "replay_candidate \<Rightarrow> int \<Rightarrow> bool" where
  "replay_instant candidate t \<longleftrightarrow>
     iso_range t \<and> 100 \<le> utc_full_year t \<and>
     iso_range (t - velocityWindowMinutes (nullish (rc_config candidate) DEFAULT_GATE_CONFIG) * 60000)"

lemma replay_gate_total:
  assumes "replay_instant candidate t" "i_createdAt intent = iso_text t"
  shows "\<exists>d. evaluateGate intent (counterfactual_context candidate settled p intent) = Inr d"
proof (rule evaluateGate_total)
  show "c_now (counterfactual_context candidate settled p intent) = iso_text t" by (simp add: counterfactual_context_def assms(2))
  show "iso_range t" using assms(1) by (simp add: replay_instant_def)
  show "iso_range (t - velocityWindowMinutes (c_config (counterfactual_context candidate settled p intent)) * 60000)"
    using assms(1) by (simp add: replay_instant_def counterfactual_context_def)
  have "\<exists>sp. replay_spend (rc_mandates candidate) settled (iso_text t) i = Inr sp" for i
    using assms(1) by (auto simp: replay_spend_def replay_instant_def periodStart_iso split: option.split)
  then show "\<forall>m \<in> set (c_mandates (counterfactual_context candidate settled p intent)).
      \<exists>sp. c_periodSpend (counterfactual_context candidate settled p intent) (m_id m) = Inr sp"
    by (simp add: counterfactual_context_def assms(2))
qed

lemma replay_run:
  assumes "distinct (map m_id (rc_mandates candidate))"
    and "map (i_createdAt \<circ> snd) ds = map iso_text ts" "sorted (t # ts)" "\<forall>u \<in> set (t # ts). replay_instant candidate u"
    and "replay_within (rc_mandates candidate) settled (iso_text t)" "replay_nonneg settled"
  shows "\<exists>settled' rs. replay_decisions candidate ds settled = Inr (settled', rs) \<and>
    map rr_intentId rs = map (i_id \<circ> snd) ds \<and>
    replay_within (rc_mandates candidate) settled' (iso_text (last (t # ts)))"
  using assms(2-6)
proof (induction ds arbitrary: ts t settled)
  case (Cons x ds)
  obtain p intent where x: "x = (p, intent)" by (cases x)
  from Cons.prems(1) obtain u us where ts: "ts = u # us" "i_createdAt intent = iso_text u"
      "map (i_createdAt \<circ> snd) ds = map iso_text us"
    by (cases ts) (auto simp: x comp_def)
  have u: "replay_instant candidate u" "replay_instant candidate t" "t \<le> u"
    using Cons.prems(2,3) ts(1) by simp_all
  from replay_gate_total [OF u(1) ts(2)] obtain d where
    d: "evaluateGate intent (counterfactual_context candidate settled p intent) = Inr d" by blast
  have now: "replay_within (rc_mandates candidate) settled (i_createdAt intent)"
    unfolding ts(2) using replay_within_later [OF Cons.prems(4,5)] u by (simp add: replay_instant_def)
  note step = replay_step [OF assms(1) d now Cons.prems(5)]
  from Cons.IH [OF ts(3) _ _ step(1) [unfolded ts(2)] step(2)] Cons.prems(2,3) ts(1) obtain settled' rs where
    "replay_decisions candidate ds (count_settled d intent settled) = Inr (settled', rs)"
    "map rr_intentId rs = map (i_id \<circ> snd) ds"
    "replay_within (rc_mandates candidate) settled' (iso_text (last (u # us)))" by auto
  then show ?case by (simp add: x d ts(1))
qed simp

text \<open>
  Fact: a replay stays within the candidate's budgets. For mandates with distinct ids and no negative
  budget, over recorded decisions whose intents carry clock readings that do not run backwards, the
  replay answers with one record per agent decision, and what it let through against each mandate of
  the candidate in its last period is within the cap of that mandate.
\<close>

theorem replay_within_candidate:
  assumes "distinct (map m_id (rc_mandates candidate))" "\<forall>m \<in> set (rc_mandates candidate). 0 \<le> m_perPeriodCap m"
    and "map (i_createdAt \<circ> snd) (List.map_filter agent_decision entries) = map iso_text (t # ts)"
    and "sorted (t # ts)" "\<forall>u \<in> set (t # ts). replay_instant candidate u"
  shows "\<exists>settled rs. replay_decisions candidate (List.map_filter agent_decision entries) [] = Inr (settled, rs) \<and>
    replay_within (rc_mandates candidate) settled (iso_text (last (t # ts))) \<and>
    (\<exists>rep. replayAudit entries candidate = Inr rep \<and> rp_records rep = rs \<and> rp_total rep = length (t # ts) \<and>
       rp_unchanged rep + rp_changed rep = rp_total rep \<and>
       map rr_intentId rs = map (i_id \<circ> snd) (List.map_filter agent_decision entries))"
proof -
  have start: "replay_within (rc_mandates candidate) [] (iso_text t)" "replay_nonneg []"
    using assms(2) by (simp_all add: replay_within_def replay_nonneg_def replayed_since_def total_spent_def)
  from replay_run [OF assms(1,3) _ _ start] assms(4,5) obtain settled rs where
    run: "replay_decisions candidate (List.map_filter agent_decision entries) [] = Inr (settled, rs)"
      "map rr_intentId rs = map (i_id \<circ> snd) (List.map_filter agent_decision entries)"
      "replay_within (rc_mandates candidate) settled (iso_text (last (t # ts)))" by auto
  have "length rs = length (t # ts)" using run(2) assms(3) by (metis length_map)
  moreover have "length (filter rr_changed rs) \<le> length rs" by simp
  ultimately show ?thesis using run by (simp add: replayAudit_def Let_def)
qed

definition replay_example :: "payment_intent \<Rightarrow> audit_entry" where
  "replay_example intent =
     \<lparr>ae_seq = 0, ae_ts = example_now, ae_type = GateDecisionEvent,
      ae_payload = GateDecisionP
        \<lparr>dp_intentId = i_id intent, dp_phase = PhaseAgent, dp_outcome = AutoExecute, dp_reasons = [WithinMandate],
         dp_mandateId = Some (js ''m_1''), dp_riskTier = Some TierNone, dp_verdict = None, dp_ctxDigest = None,
         dp_intent = Some intent,
         dp_inputs = Some \<lparr>ri_reversibility = None, ri_attestation = None, ri_reputation = None,
           ri_trust = Some TrustTrusted, ri_knownPayees = [js ''acme''], ri_periodSpend = [], ri_fxRates = None\<rparr>,
         dp_operatorRationale = None, dp_acknowledged = None, dp_policyHash = None\<rparr>,
      ae_prevHash = [], ae_hash = [], ae_sig = [], ae_keyVersion = None\<rparr>"

text \<open>Two payments of the example replayed under a mandate with half the budget.\<close>

theorem replay_within_candidate_witness:
  "\<exists>settled rs. replay_decisions \<lparr>rc_mandates = [gate_example_mandate\<lparr>m_perPeriodCap := 3000\<rparr>], rc_config = None, rc_denyRules = None\<rparr>
      (List.map_filter agent_decision [replay_example gate_example_intent, replay_example gate_example_intent]) [] =
      Inr (settled, rs) \<and>
    length rs = 2 \<and> replay_within [gate_example_mandate\<lparr>m_perPeriodCap := 3000\<rparr>] settled (iso_text 1700000000000)"
proof -
  let ?c = "\<lparr>rc_mandates = [gate_example_mandate\<lparr>m_perPeriodCap := 3000\<rparr>], rc_config = None, rc_denyRules = None\<rparr>"
  let ?entries = "[replay_example gate_example_intent, replay_example gate_example_intent]"
  have ds: "map (i_createdAt \<circ> snd) (List.map_filter agent_decision ?entries) = map iso_text [1700000000000, 1700000000000]"
    by (simp add: List.map_filter_def agent_decision_def decision_of_entry_def replay_example_def gate_example_intent_def)
  have "100 \<le> utc_full_year 1700000000000" by code_simp
  then have "replay_instant ?c 1700000000000"
    by (simp add: replay_instant_def iso_range_def DEFAULT_GATE_CONFIG_def)
  then have "\<forall>u \<in> set [1700000000000, 1700000000000]. replay_instant ?c u" by simp
  moreover have "distinct (map m_id (rc_mandates ?c))" "\<forall>m \<in> set (rc_mandates ?c). 0 \<le> m_perPeriodCap m"
    "sorted [1700000000000, 1700000000000 :: int]" by simp_all
  ultimately obtain settled rs where
    run: "replay_decisions ?c (List.map_filter agent_decision ?entries) [] = Inr (settled, rs)"
      "replay_within (rc_mandates ?c) settled (iso_text (last [1700000000000, 1700000000000]))"
      "map rr_intentId rs = map (i_id \<circ> snd) (List.map_filter agent_decision ?entries)"
    using replay_within_candidate [of ?c ?entries 1700000000000 "[1700000000000]", OF _ _ ds] by blast
  have "length rs = length (List.map_filter agent_decision ?entries)" using run(3) by (metis length_map)
  also have "\<dots> = 2" using ds by (metis One_nat_def Suc_1 length_Cons length_map list.size(3))
  finally show ?thesis using run(1,2) by auto
qed

end
