(* ===== verification/Abi_Bytes.thy ===== *)
theory Abi_Bytes
  imports JS_Number Canonical_Json "HOL-Library.Word"
begin

text \<open>
  Bytes, hexadecimal text and the packed terms of the caveat enforcers (erc7710/index.ts). A \<open>Uint8Array\<close>
  is a list of 8-bit words, a \<open>bigint\<close> an integer, a \<open>number\<close> a rational. Every encoder of the source is
  a definition here, with its range checks as errors, and every decoder; the lemmas give the width of
  each encoded field, so that a decoder reads back what the encoder wrote by splitting at the widths.
\<close>

unbundle bit_operations_syntax

type_synonym bytes = "8 word list"

section \<open>Hexadecimal text\<close>

text \<open>
  \<open>Number.parseInt(s, 16)\<close>: leading white space, a sign and the prefix 0x are skipped, and the longest run
  of hexadecimal digits is read; None is NaN.
\<close>

definition hex_value :: "str \<Rightarrow> nat" where
  "hex_value ds = foldl (\<lambda>v c. 16 * v + nullish (radix_digit c) 0) 0 ds"

definition parse_int16 :: "str \<Rightarrow> int option" where
  "parse_int16 s =
     (let s1 = dropWhile is_space s;
          negative = (s1 \<noteq> [] \<and> hd s1 = 45);
          s2 = (if s1 \<noteq> [] \<and> (hd s1 = 45 \<or> hd s1 = 43) then tl s1 else s1);
          s3 = (if starts_with s2 (js ''0x'') \<or> starts_with s2 (js ''0X'') then drop 2 s2 else s2);
          ds = takeWhile (\<lambda>c. radix_digit c \<noteq> None) s3
      in if ds = [] then None else Some (if negative then - int (hex_value ds) else int (hex_value ds)))"

text \<open>The bytes of an even number of digits; a stored value is taken modulo 256, as in a \<open>Uint8Array\<close>.\<close>

fun pair_bytes :: "str \<Rightarrow> bytes option" where
  "pair_bytes (a # b # s) =
     (case parse_int16 [a, b] of
        None \<Rightarrow> None
      | Some v \<Rightarrow> map_option ((#) (word_of_int v)) (pair_bytes s))"
| "pair_bytes _ = Some []"

definition hexToBytes :: "str \<Rightarrow> js_error + bytes" where
  "hexToBytes hex =
     (let h = (if starts_with hex (js ''0x'') then drop 2 hex else hex);
          h' = (if odd (length h) then 48 # h else h)
      in (case pair_bytes h' of Some bs \<Rightarrow> Inr bs | None \<Rightarrow> Inl (Thrown (js ''invalid hex: '' @ hex))))"

definition byte_hex :: "8 word \<Rightarrow> str" where
  "byte_hex b = [hex_digit (unat b div 16), hex_digit (unat b mod 16)]"

definition bytesToHex :: "bytes \<Rightarrow> str" where
  "bytesToHex bs = js ''0x'' @ concat (map byte_hex bs)"

text \<open>\<open>v.toString(16)\<close> of a non-negative integer.\<close>

fun show_hex :: "nat \<Rightarrow> str" where
  "show_hex n = (if n < 16 then [hex_digit n] else show_hex (n div 16) @ [hex_digit (n mod 16)])"

declare show_hex.simps [simp del]

section \<open>Words of the ABI\<close>

definition left_pad32 :: "bytes \<Rightarrow> js_error + bytes" where
  "left_pad32 bs =
     (if length bs > 32 then Inl (Thrown (js ''abiWord: value exceeds 32 bytes''))
      else Inr (replicate (32 - length bs) 0 @ bs))"

definition abiWord_int :: "int \<Rightarrow> js_error + bytes" where
  "abiWord_int v =
     (if v < 0 then Inl (Thrown (js ''abiWord: negative values not supported''))
      else
        let h = show_hex (nat v); h' = (if odd (length h) then 48 # h else h)
        in bindE (if v = 0 then Inr [] else hexToBytes h') left_pad32)"

definition abiWord_hex :: "str \<Rightarrow> js_error + bytes" where
  "abiWord_hex hex = bindE (hexToBytes hex) left_pad32"

definition bigintToBytes32 :: "int \<Rightarrow> js_error + bytes" where
  "bigintToBytes32 v = abiWord_int v"

definition normalizeAddress :: "str \<Rightarrow> js_error + str" where
  "normalizeAddress addr =
     bindE (hexToBytes addr) (\<lambda>bs.
       if length bs \<noteq> 20 then Inl (Thrown (js ''invalid address (expected 20 bytes): '' @ addr))
       else Inr (bytesToHex bs))"

definition bytesToBigint :: "bytes \<Rightarrow> int" where
  "bytesToBigint bs = foldl (\<lambda>v b. push_bit 8 v OR uint b) 0 bs"

section \<open>The terms of the enforcers\<close>

definition require :: "bool \<Rightarrow> string \<Rightarrow> js_error + unit" where
  "require ok what = (if ok then Inr () else Inl (Thrown (js what)))"

text \<open>\<open>concatBytes\<close> of parts each of which may throw.\<close>

definition concatBytes :: "(js_error + bytes) list \<Rightarrow> js_error + bytes" where
  "concatBytes parts = bindE (mapE id parts) (\<lambda>bs. Inr (concat bs))"

definition encodeTimestampTerms :: "jsnum \<Rightarrow> jsnum \<Rightarrow> js_error + bytes" where
  "encodeTimestampTerms beforeUnix afterUnix =
     bindE (require (is_integer beforeUnix \<and> 0 \<le> beforeUnix)
        ''encodeTimestampTerms: beforeUnix must be a non-negative integer'') (\<lambda>_.
     bindE (require (is_integer afterUnix \<and> 0 \<le> afterUnix)
        ''encodeTimestampTerms: afterUnix must be a non-negative integer'') (\<lambda>_.
     concatBytes [bindE (abiWord_int \<lfloor>afterUnix\<rfloor>) (\<lambda>w. Inr (drop 16 w)),
                  bindE (abiWord_int \<lfloor>beforeUnix\<rfloor>) (\<lambda>w. Inr (drop 16 w))]))"

definition encodeNativeAmountTerms :: "int \<Rightarrow> js_error + bytes" where
  "encodeNativeAmountTerms allowance =
     bindE (require (0 \<le> allowance) ''encodeNativeAmountTerms: allowance must be >= 0'') (\<lambda>_.
       bigintToBytes32 allowance)"

definition encodeErc20AmountTerms :: "str \<Rightarrow> int \<Rightarrow> js_error + bytes" where
  "encodeErc20AmountTerms token allowance =
     bindE (require (0 \<le> allowance) ''encodeErc20AmountTerms: allowance must be >= 0'') (\<lambda>_.
       concatBytes [bindE (normalizeAddress token) abiWord_hex, bigintToBytes32 allowance])"

definition encodePeriodTerms :: "str \<Rightarrow> int \<Rightarrow> jsnum \<Rightarrow> jsnum \<Rightarrow> js_error + bytes" where
  "encodePeriodTerms token periodAmount periodDuration startDate =
     bindE (require (0 \<le> periodAmount) ''encodePeriodTerms: periodAmount must be >= 0'') (\<lambda>_.
     bindE (require (is_integer periodDuration \<and> 0 < periodDuration)
        ''encodePeriodTerms: periodDuration must be a positive integer'') (\<lambda>_.
     bindE (require (is_integer startDate \<and> 0 \<le> startDate)
        ''encodePeriodTerms: startDate must be a non-negative integer'') (\<lambda>_.
     concatBytes [bindE (normalizeAddress token) hexToBytes, bigintToBytes32 periodAmount,
                  bigintToBytes32 \<lfloor>periodDuration\<rfloor>, bigintToBytes32 \<lfloor>startDate\<rfloor>])))"

definition encodeNativePeriodTerms :: "int \<Rightarrow> jsnum \<Rightarrow> jsnum \<Rightarrow> js_error + bytes" where
  "encodeNativePeriodTerms periodAmount periodDuration startDate =
     bindE (require (0 \<le> periodAmount) ''encodeNativePeriodTerms: periodAmount must be >= 0'') (\<lambda>_.
     bindE (require (is_integer periodDuration \<and> 0 < periodDuration)
        ''encodeNativePeriodTerms: periodDuration must be a positive integer'') (\<lambda>_.
     bindE (require (is_integer startDate \<and> 0 \<le> startDate)
        ''encodeNativePeriodTerms: startDate must be a non-negative integer'') (\<lambda>_.
     concatBytes [bigintToBytes32 periodAmount, bigintToBytes32 \<lfloor>periodDuration\<rfloor>,
                  bigintToBytes32 \<lfloor>startDate\<rfloor>])))"

definition encodeAllowedTargetsTerms :: "str list \<Rightarrow> js_error + bytes" where
  "encodeAllowedTargetsTerms addresses =
     bindE (require (addresses \<noteq> []) ''encodeAllowedTargetsTerms: at least one target required'') (\<lambda>_.
       concatBytes (map (\<lambda>a. bindE (normalizeAddress a) hexToBytes) addresses))"

text \<open>\<open>b.slice(i, j)\<close>.\<close>

definition slice_bytes :: "nat \<Rightarrow> nat \<Rightarrow> bytes \<Rightarrow> bytes" where
  "slice_bytes i j b = take (j - i) (drop i b)"

definition decodeTimestampTerms :: "str \<Rightarrow> js_error + (jsnum \<times> jsnum)" where
  "decodeTimestampTerms terms =
     bindE (hexToBytes terms) (\<lambda>b.
     bindE (require (length b = 32) ''decodeTimestampTerms: expected 32 bytes'') (\<lambda>_.
     Inr (of_int (bytesToBigint (slice_bytes 0 16 b)), of_int (bytesToBigint (slice_bytes 16 32 b)))))"

definition decodeNativeAmountTerms :: "str \<Rightarrow> js_error + int" where
  "decodeNativeAmountTerms terms =
     bindE (hexToBytes terms) (\<lambda>b.
     bindE (require (length b = 32) ''decodeNativeAmountTerms: expected 32 bytes'') (\<lambda>_.
     Inr (bytesToBigint b)))"

definition decodeErc20AmountTerms :: "str \<Rightarrow> js_error + (str \<times> int)" where
  "decodeErc20AmountTerms terms =
     bindE (hexToBytes terms) (\<lambda>b.
     bindE (require (length b = 64) ''decodeErc20AmountTerms: expected 64 bytes'') (\<lambda>_.
     Inr (bytesToHex (slice_bytes 12 32 b), bytesToBigint (slice_bytes 32 64 b))))"

record period_terms =
  pt_periodAmount :: int
  pt_periodDuration :: jsnum
  pt_startDate :: jsnum

definition decodePeriodTerms :: "str \<Rightarrow> js_error + (str \<times> period_terms)" where
  "decodePeriodTerms terms =
     bindE (hexToBytes terms) (\<lambda>b.
     bindE (require (length b = 116) ''decodePeriodTerms: expected 116 bytes'') (\<lambda>_.
     Inr (bytesToHex (slice_bytes 0 20 b),
          \<lparr>pt_periodAmount = bytesToBigint (slice_bytes 20 52 b),
           pt_periodDuration = of_int (bytesToBigint (slice_bytes 52 84 b)),
           pt_startDate = of_int (bytesToBigint (slice_bytes 84 116 b))\<rparr>)))"

definition decodeNativePeriodTerms :: "str \<Rightarrow> js_error + period_terms" where
  "decodeNativePeriodTerms terms =
     bindE (hexToBytes terms) (\<lambda>b.
     bindE (require (length b = 96) ''decodeNativePeriodTerms: expected 96 bytes'') (\<lambda>_.
     Inr \<lparr>pt_periodAmount = bytesToBigint (slice_bytes 0 32 b),
          pt_periodDuration = of_int (bytesToBigint (slice_bytes 32 64 b)),
          pt_startDate = of_int (bytesToBigint (slice_bytes 64 96 b))\<rparr>))"

fun chunks20 :: "bytes \<Rightarrow> bytes list" where
  "chunks20 b = (if b = [] then [] else take 20 b # chunks20 (drop 20 b))"

declare chunks20.simps [simp del]

definition decodeAllowedTargetsTerms :: "str \<Rightarrow> js_error + str list" where
  "decodeAllowedTargetsTerms terms =
     bindE (hexToBytes terms) (\<lambda>b.
     bindE (require (b \<noteq> [] \<and> length b mod 20 = 0)
        ''decodeAllowedTargetsTerms: length must be a non-zero multiple of 20'') (\<lambda>_.
     Inr (map bytesToHex (chunks20 b))))"

section \<open>Bytes and their text\<close>

lemma radix_hex_digit [simp]: "d < 16 \<Longrightarrow> radix_digit (hex_digit d) = Some d"
  by (auto simp: radix_digit_def hex_digit_def)

lemma hex_digit_range:
  assumes "d < 16"
  shows "\<not> is_space (hex_digit d)" "hex_digit d \<noteq> 45" "hex_digit d \<noteq> 43" "hex_digit d \<noteq> 120" "hex_digit d \<noteq> 88"
  using assms by (auto simp: hex_digit_def is_space_def)

lemma parse_hex_pair:
  assumes "a < 16" "b < 16"
  shows "parse_int16 [hex_digit a, hex_digit b] = Some (int (16 * a + b))"
  using assms hex_digit_range [OF assms(1)] hex_digit_range [OF assms(2)]
  by (simp add: parse_int16_def starts_with_def js_def hex_value_def Let_def)

lemma unat_byte: "unat (b :: 8 word) < 256"
  using unsigned_less [of b] by simp

lemma pair_bytes_hex [simp]: "pair_bytes (concat (map byte_hex bs)) = Some bs"
proof (induction bs)
  case (Cons b bs)
  have "unat b < 256" by (rule unat_byte)
  then have "unat b div 16 < 16" by simp
  with Cons show ?case by (simp add: byte_hex_def parse_hex_pair)
qed simp

lemma length_hex_bytes [simp]: "length (concat (map byte_hex bs)) = 2 * length bs"
  by (induction bs) (simp_all add: byte_hex_def)

lemma hexToBytes_bytesToHex [simp]: "hexToBytes (bytesToHex bs) = Inr bs"
  by (simp add: hexToBytes_def bytesToHex_def Let_def)

lemma bytesToHex_inject [simp]: "bytesToHex a = bytesToHex b \<longleftrightarrow> a = b"
  by (metis Inr_inject hexToBytes_bytesToHex)

lemma bytesToHex_not_Nil [simp]: "bytesToHex bs \<noteq> []"
  by (simp add: bytesToHex_def)

section \<open>Numbers as bytes\<close>

definition big_endian :: "bytes \<Rightarrow> nat" where
  "big_endian bs = foldl (\<lambda>v b. 256 * v + unat b) 0 bs"

lemma push_bit_or_byte: "push_bit 8 v OR uint (b :: 8 word) = 256 * v + uint b"
proof -
  have "push_bit 8 v OR uint b = push_bit 8 v + uint b"
    by (rule disjunctive_add [symmetric]) (auto simp: bit_simps dest: bit_imp_le_length)
  then show ?thesis by (simp add: push_bit_eq_mult)
qed

lemma bytesToBigint_eq: "bytesToBigint bs = int (big_endian bs)"
proof -
  have "foldl (\<lambda>v b. push_bit 8 v OR uint b) (int n) bs = int (foldl (\<lambda>v b. 256 * v + unat b) n bs)" for n
  proof (induction bs arbitrary: n)
    case (Cons b bs)
    show ?case using Cons [of "256 * n + unat b"] by (simp add: push_bit_or_byte)
  qed simp
  from this [of 0] show ?thesis by (simp add: bytesToBigint_def big_endian_def)
qed

lemma big_endian_zeros: "big_endian (replicate k 0 @ bs) = big_endian bs"
proof -
  have "foldl (\<lambda>v b. 256 * v + unat b) 0 (replicate k (0 :: 8 word)) = 0" by (induction k) simp_all
  then show ?thesis by (simp add: big_endian_def)
qed

lemma bytes_of_digits:
  assumes "even (length h)" "\<forall>c \<in> set h. \<exists>d < 16. c = hex_digit d"
  shows "\<exists>bs. pair_bytes h = Some bs \<and> 2 * length bs = length h \<and>
    (\<forall>n. foldl (\<lambda>v b. 256 * v + unat b) n bs = foldl (\<lambda>v c. 16 * v + nullish (radix_digit c) 0) n h)"
  using assms
proof (induction h rule: pair_bytes.induct)
  case (1 a b s)
  from 1(3) obtain da db where d: "da < 16" "a = hex_digit da" "db < 16" "b = hex_digit db" by auto
  from 1(2,3) 1(1) [OF parse_hex_pair [OF d(1,3), folded d(2,4)]] obtain bs where
    bs: "pair_bytes s = Some bs" "2 * length bs = length s"
      "\<forall>n. foldl (\<lambda>v b. 256 * v + unat b) n bs = foldl (\<lambda>v c. 16 * v + nullish (radix_digit c) 0) n s"
    by (auto simp: parse_hex_pair)
  have "(16 * da + db) mod 256 = 16 * da + db" using d(1,3) by simp
  moreover have "word_of_int (16 * int da + int db) = (of_nat (16 * da + db) :: 8 word)" by simp
  ultimately have "unat (word_of_int (16 * int da + int db) :: 8 word) = 16 * da + db"
    by (simp only: unsigned_of_nat take_bit_eq_mod) simp
  with bs d show ?case by (simp add: parse_hex_pair algebra_simps)
qed auto

lemma show_hex_digits: "\<forall>c \<in> set (show_hex n). \<exists>d < 16. c = hex_digit d"
proof (induction n rule: show_hex.induct)
  case (1 n)
  show ?case
  proof (cases "n < 16")
    case False
    moreover have "\<exists>d < 16. hex_digit (n mod 16) = hex_digit d" by (intro exI [of _ "n mod 16"]) simp
    ultimately show ?thesis using 1 by (subst show_hex.simps) auto
  qed (subst show_hex.simps, auto)
qed

lemma show_hex_value: "foldl (\<lambda>v c. 16 * v + nullish (radix_digit c) 0) 0 (show_hex n) = n"
proof (induction n rule: show_hex.induct)
  case (1 n)
  then show ?case by (cases "n < 16") (subst show_hex.simps, simp)+
qed

lemma length_show_hex: "n < 16 ^ k \<Longrightarrow> 0 < k \<Longrightarrow> length (show_hex n) \<le> k"
proof (induction n arbitrary: k rule: show_hex.induct)
  case (1 n)
  show ?case
  proof (cases "n < 16")
    case True
    with 1(3) show ?thesis by (subst show_hex.simps) simp
  next
    case False
    with 1(2) obtain j where j: "k = Suc j" "0 < j"
      by (cases k; cases "k - 1") auto
    with 1(2) have "n div 16 < 16 ^ j" by (simp add: less_mult_imp_div_less mult.commute)
    from 1(1) [OF False this j(2)] j(1) False show ?thesis by (subst show_hex.simps) simp
  qed
qed

text \<open>A number below \<open>256 ^ k\<close> is written in at most \<open>k\<close> bytes, padded on the left.\<close>

lemma abiWord_int_bytes:
  assumes "0 \<le> v" "v < 256 ^ k" "0 < k" "k \<le> 32"
  shows "\<exists>bs. abiWord_int v = Inr (replicate (32 - length bs) 0 @ bs) \<and> length bs \<le> k \<and> big_endian bs = nat v"
proof (cases "v = 0")
  case True
  then show ?thesis by (intro exI [of _ "[]"]) (simp add: abiWord_int_def left_pad32_def big_endian_def)
next
  case False
  let ?h = "show_hex (nat v)"
  let ?h' = "if odd (length ?h) then 48 # ?h else ?h"
  have zero: "\<exists>d < 16. 48 = hex_digit d" by (intro exI [of _ 0]) (simp add: hex_digit_def)
  have digits: "\<forall>c \<in> set ?h'. \<exists>d < 16. c = hex_digit d"
    using show_hex_digits [of "nat v"] zero by auto
  have even: "even (length ?h')" by simp
  from bytes_of_digits [OF even digits] obtain bs where
    bs: "pair_bytes ?h' = Some bs" "2 * length bs = length ?h'"
      "foldl (\<lambda>v b. 256 * v + unat b) 0 bs = foldl (\<lambda>v c. 16 * v + nullish (radix_digit c) 0) 0 ?h'" by blast
  have num_value: "big_endian bs = nat v"
    using bs(3) show_hex_value [of "nat v"] by (simp add: big_endian_def radix_digit_def split: if_splits)
  have "nat v < 256 ^ k" using assms(1,2) by (simp add: nat_less_iff)
  also have "(256 :: nat) ^ k = 16 ^ (2 * k)" by (simp add: power_mult)
  finally have "length ?h \<le> 2 * k" using assms(3) by (intro length_show_hex) simp_all
  moreover have "2 * length bs = length ?h + (if odd (length ?h) then 1 else 0)" using bs(2) by simp
  ultimately have len: "length bs \<le> k" by presburger
  have "\<not> starts_with ?h' (js ''0x'')"
  proof
    assume "starts_with ?h' (js ''0x'')"
    then have "120 \<in> set ?h'" by (auto simp: starts_with_iff js_def)
    with digits hex_digit_range(4) show False by fastforce
  qed
  then have "hexToBytes ?h' = Inr bs" using bs(1) by (auto simp: hexToBytes_def Let_def)
  with False assms(1,4) len have "abiWord_int v = Inr (replicate (32 - length bs) 0 @ bs)"
    by (simp add: abiWord_int_def Let_def left_pad32_def)
  with len num_value show ?thesis by blast
qed

section \<open>Fields of a fixed width\<close>

text \<open>
  What the decoders rely on: a field writes every admissible value in its width and reads it back.
  Inside a longer text it is read at its offset.
\<close>

locale field =
  fixes width :: nat and enc :: "'a \<Rightarrow> js_error + bytes" and dec :: "bytes \<Rightarrow> 'a" and ok :: "'a \<Rightarrow> bool"
  assumes enc_dec: "ok x \<Longrightarrow> \<exists>w. enc x = Inr w \<and> length w = width \<and> dec w = x"
begin

lemma read_at:
  assumes "ok x" "enc x = Inr w" "length pre = i" "j = i + width"
  shows "dec (slice_bytes i j (pre @ w @ post)) = x"
  using enc_dec [OF assms(1)] assms(2-4) by (auto simp: slice_bytes_def)

lemma enc_width: "ok x \<Longrightarrow> enc x = Inr w \<Longrightarrow> length w = width"
  using enc_dec by fastforce

end

definition uint128 :: "int \<Rightarrow> js_error + bytes" where
  "uint128 v = bindE (abiWord_int v) (\<lambda>w. Inr (drop 16 w))"

definition canonical_address :: "str \<Rightarrow> bool" where
  "canonical_address a \<longleftrightarrow> (\<exists>bs. length bs = 20 \<and> a = bytesToHex bs)"

lemma normalize_canonical: "normalizeAddress a = Inr a' \<Longrightarrow> canonical_address a'"
  by (auto simp: normalizeAddress_def canonical_address_def bindE_Inr_iff split: if_splits)

lemma canonical_normalize [simp]: "canonical_address a \<Longrightarrow> normalizeAddress a = Inr a"
  by (auto simp: normalizeAddress_def canonical_address_def)

interpretation uint256_field: field 32 abiWord_int bytesToBigint "\<lambda>v. 0 \<le> v \<and> v < 2 ^ 256"
proof
  fix v :: int assume v: "0 \<le> v \<and> v < 2 ^ 256"
  then have "v < 256 ^ 32" by simp
  with abiWord_int_bytes [of v 32] v obtain bs where
    "abiWord_int v = Inr (replicate (32 - length bs) 0 @ bs)" "length bs \<le> 32" "big_endian bs = nat v" by auto
  with v show "\<exists>w. abiWord_int v = Inr w \<and> length w = 32 \<and> bytesToBigint w = v"
    by (simp add: bytesToBigint_eq big_endian_zeros)
qed

interpretation uint128_field: field 16 uint128 bytesToBigint "\<lambda>v. 0 \<le> v \<and> v < 2 ^ 128"
proof
  fix v :: int assume v: "0 \<le> v \<and> v < 2 ^ 128"
  then have "v < 256 ^ 16" by simp
  with abiWord_int_bytes [of v 16] v obtain bs where
    "abiWord_int v = Inr (replicate (32 - length bs) 0 @ bs)" "length bs \<le> 16" "big_endian bs = nat v" by auto
  with v show "\<exists>w. uint128 v = Inr w \<and> length w = 16 \<and> bytesToBigint w = v"
    by (simp add: uint128_def bytesToBigint_eq big_endian_zeros)
qed

interpretation address_field: field 20 hexToBytes bytesToHex canonical_address
  by unfold_locales (auto simp: canonical_address_def)

interpretation address_word_field: field 32 abiWord_hex "\<lambda>w. bytesToHex (drop 12 w)" canonical_address
  by unfold_locales (auto simp: canonical_address_def abiWord_hex_def left_pad32_def)

section \<open>The decoders read back what the encoders write\<close>

lemma concatBytes_parts:
  "concatBytes parts = Inr bs \<longleftrightarrow> (\<exists>ws. list_all2 (\<lambda>p w. p = Inr w) parts ws \<and> bs = concat ws)"
  by (auto simp: concatBytes_def bindE_Inr_iff mapE_Inr_iff)

lemma concatBytes_Nil [simp]: "concatBytes [] = Inr []"
  by (simp add: concatBytes_def)

lemma concatBytes_Cons [simp]: "concatBytes (Inr w # parts) = bindE (concatBytes parts) (\<lambda>bs. Inr (w @ bs))"
  by (cases "mapE id parts") (simp_all add: concatBytes_def)

lemma require_simps [simp]: "ok \<Longrightarrow> require ok what = Inr ()" "\<not> ok \<Longrightarrow> require ok what = Inl (Thrown (js what))"
  by (simp_all add: require_def)

lemma timestamp_terms:
  assumes "0 \<le> before" "before < 2 ^ 128" "0 \<le> after" "after < 2 ^ 128"
  shows "\<exists>bs. encodeTimestampTerms (of_int before) (of_int after) = Inr bs \<and> length bs = 32 \<and>
    decodeTimestampTerms (bytesToHex bs) = Inr (of_int after, of_int before)"
proof -
  from uint128_field.enc_dec [of before] uint128_field.enc_dec [of after] assms obtain w v where
    w: "uint128 before = Inr w" "length w = 16" "bytesToBigint w = before"
    and v: "uint128 after = Inr v" "length v = 16" "bytesToBigint v = after" by blast
  have "encodeTimestampTerms (of_int before) (of_int after) = Inr (v @ w)"
    using assms w(1) v(1) by (simp add: encodeTimestampTerms_def flip: uint128_def)
  with w v show ?thesis by (simp add: decodeTimestampTerms_def slice_bytes_def)
qed

lemma native_amount_terms:
  assumes "0 \<le> a" "a < 2 ^ 256"
  shows "\<exists>bs. encodeNativeAmountTerms a = Inr bs \<and> decodeNativeAmountTerms (bytesToHex bs) = Inr a"
  using uint256_field.enc_dec [of a] assms
  by (auto simp: encodeNativeAmountTerms_def decodeNativeAmountTerms_def bigintToBytes32_def)

lemma erc20_amount_terms:
  assumes "0 \<le> a" "a < 2 ^ 256" "normalizeAddress token = Inr t"
  shows "\<exists>bs. encodeErc20AmountTerms token a = Inr bs \<and> decodeErc20AmountTerms (bytesToHex bs) = Inr (t, a)"
proof -
  from uint256_field.enc_dec [of a] assms obtain w where
    w: "abiWord_int a = Inr w" "length w = 32" "bytesToBigint w = a" by blast
  from address_word_field.enc_dec [OF normalize_canonical [OF assms(3)]] obtain v where
    v: "abiWord_hex t = Inr v" "length v = 32" "bytesToHex (drop 12 v) = t" by blast
  have "encodeErc20AmountTerms token a = Inr (v @ w)"
    using assms w(1) v(1) by (simp add: encodeErc20AmountTerms_def bigintToBytes32_def)
  with w v show ?thesis by (simp add: decodeErc20AmountTerms_def slice_bytes_def)
qed

text \<open>The three numbers that end both kinds of period terms.\<close>

lemma period_numbers:
  assumes "0 \<le> a" "a < 2 ^ 256" "0 \<le> d" "d < 2 ^ 256" "0 \<le> s" "s < 2 ^ 256"
  obtains u v w where "abiWord_int a = Inr u" "abiWord_int d = Inr v" "abiWord_int s = Inr w"
    "length u = 32" "length v = 32" "length w = 32" "bytesToBigint u = a" "bytesToBigint v = d" "bytesToBigint w = s"
  using uint256_field.enc_dec [of a] uint256_field.enc_dec [of d] uint256_field.enc_dec [of s] assms by blast

lemma native_period_terms:
  assumes "0 \<le> a" "a < 2 ^ 256" "0 < d" "d < 2 ^ 256" "0 \<le> s" "s < 2 ^ 256"
  shows "\<exists>bs. encodeNativePeriodTerms a (of_int d) (of_int s) = Inr bs \<and>
    decodeNativePeriodTerms (bytesToHex bs) =
      Inr \<lparr>pt_periodAmount = a, pt_periodDuration = of_int d, pt_startDate = of_int s\<rparr>"
proof -
  from period_numbers [of a d s] assms obtain u v w where
    f: "abiWord_int a = Inr u" "abiWord_int d = Inr v" "abiWord_int s = Inr w"
      "length u = 32" "length v = 32" "length w = 32" "bytesToBigint u = a" "bytesToBigint v = d" "bytesToBigint w = s"
    by (metis order_less_imp_le)
  have "encodeNativePeriodTerms a (of_int d) (of_int s) = Inr (u @ v @ w)"
    using assms f(1-3) by (simp add: encodeNativePeriodTerms_def bigintToBytes32_def)
  with f(4-9) show ?thesis by (simp add: decodeNativePeriodTerms_def slice_bytes_def)
qed

lemma erc20_period_terms:
  assumes "0 \<le> a" "a < 2 ^ 256" "0 < d" "d < 2 ^ 256" "0 \<le> s" "s < 2 ^ 256" "normalizeAddress token = Inr t"
  shows "\<exists>bs. encodePeriodTerms token a (of_int d) (of_int s) = Inr bs \<and>
    decodePeriodTerms (bytesToHex bs) =
      Inr (t, \<lparr>pt_periodAmount = a, pt_periodDuration = of_int d, pt_startDate = of_int s\<rparr>)"
proof -
  from period_numbers [of a d s] assms obtain u v w where
    f: "abiWord_int a = Inr u" "abiWord_int d = Inr v" "abiWord_int s = Inr w"
      "length u = 32" "length v = 32" "length w = 32" "bytesToBigint u = a" "bytesToBigint v = d" "bytesToBigint w = s"
    by (metis order_less_imp_le)
  from address_field.enc_dec [OF normalize_canonical [OF assms(7)]] obtain x where
    x: "hexToBytes t = Inr x" "length x = 20" "bytesToHex x = t" by blast
  have "encodePeriodTerms token a (of_int d) (of_int s) = Inr (x @ u @ v @ w)"
    using assms f(1-3) x(1) by (simp add: encodePeriodTerms_def bigintToBytes32_def)
  with f(4-9) x(2,3) show ?thesis by (simp add: decodePeriodTerms_def slice_bytes_def)
qed

lemma chunks20_concat: "\<forall>b \<in> set bs. length b = 20 \<Longrightarrow> chunks20 (concat bs) = bs"
  by (induction bs) (subst chunks20.simps; force)+

lemma allowed_targets_terms:
  assumes "mapE normalizeAddress targets = Inr ts" "targets \<noteq> []"
  shows "\<exists>bs. encodeAllowedTargetsTerms targets = Inr bs \<and> decodeAllowedTargetsTerms (bytesToHex bs) = Inr ts"
proof -
  have ts: "list_all2 (\<lambda>a t. normalizeAddress a = Inr t) targets ts" using assms(1) by (simp add: mapE_Inr_iff)
  have "\<exists>ws. list_all2 (\<lambda>a w. bindE (normalizeAddress a) hexToBytes = Inr w) targets ws \<and>
      (\<forall>w \<in> set ws. length w = 20) \<and> map bytesToHex ws = ts \<and> length ws = length targets"
    using ts
  proof (induction rule: list_all2_induct)
    case (Cons a as t ts)
    from address_field.enc_dec [OF normalize_canonical [OF Cons(1)]] obtain w where
      "hexToBytes t = Inr w" "length w = 20" "bytesToHex w = t" by blast
    moreover from Cons.IH obtain ws where
      "list_all2 (\<lambda>a w. bindE (normalizeAddress a) hexToBytes = Inr w) as ws"
      "\<forall>w \<in> set ws. length w = 20" "map bytesToHex ws = ts" "length ws = length as" by blast
    ultimately show ?case using Cons(1) by (intro exI [of _ "w # ws"]) simp
  qed simp
  then obtain ws where ws: "list_all2 (\<lambda>a w. bindE (normalizeAddress a) hexToBytes = Inr w) targets ws"
      "\<forall>w \<in> set ws. length w = 20" "map bytesToHex ws = ts" "length ws = length targets" by blast
  have "encodeAllowedTargetsTerms targets = Inr (concat ws)"
    using ws(1) assms(2) unfolding encodeAllowedTargetsTerms_def
    by (simp add: concatBytes_parts list.rel_map) blast
  moreover have "length (concat ws) = 20 * length ws"
    using ws(2) by (induction ws) simp_all
  moreover from this have "concat ws \<noteq> []" using ws(4) assms(2) by (metis length_0_conv mult_eq_0_iff zero_neq_numeral)
  ultimately show ?thesis
    using chunks20_concat [OF ws(2)] ws(3) by (simp add: decodeAllowedTargetsTerms_def)
qed

end
