(* ===== verification/Delegation.thy ===== *)
theory Delegation
  imports Abi_Bytes Gate Deny_List
begin

text \<open>
  ERC-7710 delegations (erc7710/index.ts): a mandate as a delegation with caveats, the redemption of a
  delegation through the gate, and its hash and signature. The key-hash, the curve and the typed-data
  hash are packages outside the repository: arguments of the definitions, absent when the optional
  dependency is not installed.
\<close>

record caveat =
  cv_enforcer :: str
  cv_terms :: str
  cv_args :: str

record delegation =
  dg_delegate :: str
  dg_delegator :: str
  dg_authority :: str
  dg_caveats :: "caveat list"
  dg_salt :: int
  dg_signature :: str

record eip712_domain =
  ed_name :: "str option"
  ed_version :: "str option"
  ed_chainId :: int
  ed_verifyingContract :: str

record enforcer_addresses =
  ea_timestamp :: str
  ea_nativeTokenTransferAmount :: "str option"
  ea_erc20TransferAmount :: "str option"
  ea_erc20PeriodTransfer :: "str option"
  ea_nativeTokenPeriodTransfer :: "str option"
  ea_allowedTargets :: "str option"

definition ROOT_AUTHORITY :: str where
  "ROOT_AUTHORITY = js ''0x'' @ concat (replicate 32 (js ''ff''))"

definition EMPTY_ARGS :: str where
  "EMPTY_ARGS = js ''0x''"

definition DELEGATION_TYPE_STRING :: str where
  "DELEGATION_TYPE_STRING =
     js ''Delegation(address delegate,address delegator,bytes32 authority,Caveat[] caveats,uint256 salt)Caveat(address enforcer,bytes terms)''"

definition CAVEAT_TYPE_STRING :: str where
  "CAVEAT_TYPE_STRING = js ''Caveat(address enforcer,bytes terms)''"

definition EIP712_DOMAIN_TYPE_STRING :: str where
  "EIP712_DOMAIN_TYPE_STRING =
     js ''EIP712Domain(string name,string version,uint256 chainId,address verifyingContract)''"

fun PERIOD_SECONDS :: "period \<Rightarrow> int" where
  "PERIOD_SECONDS Day = 86400"
| "PERIOD_SECONDS Week = 604800"
| "PERIOD_SECONDS Month = 2592000"

section \<open>A mandate as a delegation\<close>

record delegation_opts =
  do_delegate :: str
  do_delegator :: str
  do_enforcers :: enforcer_addresses
  do_token :: "str option"
  do_salt :: "int option"
  do_periodSecondsOverride :: "jsnum option"

text \<open>The FNV-1a hash of an id over 64-bit words.\<close>

definition deterministicSalt :: "str \<Rightarrow> int" where
  "deterministicSalt i =
     uint (foldl (\<lambda>h c. (h XOR of_nat c) * 0x100000001b3) (0xcbf29ce484222325 :: 64 word) i)"

text \<open>\<open>BigInt(x)\<close> of a number.\<close>

definition big_int :: "jsnum \<Rightarrow> js_error + int" where
  "big_int x = (if is_integer x then Inr \<lfloor>x\<rfloor> else Inl RangeError)"

text \<open>An optional string that is absent or empty is falsy.\<close>

definition truthy :: "str option \<Rightarrow> str option" where
  "truthy a = (case a of Some s \<Rightarrow> if s = [] then None else Some s | None \<Rightarrow> None)"

definition configured :: "str option \<Rightarrow> string \<Rightarrow> js_error + str" where
  "configured a missing = (case truthy a of Some s \<Rightarrow> Inr s | None \<Rightarrow> Inl (Thrown (js missing)))"

definition make_caveat :: "str \<Rightarrow> js_error + bytes \<Rightarrow> js_error + caveat" where
  "make_caveat enforcer terms =
     bindE (normalizeAddress enforcer) (\<lambda>a. bindE terms (\<lambda>bs.
       Inr \<lparr>cv_enforcer = a, cv_terms = bytesToHex bs, cv_args = EMPTY_ARGS\<rparr>))"

text \<open>\<open>Math.floor(new Date(s).getTime() / 1000)\<close>, with the check that follows it.\<close>

definition unix_seconds :: "str \<Rightarrow> string \<Rightarrow> js_error + jsnum" where
  "unix_seconds s what =
     (case date_parse s of
        Some t \<Rightarrow> Inr (of_int (t div 1000))
      | None \<Rightarrow> Inl (Thrown (js what @ s)))"

definition timestamp_caveat :: "mandate \<Rightarrow> enforcer_addresses \<Rightarrow> js_error + caveat" where
  "timestamp_caveat m e =
     bindE (unix_seconds (m_expiresAt m) ''mandate expiresAt is not a valid date: '') (\<lambda>before_unix.
       make_caveat (ea_timestamp e) (encodeTimestampTerms before_unix 0))"

definition amount_caveat :: "mandate \<Rightarrow> enforcer_addresses \<Rightarrow> str option \<Rightarrow> js_error + caveat" where
  "amount_caveat m e token =
     (case truthy token of
        Some t \<Rightarrow>
          bindE (configured (ea_erc20TransferAmount e)
              ''mandateToDelegation: token set but erc20TransferAmount enforcer missing'') (\<lambda>a.
            make_caveat a (bindE (big_int (m_perTxCap m)) (encodeErc20AmountTerms t)))
      | None \<Rightarrow>
          bindE (configured (ea_nativeTokenTransferAmount e)
              ''mandateToDelegation: no token and nativeTokenTransferAmount enforcer missing'') (\<lambda>a.
            make_caveat a (bindE (big_int (m_perTxCap m)) encodeNativeAmountTerms)))"

definition period_caveat :: "mandate \<Rightarrow> delegation_opts \<Rightarrow> js_error + caveat" where
  "period_caveat m opts =
     (let e = do_enforcers opts;
          periodDuration = nullish (do_periodSecondsOverride opts) (of_int (PERIOD_SECONDS (m_period m)))
      in bindE (unix_seconds (m_grantedAt m) ''mandate grantedAt is not a valid date: '') (\<lambda>startDate.
         case truthy (do_token opts) of
           Some t \<Rightarrow>
             bindE (configured (ea_erc20PeriodTransfer e)
                 ''mandateToDelegation: token set but erc20PeriodTransfer enforcer missing'') (\<lambda>a.
               make_caveat a (bindE (big_int (m_perPeriodCap m)) (\<lambda>cap. encodePeriodTerms t cap periodDuration startDate)))
         | None \<Rightarrow>
             bindE (configured (ea_nativeTokenPeriodTransfer e)
                 ''mandateToDelegation: no token and nativeTokenPeriodTransfer enforcer missing'') (\<lambda>a.
               make_caveat a (bindE (big_int (m_perPeriodCap m)) (\<lambda>cap. encodeNativePeriodTerms cap periodDuration startDate)))))"

definition target_caveats :: "mandate \<Rightarrow> enforcer_addresses \<Rightarrow> js_error + caveat list" where
  "target_caveats m e =
     (case m_scope m of
        ScopeAllowlist targets \<Rightarrow>
          bindE (configured (ea_allowedTargets e)
              ''mandateToDelegation: allowlist scope but allowedTargets enforcer missing'') (\<lambda>a.
            bindE (make_caveat a (encodeAllowedTargetsTerms targets)) (\<lambda>c. Inr [c]))
      | ScopeClass _ \<Rightarrow> Inr [])"

definition mandateToDelegation :: "mandate \<Rightarrow> delegation_opts \<Rightarrow> js_error + delegation" where
  "mandateToDelegation m opts =
     bindE (timestamp_caveat m (do_enforcers opts)) (\<lambda>c1.
     bindE (amount_caveat m (do_enforcers opts) (do_token opts)) (\<lambda>c2.
     bindE (period_caveat m opts) (\<lambda>c3.
     bindE (target_caveats m (do_enforcers opts)) (\<lambda>cs.
     bindE (normalizeAddress (do_delegate opts)) (\<lambda>delegate.
     bindE (normalizeAddress (do_delegator opts)) (\<lambda>delegator.
     Inr \<lparr>dg_delegate = delegate, dg_delegator = delegator, dg_authority = ROOT_AUTHORITY,
          dg_caveats = c1 # c2 # c3 # cs, dg_salt = nullish (do_salt opts) (deterministicSalt (m_id m)),
          dg_signature = js ''0x''\<rparr>))))))"

section \<open>A redemption through the gate\<close>

record redemption_opts =
  ro_target :: str
  ro_amount :: jsnum
  ro_currency :: str
  ro_rail :: "rail_kind option"
  ro_rationale :: str
  ro_payeeClass :: "str option"
  ro_intentId :: "str option"
  ro_enforcers :: enforcer_addresses
  ro_mandateId :: "str option"
  ro_mandateLabel :: "str option"

definition periodFromSeconds :: "jsnum \<Rightarrow> period" where
  "periodFromSeconds seconds =
     fst (foldl (\<lambda>(best, bestDiff) p.
            let diff = \<bar>of_int (PERIOD_SECONDS p) - seconds\<bar>
            in if (case bestDiff of None \<Rightarrow> True | Some b \<Rightarrow> diff < b) then (p, Some diff) else (best, bestDiff))
          (Day, None) [Day, Week, Month])"

definition enforcer_key :: "str option \<Rightarrow> js_error + str" where
  "enforcer_key a =
     (case truthy a of Some s \<Rightarrow> bindE (normalizeAddress s) (\<lambda>n. Inr (to_lower n)) | None \<Rightarrow> Inr [])"

definition caveats_by_address :: "caveat list \<Rightarrow> js_error + (str, caveat) omap" where
  "caveats_by_address cs =
     bindE (mapE (\<lambda>c. bindE (normalizeAddress (cv_enforcer c)) (\<lambda>n. Inr (to_lower n, c))) cs) (\<lambda>kcs.
       Inr (foldl (\<lambda>m (k, c). AList.update k c m) [] kcs))"

text \<open>What the caveats say, once decoded.\<close>

record decoded_caveats =
  dc_expiresUnix :: "jsnum option"
  dc_perTxCap :: "jsnum option"
  dc_perPeriodCap :: "jsnum option"
  dc_period :: period
  dc_grantedUnix :: "jsnum option"
  dc_allowlist :: "str list option"

definition lookup_caveat :: "(str, caveat) omap \<Rightarrow> str option \<Rightarrow> js_error + caveat option" where
  "lookup_caveat by_addr a = bindE (enforcer_key a) (\<lambda>k. Inr (map_of by_addr k))"

fun on_caveat :: "caveat option \<Rightarrow> (str \<Rightarrow> js_error + 'a) \<Rightarrow> js_error + 'a option" where
  "on_caveat None f = Inr None"
| "on_caveat (Some c) f = bindE (f (cv_terms c)) (\<lambda>x. Inr (Some x))"

definition decode_caveats :: "caveat list \<Rightarrow> enforcer_addresses \<Rightarrow> js_error + decoded_caveats" where
  "decode_caveats cs e =
     bindE (caveats_by_address cs) (\<lambda>by_addr.
     bindE (lookup_caveat by_addr (Some (ea_timestamp e))) (\<lambda>tsC.
     bindE (on_caveat tsC decodeTimestampTerms) (\<lambda>expires.
     bindE (lookup_caveat by_addr (ea_erc20TransferAmount e)) (\<lambda>erc20AmtC.
     bindE (lookup_caveat by_addr (ea_nativeTokenTransferAmount e)) (\<lambda>nativeAmtC.
     bindE (if erc20AmtC \<noteq> None
            then on_caveat erc20AmtC (\<lambda>t. bindE (decodeErc20AmountTerms t) (\<lambda>(_, allowance). Inr allowance))
            else on_caveat nativeAmtC decodeNativeAmountTerms) (\<lambda>txCap.
     bindE (lookup_caveat by_addr (ea_erc20PeriodTransfer e)) (\<lambda>erc20PerC.
     bindE (lookup_caveat by_addr (ea_nativeTokenPeriodTransfer e)) (\<lambda>nativePerC.
     bindE (if erc20PerC \<noteq> None
            then on_caveat erc20PerC (\<lambda>t. bindE (decodePeriodTerms t) (\<lambda>(_, p). Inr p))
            else on_caveat nativePerC decodeNativePeriodTerms) (\<lambda>per.
     bindE (lookup_caveat by_addr (ea_allowedTargets e)) (\<lambda>targetsC.
     bindE (on_caveat targetsC decodeAllowedTargetsTerms) (\<lambda>targets.
     Inr \<lparr>dc_expiresUnix = map_option snd expires,
          dc_perTxCap = map_option of_int txCap,
          dc_perPeriodCap = map_option (\<lambda>p. of_int (pt_periodAmount p)) per,
          dc_period = (case per of Some p \<Rightarrow> periodFromSeconds (pt_periodDuration p) | None \<Rightarrow> Month),
          dc_grantedUnix = map_option pt_startDate per,
          dc_allowlist = map_option (map to_lower) targets\<rparr>)))))))))))"

definition show_hex_int :: "int \<Rightarrow> str" where
  "show_hex_int v = (if v < 0 then 45 # show_hex (nat (- v)) else show_hex (nat v))"

text \<open>\<open>new Date(seconds * 1000).toISOString()\<close>.\<close>

definition iso_of_seconds :: "jsnum \<Rightarrow> js_error + str" where
  "iso_of_seconds s = to_iso \<lfloor>s * 1000\<rfloor>"

definition redemption_mandate :: "delegation \<Rightarrow> redemption_opts \<Rightarrow> js_error + mandate" where
  "redemption_mandate d opts =
     bindE (decode_caveats (dg_caveats d) (ro_enforcers opts)) (\<lambda>c.
     let txCap = nullish (dc_perTxCap c) 0
     in bindE (iso_of_seconds (nullish (dc_grantedUnix c) 0)) (\<lambda>grantedAt.
        bindE (iso_of_seconds (nullish (dc_expiresUnix c) 32503680000)) (\<lambda>expiresAt.
        Inr \<lparr>m_id = nullish (ro_mandateId opts) (js ''0x'' @ show_hex_int (dg_salt d)),
             m_label = nullish (ro_mandateLabel opts) (js ''ERC-7710 delegation''),
             m_scope = (case dc_allowlist c of
                Some targets \<Rightarrow> ScopeAllowlist targets
              | None \<Rightarrow> ScopeClass (nullish (ro_payeeClass opts) (js ''delegated-spend''))),
             m_currency = ro_currency opts, m_allowedRails = [nullish (ro_rail opts) Onchain],
             m_perTxCap = txCap, m_perPeriodCap = nullish (dc_perPeriodCap c) txCap, m_period = dc_period c,
             m_grantedAt = grantedAt, m_expiresAt = expiresAt, m_status = Active\<rparr>)))"

definition redemption_intent :: "mandate \<Rightarrow> str \<Rightarrow> redemption_opts \<Rightarrow> str \<Rightarrow> payment_intent" where
  "redemption_intent m target opts now =
     \<lparr>i_id = nullish (ro_intentId opts) (m_id m @ js '':'' @ target),
      i_payee = (case m_scope m of ScopeAllowlist _ \<Rightarrow> to_lower target | ScopeClass _ \<Rightarrow> target),
      i_payeeClass = nullish (ro_payeeClass opts) (js ''delegated-spend''), i_amount = ro_amount opts,
      i_currency = ro_currency opts, i_rail = nullish (ro_rail opts) Onchain,
      i_rationale = ro_rationale opts, i_createdAt = now\<rparr>"

definition gateDelegationRedemption ::
  "delegation \<Rightarrow> redemption_opts \<Rightarrow> gate_context \<Rightarrow> js_error + (payment_intent \<times> gate_decision)" where
  "gateDelegationRedemption d opts ctx =
     bindE (normalizeAddress (ro_target opts)) (\<lambda>target.
     bindE (redemption_mandate d opts) (\<lambda>m.
     let intent = redemption_intent m target opts (c_now ctx)
     in bindE (evaluateGate intent (ctx\<lparr>c_mandates := c_mandates ctx @ [m]\<rparr>)) (\<lambda>decision.
        Inr (intent, decision))))"

section \<open>What a delegation made from a mandate says\<close>

lemma to_lower_hex [simp]: "to_lower (bytesToHex bs) = bytesToHex bs"
proof -
  have "to_lower_char (hex_digit d) = hex_digit d" if "d < 16" for d
    using that by (auto simp: to_lower_char_def hex_digit_def)
  moreover have "unat (b :: 8 word) div 16 < 16" for b using unat_byte [of b] by simp
  ultimately have "to_lower (byte_hex b) = byte_hex b" for b by (simp add: to_lower_def byte_hex_def)
  then have "map to_lower_char (concat (map byte_hex bs)) = concat (map byte_hex bs)"
    by (induction bs) (simp_all add: to_lower_def)
  then show ?thesis by (simp add: bytesToHex_def to_lower_def js_def to_lower_char_def)
qed

lemma canonical_facts:
  assumes "normalizeAddress a = Inr n"
  shows "to_lower n = n" "n \<noteq> []" "a \<noteq> []" "normalizeAddress n = Inr n"
proof -
  from assms obtain bs where bs: "length bs = 20" "hexToBytes a = Inr bs" "n = bytesToHex bs"
    by (auto simp: normalizeAddress_def bindE_Inr_iff split: if_splits)
  show "to_lower n = n" "n \<noteq> []" "normalizeAddress n = Inr n" using bs(1,3) by (simp_all add: normalizeAddress_def)
  show "a \<noteq> []" using bs(1,2) by (auto simp: hexToBytes_def starts_with_def Let_def js_def)
qed

lemma enforcer_key_of: "truthy a = Some s \<Longrightarrow> normalizeAddress s = Inr n \<Longrightarrow> enforcer_key a = Inr n"
  by (simp add: enforcer_key_def canonical_facts)

lemma enforcer_key_unset: "truthy a = None \<Longrightarrow> enforcer_key a = Inr []"
  by (simp add: enforcer_key_def)

lemma make_caveatE:
  assumes "make_caveat a terms = Inr c"
  obtains n bs where "normalizeAddress a = Inr n" "terms = Inr bs" "c = \<lparr>cv_enforcer = n, cv_terms = bytesToHex bs, cv_args = EMPTY_ARGS\<rparr>"
  using assms by (auto simp: make_caveat_def bindE_Inr_iff)

lemma configuredE:
  assumes "configured a what = Inr s"
  obtains "truthy a = Some s"
  using assms by (auto simp: configured_def split: option.splits)

text \<open>The addresses of the configured enforcers are valid and no two of them are the same.\<close>

definition enforcer_keys :: "enforcer_addresses \<Rightarrow> js_error + str list" where
  "enforcer_keys e =
     mapE enforcer_key [Some (ea_timestamp e), ea_nativeTokenTransferAmount e, ea_erc20TransferAmount e,
       ea_erc20PeriodTransfer e, ea_nativeTokenPeriodTransfer e, ea_allowedTargets e]"

definition enforcers_apart :: "enforcer_addresses \<Rightarrow> bool" where
  "enforcers_apart e \<longleftrightarrow>
     (case enforcer_keys e of Inr ks \<Rightarrow> distinct (filter (\<lambda>k. k \<noteq> []) ks) | Inl _ \<Rightarrow> False)"

text \<open>A caveat as it is found again: its key and its terms.\<close>

lemma caveats_by_address_of:
  assumes "list_all2 (\<lambda>c k. cv_enforcer c = k \<and> normalizeAddress k = Inr k \<and> to_lower k = k) cs ks"
  shows "caveats_by_address cs = Inr (foldl (\<lambda>m (k, c). AList.update k c m) [] (zip ks cs))"
proof -
  have "mapE (\<lambda>c. bindE (normalizeAddress (cv_enforcer c)) (\<lambda>n. Inr (to_lower n, c))) cs = Inr (zip ks cs)"
    using assms by (induction rule: list_all2_induct) auto
  then show ?thesis by (simp add: caveats_by_address_def)
qed

lemma period_from_seconds [simp]: "periodFromSeconds (of_int (PERIOD_SECONDS p)) = p"
  by (cases p) (simp_all add: periodFromSeconds_def)

text \<open>The terms of the two amount caveats of a mandate, whichever token it settles in.\<close>

lemma amount_caveatE:
  assumes "amount_caveat m e token = Inr c" "m_perTxCap m = of_int tx" "0 \<le> tx" "tx < 2 ^ 256"
  obtains (erc20) t a n where "truthy token = Some t" "truthy (ea_erc20TransferAmount e) = Some a" "normalizeAddress a = Inr n"
      "cv_enforcer c = n" "\<exists>t'. decodeErc20AmountTerms (cv_terms c) = Inr (t', tx)"
  | (native) a n where "truthy token = None" "truthy (ea_nativeTokenTransferAmount e) = Some a" "normalizeAddress a = Inr n"
      "cv_enforcer c = n" "decodeNativeAmountTerms (cv_terms c) = Inr tx"
proof (cases "truthy token")
  case (Some t)
  with assms(1) obtain a where a: "truthy (ea_erc20TransferAmount e) = Some a"
      "make_caveat a (bindE (big_int (m_perTxCap m)) (encodeErc20AmountTerms t)) = Inr c"
    by (auto simp: amount_caveat_def bindE_Inr_iff elim!: configuredE)
  from make_caveatE [OF a(2)] obtain n bs where
    n: "normalizeAddress a = Inr n" "encodeErc20AmountTerms t tx = Inr bs"
      "c = \<lparr>cv_enforcer = n, cv_terms = bytesToHex bs, cv_args = EMPTY_ARGS\<rparr>"
    by (auto simp: big_int_def assms(2))
  then obtain t' where "normalizeAddress t = Inr t'"
    using assms(3) by (auto simp: encodeErc20AmountTerms_def concatBytes_def bindE_Inr_iff)
  from erc20_amount_terms [OF assms(3,4) this] n that(1) [OF Some a(1) n(1)] show thesis by auto
next
  case None
  with assms(1) obtain a where a: "truthy (ea_nativeTokenTransferAmount e) = Some a"
      "make_caveat a (bindE (big_int (m_perTxCap m)) encodeNativeAmountTerms) = Inr c"
    by (auto simp: amount_caveat_def bindE_Inr_iff elim!: configuredE)
  from make_caveatE [OF a(2)] obtain n bs where
    n: "normalizeAddress a = Inr n" "encodeNativeAmountTerms tx = Inr bs"
      "c = \<lparr>cv_enforcer = n, cv_terms = bytesToHex bs, cv_args = EMPTY_ARGS\<rparr>"
    by (auto simp: big_int_def assms(2))
  from native_amount_terms [OF assms(3,4)] n that(2) [OF None a(1) n(1)] show thesis by auto
qed

text \<open>A finite, positive instant of the calendar is far below the width of its field.\<close>

lemma iso_seconds:
  assumes "iso_range t" "0 \<le> t"
  shows "0 \<le> t div 1000" "t div 1000 < 2 ^ 128" "t div 1000 < 2 ^ 256" "to_iso (t div 1000 * 1000) = Inr (iso_text (t div 1000 * 1000))"
proof -
  show le: "0 \<le> t div 1000" using assms(2) by simp
  have "t div 1000 < 253402300800"
    using assms(1) div_mult_mod_eq [of t 1000] pos_mod_sign [of 1000 t] unfolding iso_range_def by linarith
  then show "t div 1000 < 2 ^ 128" "t div 1000 < 2 ^ 256" by simp_all
  have "t div 1000 * 1000 \<le> t" by simp
  with le assms(1) show "to_iso (t div 1000 * 1000) = Inr (iso_text (t div 1000 * 1000))"
    by (intro to_iso_range) (simp add: iso_range_def)
qed

lemma unix_seconds_iso: "iso_range t \<Longrightarrow> unix_seconds (iso_text t) what = Inr (of_int (t div 1000))"
  by (simp add: unix_seconds_def date_parse_iso_text)

lemma timestamp_caveatE:
  assumes "timestamp_caveat m e = Inr c" "m_expiresAt m = iso_text t" "iso_range t" "0 \<le> t"
  obtains n where "normalizeAddress (ea_timestamp e) = Inr n" "cv_enforcer c = n"
    "decodeTimestampTerms (cv_terms c) = Inr (0, of_int (t div 1000))"
proof -
  from assms have "make_caveat (ea_timestamp e) (encodeTimestampTerms (of_int (t div 1000)) 0) = Inr c"
    by (simp add: timestamp_caveat_def unix_seconds_iso)
  from make_caveatE [OF this] obtain n bs where
    n: "normalizeAddress (ea_timestamp e) = Inr n" "encodeTimestampTerms (of_int (t div 1000)) 0 = Inr bs"
      "c = \<lparr>cv_enforcer = n, cv_terms = bytesToHex bs, cv_args = EMPTY_ARGS\<rparr>" by blast
  from timestamp_terms [of "t div 1000" 0] iso_seconds(1,2) [OF assms(3,4)] n that [OF n(1)] show thesis by auto
qed

lemma period_caveatE:
  assumes "period_caveat m opts = Inr c" "m_perPeriodCap m = of_int cap" "0 \<le> cap" "cap < 2 ^ 256"
    and "m_grantedAt m = iso_text g" "iso_range g" "0 \<le> g" "do_periodSecondsOverride opts = None"
  obtains (erc20) t a n where "truthy (do_token opts) = Some t" "truthy (ea_erc20PeriodTransfer (do_enforcers opts)) = Some a"
      "normalizeAddress a = Inr n" "cv_enforcer c = n"
      "\<exists>t'. decodePeriodTerms (cv_terms c) = Inr (t', \<lparr>pt_periodAmount = cap,
         pt_periodDuration = of_int (PERIOD_SECONDS (m_period m)), pt_startDate = of_int (g div 1000)\<rparr>)"
  | (native) a n where "truthy (do_token opts) = None" "truthy (ea_nativeTokenPeriodTransfer (do_enforcers opts)) = Some a"
      "normalizeAddress a = Inr n" "cv_enforcer c = n"
      "decodeNativePeriodTerms (cv_terms c) = Inr \<lparr>pt_periodAmount = cap,
         pt_periodDuration = of_int (PERIOD_SECONDS (m_period m)), pt_startDate = of_int (g div 1000)\<rparr>"
proof -
  note seconds = unix_seconds_iso [OF assms(6)]
  have d: "0 < PERIOD_SECONDS (m_period m)" "PERIOD_SECONDS (m_period m) < 2 ^ 256" by (cases "m_period m"; simp)+
  note g = iso_seconds(1,3) [OF assms(6,7)]
  show thesis
  proof (cases "truthy (do_token opts)")
    case (Some t)
    with assms(1,2,5,8) seconds obtain a where a: "truthy (ea_erc20PeriodTransfer (do_enforcers opts)) = Some a"
        "make_caveat a (encodePeriodTerms t cap (of_int (PERIOD_SECONDS (m_period m))) (of_int (g div 1000))) = Inr c"
      by (auto simp: period_caveat_def bindE_Inr_iff big_int_def Let_def elim!: configuredE)
    from make_caveatE [OF a(2)] obtain n bs where
      n: "normalizeAddress a = Inr n" "encodePeriodTerms t cap (of_int (PERIOD_SECONDS (m_period m))) (of_int (g div 1000)) = Inr bs"
        "c = \<lparr>cv_enforcer = n, cv_terms = bytesToHex bs, cv_args = EMPTY_ARGS\<rparr>" by blast
    then obtain t' where "normalizeAddress t = Inr t'"
      using assms(3) d(1) g(1) by (auto simp: encodePeriodTerms_def concatBytes_def bindE_Inr_iff)
    from erc20_period_terms [OF assms(3,4) d g this] n that(1) [OF Some a(1) n(1)] show thesis by auto
  next
    case None
    with assms(1,2,5,8) seconds obtain a where a: "truthy (ea_nativeTokenPeriodTransfer (do_enforcers opts)) = Some a"
        "make_caveat a (encodeNativePeriodTerms cap (of_int (PERIOD_SECONDS (m_period m))) (of_int (g div 1000))) = Inr c"
      by (auto simp: period_caveat_def bindE_Inr_iff big_int_def Let_def elim!: configuredE)
    from make_caveatE [OF a(2)] obtain n bs where
      n: "normalizeAddress a = Inr n" "encodeNativePeriodTerms cap (of_int (PERIOD_SECONDS (m_period m))) (of_int (g div 1000)) = Inr bs"
        "c = \<lparr>cv_enforcer = n, cv_terms = bytesToHex bs, cv_args = EMPTY_ARGS\<rparr>" by blast
    from native_period_terms [OF assms(3,4) d g] n that(2) [OF None a(1) n(1)] show thesis by auto
  qed
qed

lemma target_caveatsE:
  assumes "target_caveats m e = Inr cs"
  obtains (open_scope) v where "m_scope m = ScopeClass v" "cs = []"
  | (targets) vs ts a n c where "m_scope m = ScopeAllowlist vs" "mapE normalizeAddress vs = Inr ts"
      "truthy (ea_allowedTargets e) = Some a" "normalizeAddress a = Inr n" "cs = [c]" "cv_enforcer c = n"
      "decodeAllowedTargetsTerms (cv_terms c) = Inr ts"
proof (cases "m_scope m")
  case (ScopeAllowlist vs)
  with assms obtain a c where a: "truthy (ea_allowedTargets e) = Some a"
      "make_caveat a (encodeAllowedTargetsTerms vs) = Inr c" "cs = [c]"
    by (auto simp: target_caveats_def bindE_Inr_iff elim!: configuredE)
  from make_caveatE [OF a(2)] obtain n bs where
    n: "normalizeAddress a = Inr n" "encodeAllowedTargetsTerms vs = Inr bs"
      "c = \<lparr>cv_enforcer = n, cv_terms = bytesToHex bs, cv_args = EMPTY_ARGS\<rparr>" by blast
  from n(2) have vs: "vs \<noteq> []" "\<exists>ts. mapE normalizeAddress vs = Inr ts"
  proof -
    show "vs \<noteq> []" using n(2) by (auto simp: encodeAllowedTargetsTerms_def)
    from n(2) obtain ws where "list_all2 (\<lambda>a w. bindE (normalizeAddress a) hexToBytes = Inr w) vs ws"
      by (auto simp: encodeAllowedTargetsTerms_def bindE_Inr_iff concatBytes_parts list.rel_map)
    then show "\<exists>ts. mapE normalizeAddress vs = Inr ts"
      by (induction rule: list_all2_induct) (auto simp: bindE_Inr_iff)
  qed
  then obtain ts where "mapE normalizeAddress vs = Inr ts" by blast
  with allowed_targets_terms [OF this vs(1)] n that(2) [OF ScopeAllowlist _ a(1) n(1) a(3)] show thesis by auto
next
  case (ScopeClass v)
  with assms that(1) show thesis by (auto simp: target_caveats_def)
qed

lemma delegation_caveats:
  assumes "mandateToDelegation m opts = Inr d" "do_periodSecondsOverride opts = None" "do_enforcers opts = e"
    and "m_perTxCap m = of_int tx" "0 \<le> tx" "tx < 2 ^ 256"
    and "m_perPeriodCap m = of_int cap" "0 \<le> cap" "cap < 2 ^ 256"
    and "m_expiresAt m = iso_text t" "iso_range t" "0 \<le> t"
    and "m_grantedAt m = iso_text g" "iso_range g" "0 \<le> g" and "enforcers_apart e"
  shows "\<exists>c. decode_caveats (dg_caveats d) e = Inr c \<and> dc_expiresUnix c = Some (of_int (t div 1000)) \<and>
    dc_perTxCap c = Some (of_int tx) \<and> dc_perPeriodCap c = Some (of_int cap) \<and> dc_period c = m_period m \<and>
    dc_grantedUnix c = Some (of_int (g div 1000)) \<and>
    (case m_scope m of
       ScopeAllowlist vs \<Rightarrow> \<exists>ts. mapE normalizeAddress vs = Inr ts \<and> dc_allowlist c = Some (map to_lower ts)
     | ScopeClass _ \<Rightarrow> dc_allowlist c = None)"
proof -
  from assms(1) obtain c1 c2 c3 cs where
    c: "timestamp_caveat m e = Inr c1" "amount_caveat m e (do_token opts) = Inr c2" "period_caveat m opts = Inr c3"
      "target_caveats m e = Inr cs" and d: "dg_caveats d = c1 # c2 # c3 # cs"
    by (auto simp: mandateToDelegation_def bindE_Inr_iff assms(3))
  from assms(16) obtain k1 k2 k3 k4 k5 k6 where
    k: "enforcer_key (Some (ea_timestamp e)) = Inr k1" "enforcer_key (ea_nativeTokenTransferAmount e) = Inr k2"
      "enforcer_key (ea_erc20TransferAmount e) = Inr k3" "enforcer_key (ea_erc20PeriodTransfer e) = Inr k4"
      "enforcer_key (ea_nativeTokenPeriodTransfer e) = Inr k5" "enforcer_key (ea_allowedTargets e) = Inr k6"
    and apart: "distinct (filter (\<lambda>k. k \<noteq> []) [k1, k2, k3, k4, k5, k6])"
    by (auto simp: enforcers_apart_def enforcer_keys_def bindE_Inr_iff split: sum.splits)
  from timestamp_caveatE [OF c(1) assms(10-12)] obtain n1 where
    n1: "normalizeAddress (ea_timestamp e) = Inr n1" "cv_enforcer c1 = n1"
      "decodeTimestampTerms (cv_terms c1) = Inr (0, of_int (t div 1000))" by blast
  then have "truthy (Some (ea_timestamp e)) = Some (ea_timestamp e)"
    using canonical_facts(3) by (simp add: truthy_def)
  with k(1) n1(1) have k1: "k1 = n1" by (simp add: enforcer_key_of)
  note f1 = canonical_facts(1,2,4) [OF n1(1)]
  have targets: "list_all2 (\<lambda>c k. cv_enforcer c = k \<and> normalizeAddress k = Inr k \<and> to_lower k = k) cs (map cv_enforcer cs)"
    by (cases rule: target_caveatsE [OF c(4)]) (auto dest: canonical_facts)
  have by_addr: "caveats_by_address (dg_caveats d) =
      Inr (foldl (\<lambda>m (k, c). AList.update k c m) [] (zip (n1 # n2 # n3 # map cv_enforcer cs) (c1 # c2 # c3 # cs)))"
    if "normalizeAddress a2 = Inr n2" "cv_enforcer c2 = n2" "normalizeAddress a3 = Inr n3" "cv_enforcer c3 = n3" for a2 n2 a3 n3
    unfolding d by (rule caveats_by_address_of) (use n1(2) that f1 targets in \<open>simp add: canonical_facts\<close>)
  have keys: "k6 = n6" "n6 \<noteq> []" if "truthy (ea_allowedTargets e) = Some a6" "normalizeAddress a6 = Inr n6" for a6 n6
    using k(6) that by (simp_all add: enforcer_key_of canonical_facts)
  show ?thesis
  proof (cases rule: amount_caveatE [OF c(2) assms(4-6)])
    case (1 tok a2 n2)
    from period_caveatE [OF c(3) assms(7-9,13-15,2)] 1(1) obtain a3 n3 t3 where
      p: "truthy (ea_erc20PeriodTransfer e) = Some a3" "normalizeAddress a3 = Inr n3" "cv_enforcer c3 = n3"
        "decodePeriodTerms (cv_terms c3) = Inr (t3, \<lparr>pt_periodAmount = cap,
           pt_periodDuration = of_int (PERIOD_SECONDS (m_period m)), pt_startDate = of_int (g div 1000)\<rparr>)"
      unfolding assms(3) by (metis option.distinct(1))
    note by_addr = by_addr [OF 1(3,4) p(2,3)]
    have ks: "k3 = n2" "k4 = n3" using k(3,4) 1(2,3) p(1,2) by (simp_all add: enforcer_key_of)
    obtain t2 where a: "decodeErc20AmountTerms (cv_terms c2) = Inr (t2, tx)" using 1(5) by blast
    note facts = apart f1(2) canonical_facts(2) [OF 1(3)] canonical_facts(2) [OF p(2)] k1 ks n1(3) a p(4) 1(1) keys
    show ?thesis
      by (cases rule: target_caveatsE [OF c(4)])
        (use facts in \<open>auto simp: decode_caveats_def by_addr lookup_caveat_def k update_conv split: if_splits\<close>)
  next
    case (2 a2 n2)
    from period_caveatE [OF c(3) assms(7-9,13-15,2)] 2(1) obtain a3 n3 where
      p: "truthy (ea_nativeTokenPeriodTransfer e) = Some a3" "normalizeAddress a3 = Inr n3" "cv_enforcer c3 = n3"
        "decodeNativePeriodTerms (cv_terms c3) = Inr \<lparr>pt_periodAmount = cap,
           pt_periodDuration = of_int (PERIOD_SECONDS (m_period m)), pt_startDate = of_int (g div 1000)\<rparr>"
      unfolding assms(3) by (metis option.distinct(1))
    note by_addr = by_addr [OF 2(3,4) p(2,3)]
    have ks: "k2 = n2" "k5 = n3" using k(2,5) 2(2,3) p(1,2) by (simp_all add: enforcer_key_of)
    have "n1 \<noteq> n2" "n1 \<noteq> n3" "n2 \<noteq> n3" "k3 \<noteq> n1" "k3 \<noteq> n2" "k3 \<noteq> n3" "k4 \<noteq> n1" "k4 \<noteq> n2" "k4 \<noteq> n3"
      "k6 \<noteq> n1" "k6 \<noteq> n2" "k6 \<noteq> n3" "k6 = k3 \<longrightarrow> k6 = []" "k6 = k4 \<longrightarrow> k6 = []"
      using apart f1(2) canonical_facts(2) [OF 2(3)] canonical_facts(2) [OF p(2)] unfolding k1 ks
      by (simp_all split: if_splits) blast+
    note facts = this k1 ks n1(3) 2(5) p(4) 2(1) keys
    show ?thesis
      by (cases rule: target_caveatsE [OF c(4)])
        (use facts in \<open>auto simp: decode_caveats_def by_addr lookup_caveat_def k update_conv\<close>)
  qed
qed


lemma iso_of_seconds_iso: "iso_range t \<Longrightarrow> 0 \<le> t \<Longrightarrow> iso_of_seconds (of_int (t div 1000)) = Inr (iso_text (t div 1000 * 1000))"
proof -
  have "\<lfloor>of_int (t div 1000) * 1000 :: rat\<rfloor> = t div 1000 * 1000"
    by (metis floor_of_int of_int_mult of_int_numeral)
  then show "iso_range t \<Longrightarrow> 0 \<le> t \<Longrightarrow> ?thesis" by (simp add: iso_of_seconds_def iso_seconds)
qed

text \<open>What a mandate must be to be expressible: whole, non-negative caps in 256 bits and instants in range.\<close>

definition expressible :: "mandate \<Rightarrow> int \<Rightarrow> int \<Rightarrow> bool" where
  "expressible m t g \<longleftrightarrow>
     is_integer (m_perTxCap m) \<and> 0 \<le> m_perTxCap m \<and> m_perTxCap m < 2 ^ 256 \<and>
     is_integer (m_perPeriodCap m) \<and> 0 \<le> m_perPeriodCap m \<and> m_perPeriodCap m < 2 ^ 256 \<and>
     m_expiresAt m = iso_text t \<and> iso_range t \<and> 0 \<le> t \<and> m_grantedAt m = iso_text g \<and> iso_range g \<and> 0 \<le> g"

lemma whole_cap:
  assumes "is_integer x" "0 \<le> x" "x < 2 ^ 256"
  shows "x = of_int \<lfloor>x\<rfloor>" "0 \<le> \<lfloor>x\<rfloor>" "\<lfloor>x\<rfloor> < 2 ^ 256"
proof -
  show x: "x = of_int \<lfloor>x\<rfloor>" using assms(1) [unfolded is_integer_def] by (rule sym)
  show "0 \<le> \<lfloor>x\<rfloor>" using assms(2) by simp
  show "\<lfloor>x\<rfloor> < 2 ^ 256" using assms(3) by (simp add: floor_less_iff)
qed

lemma redemption_of_mandate:
  assumes "mandateToDelegation m opts = Inr d" "do_periodSecondsOverride opts = None" "ro_enforcers ropts = do_enforcers opts"
    and "expressible m t g" "enforcers_apart (do_enforcers opts)"
  shows "\<exists>m'. redemption_mandate d ropts = Inr m' \<and> m_perTxCap m' = m_perTxCap m \<and> m_perPeriodCap m' = m_perPeriodCap m \<and>
    m_period m' = m_period m \<and> m_expiresAt m' = iso_text (t div 1000 * 1000) \<and>
    m_grantedAt m' = iso_text (g div 1000 * 1000) \<and> m_status m' = Active \<and> m_currency m' = ro_currency ropts \<and>
    (case m_scope m of
       ScopeAllowlist vs \<Rightarrow> \<exists>ts. mapE normalizeAddress vs = Inr ts \<and> m_scope m' = ScopeAllowlist (map to_lower ts)
     | ScopeClass _ \<Rightarrow> m_scope m' = ScopeClass (nullish (ro_payeeClass ropts) (js ''delegated-spend'')))"
proof -
  note e = assms(4) [unfolded expressible_def]
  note tx = whole_cap [of "m_perTxCap m"] and per = whole_cap [of "m_perPeriodCap m"]
  from delegation_caveats [OF assms(1,2) refl tx per _ _ _ _ _ _ assms(5)] e obtain c where
    c: "decode_caveats (dg_caveats d) (do_enforcers opts) = Inr c" "dc_expiresUnix c = Some (of_int (t div 1000))"
      "dc_perTxCap c = Some (of_int \<lfloor>m_perTxCap m\<rfloor>)" "dc_perPeriodCap c = Some (of_int \<lfloor>m_perPeriodCap m\<rfloor>)" "dc_period c = m_period m"
      "dc_grantedUnix c = Some (of_int (g div 1000))"
      "case m_scope m of ScopeAllowlist vs \<Rightarrow> \<exists>ts. mapE normalizeAddress vs = Inr ts \<and> dc_allowlist c = Some (map to_lower ts)
        | ScopeClass _ \<Rightarrow> dc_allowlist c = None" by blast
  have caps: "of_int \<lfloor>m_perTxCap m\<rfloor> = m_perTxCap m" "of_int \<lfloor>m_perPeriodCap m\<rfloor> = m_perPeriodCap m"
    using e by (simp_all add: is_integer_def)
  have iso: "iso_of_seconds (of_int (t div 1000)) = Inr (iso_text (t div 1000 * 1000))"
    "iso_of_seconds (of_int (g div 1000)) = Inr (iso_text (g div 1000 * 1000))"
    using e by (simp_all add: iso_of_seconds_iso)
  show ?thesis using c(7)
    by (cases "m_scope m") (auto simp: redemption_mandate_def assms(3) c(1-6) caps iso Let_def)
qed

text \<open>
  Property C39: a delegation says what its mandate says. A mandate whose caps are whole numbers below 2 to the
  256 and whose instants are in range, made into a delegation and decoded with the same enforcers (no two
  at one address), gives back both caps, the period and, to the second, the grant and the expiry; an
  allowlist comes back normalised. The class of the mandate, its currency and its rails do not: the
  caller of the redemption supplies them.
\<close>

theorem delegation_round_trip:
  assumes "mandateToDelegation m opts = Inr d" "do_periodSecondsOverride opts = None" "ro_enforcers ropts = do_enforcers opts"
    and "expressible m t g" "enforcers_apart (do_enforcers opts)"
  shows "\<exists>m'. redemption_mandate d ropts = Inr m' \<and> m_perTxCap m' = m_perTxCap m \<and> m_perPeriodCap m' = m_perPeriodCap m \<and>
    m_period m' = m_period m \<and> m_expiresAt m' = iso_text (t div 1000 * 1000) \<and>
    m_grantedAt m' = iso_text (g div 1000 * 1000) \<and> m_status m' = Active \<and> m_currency m' = ro_currency ropts \<and>
    (case m_scope m of
       ScopeAllowlist vs \<Rightarrow> \<exists>ts. mapE normalizeAddress vs = Inr ts \<and> m_scope m' = ScopeAllowlist (map to_lower ts)
     | ScopeClass _ \<Rightarrow> m_scope m' = ScopeClass (nullish (ro_payeeClass ropts) (js ''delegated-spend'')))"
  by (rule redemption_of_mandate [OF assms])


text \<open>
  Fact: an unbounded delegation buys nothing. If no caveat of a delegation is found under the addresses of
  the two amount enforcers, the gate never lets a redemption of it through on its own.
\<close>

theorem uncapped_redemption_refused:
  assumes "decode_caveats (dg_caveats d) (ro_enforcers ropts) = Inr c" "dc_perTxCap c = None"
    and "gateDelegationRedemption d ropts ctx = Inr (intent, dec)" "c_mandates ctx = []"
  shows "gd_outcome dec \<noteq> AutoExecute"
proof
  assume auto: "gd_outcome dec = AutoExecute"
  from assms(3) obtain m' target where
    m': "redemption_mandate d ropts = Inr m'" "intent = redemption_intent m' target ropts (c_now ctx)"
      "evaluateGate intent (ctx\<lparr>c_mandates := [m']\<rparr>) = Inr dec"
    by (auto simp: gateDelegationRedemption_def bindE_Inr_iff Let_def assms(4))
  from m'(1) have cap: "m_perTxCap m' = 0" "m_currency m' = ro_currency ropts"
    by (auto simp: redemption_mandate_def assms(1,2) bindE_Inr_iff Let_def)
  from gate_auto_sound [OF m'(3) auto] obtain sp ws where "may_auto intent (ctx\<lparr>c_mandates := [m']\<rparr>) m' sp ws" by auto
  with cap show False
    by (auto simp: may_auto_def amount_in_mandate_def m'(2) redemption_intent_def)
qed

section \<open>A concrete delegation\<close>

definition example_address :: "8 word \<Rightarrow> str" where
  "example_address b = bytesToHex (replicate 20 b)"

definition example_enforcers :: enforcer_addresses where
  "example_enforcers =
     \<lparr>ea_timestamp = example_address 1, ea_nativeTokenTransferAmount = Some (example_address 2),
      ea_erc20TransferAmount = None, ea_erc20PeriodTransfer = None,
      ea_nativeTokenPeriodTransfer = Some (example_address 3), ea_allowedTargets = None\<rparr>"

definition example_delegation_opts :: delegation_opts where
  "example_delegation_opts =
     \<lparr>do_delegate = example_address 4, do_delegator = example_address 5, do_enforcers = example_enforcers,
      do_token = None, do_salt = Some 7, do_periodSecondsOverride = None\<rparr>"

definition example_redemption :: redemption_opts where
  "example_redemption =
     \<lparr>ro_target = example_address 6, ro_amount = 2500, ro_currency = js ''USD'', ro_rail = Some Card,
      ro_rationale = i_rationale gate_example_intent, ro_payeeClass = Some (js ''saas''),
      ro_intentId = Some (js ''pi_1''), ro_enforcers = example_enforcers, ro_mandateId = Some (js ''m_1''),
      ro_mandateLabel = Some (js ''tools'')\<rparr>"

lemma example_address_normal [simp]: "normalizeAddress (example_address b) = Inr (example_address b)"
  "example_address b \<noteq> []" "to_lower (example_address b) = example_address b"
  "example_address b = example_address b' \<longleftrightarrow> b = b'"
  by (simp_all add: example_address_def normalizeAddress_def replicate_eq_replicate)

lemma example_enforcers_apart: "enforcers_apart example_enforcers"
  by (simp add: enforcers_apart_def enforcer_keys_def example_enforcers_def enforcer_key_def truthy_def)

lemma example_matches:
  "do_periodSecondsOverride example_delegation_opts = None" "ro_enforcers example_redemption = do_enforcers example_delegation_opts"
  "enforcers_apart (do_enforcers example_delegation_opts)"
  using example_enforcers_apart by (simp_all add: example_delegation_opts_def example_redemption_def)

lemma example_expressible: "expressible gate_example_mandate 1710000000000 1690000000000"
  using is_integer_of_int [of 5000] is_integer_of_int [of 10000]
  by (simp add: expressible_def gate_example_mandate_def iso_range_def)

lemma example_delegation: "\<exists>d. mandateToDelegation gate_example_mandate example_delegation_opts = Inr d"
proof -
  from timestamp_terms [of 1710000000 0] obtain b1 where
    b1: "encodeTimestampTerms 1710000000 0 = Inr b1" by auto
  from native_amount_terms [of 5000] obtain b2 where b2: "encodeNativeAmountTerms 5000 = Inr b2" by auto
  from native_period_terms [of 10000 2592000 1690000000] obtain b3 where
    b3: "encodeNativePeriodTerms 10000 2592000 1690000000 = Inr b3" by auto
  have whole: "is_integer 5000" "is_integer 10000"
    using is_integer_of_int [of 5000] is_integer_of_int [of 10000] by simp_all
  have s: "unix_seconds (iso_text 1710000000000) w = Inr 1710000000" "unix_seconds (iso_text 1690000000000) w = Inr 1690000000" for w
    using unix_seconds_iso [of 1710000000000] unix_seconds_iso [of 1690000000000] by (simp_all add: iso_range_def)
  show ?thesis
    using b1 b2 b3 whole
    by (simp add: mandateToDelegation_def timestamp_caveat_def amount_caveat_def period_caveat_def target_caveats_def
        gate_example_mandate_def example_delegation_opts_def example_enforcers_def truthy_def configured_def make_caveat_def
        big_int_def s Let_def)
qed

theorem delegation_round_trip_witness:
  "\<exists>d m'. mandateToDelegation gate_example_mandate example_delegation_opts = Inr d \<and>
     redemption_mandate d example_redemption = Inr m' \<and> m_perTxCap m' = 5000 \<and> m_perPeriodCap m' = 10000 \<and> m_period m' = Month"
proof -
  obtain d where d: "mandateToDelegation gate_example_mandate example_delegation_opts = Inr d" using example_delegation by blast
  from delegation_round_trip [OF d example_matches(1,2) example_expressible example_matches(3)] d
  show ?thesis by (auto simp: gate_example_mandate_def)
qed

lemma example_redemption_mandate:
  assumes "mandateToDelegation gate_example_mandate example_delegation_opts = Inr d"
  shows "redemption_mandate d example_redemption = Inr gate_example_mandate"
proof -
  from redemption_of_mandate [OF assms example_matches(1,2) example_expressible example_matches(3)] obtain m' where
    m': "redemption_mandate d example_redemption = Inr m'" "m_perTxCap m' = 5000" "m_perPeriodCap m' = 10000" "m_period m' = Month"
      "m_expiresAt m' = iso_text 1710000000000" "m_grantedAt m' = iso_text 1690000000000" "m_status m' = Active"
      "m_currency m' = js ''USD''" "m_scope m' = ScopeClass (js ''saas'')"
    by (auto simp: gate_example_mandate_def example_redemption_def)
  moreover from m'(1) have "m_id m' = js ''m_1''" "m_label m' = js ''tools''" "m_allowedRails m' = [Card]"
    by (auto simp: redemption_mandate_def bindE_Inr_iff Let_def example_redemption_def)
  ultimately have "m' = gate_example_mandate" by (simp add: gate_example_mandate_def)
  with m'(1) show ?thesis by simp
qed

text \<open>The example payment to another payee is decided alike: nothing in its context looks at the payee.\<close>

lemma example_redemption_auto:
  assumes "mandateToDelegation gate_example_mandate example_delegation_opts = Inr d"
  shows "\<exists>intent dec. gateDelegationRedemption d example_redemption (gate_example_context\<lparr>c_mandates := []\<rparr>) = Inr (intent, dec) \<and>
    gd_outcome dec = AutoExecute"
proof -
  let ?i = "gate_example_intent\<lparr>i_payee := example_address 6\<rparr>" and ?c = gate_example_context
  have intent: "redemption_intent gate_example_mandate (example_address 6) example_redemption (c_now ?c) = ?i"
    by (simp add: redemption_intent_def example_redemption_def gate_example_intent_def gate_example_mandate_def gate_example_context_def)
  have same: "covers m ?i cv = covers m gate_example_intent cv" if "m_scope m = ScopeClass v" for m v cv
    using that by (simp add: covers_def gate_example_intent_def split: option.split)
  have "gate_risk ?i ?c [] = gate_risk gate_example_intent ?c []"
    by (simp add: gate_risk_def classifySpendRisk_def gate_trust_def gate_reversibility_def Let_def gate_example_context_def
        gate_example_intent_def)
  moreover have "gate_mandate ?i ?c = Some gate_example_mandate"
    using gate_example_conditions(1) same [of gate_example_mandate "js ''saas''"]
    by (simp add: gate_mandate_def gate_example_context_def gate_example_mandate_def split: if_splits)
  moreover have "may_auto ?i ?c gate_example_mandate [] (iso_text 1699996400000)"
    using gate_example_conditions(4) same [of gate_example_mandate "js ''saas''"] calculation(1)
    by (simp add: may_auto_def gate_trust_def amount_in_mandate_def gate_example_context_def gate_example_intent_def
        gate_example_mandate_def)
  ultimately obtain dec where "evaluateGate ?i ?c = Inr dec" "gd_outcome dec = AutoExecute"
    using gate_auto_intro [OF _ gate_example_conditions(2,3)] by auto
  moreover have "?c\<lparr>c_mandates := [gate_example_mandate]\<rparr> = ?c" by (simp add: gate_example_context_def)
  ultimately show ?thesis
    using example_redemption_mandate [OF assms] intent
    by (auto simp: gateDelegationRedemption_def Let_def example_redemption_def)
qed


definition bare_delegation :: delegation where
  "bare_delegation =
     \<lparr>dg_delegate = example_address 4, dg_delegator = example_address 5, dg_authority = ROOT_AUTHORITY,
      dg_caveats = [], dg_salt = 7, dg_signature = js ''0x''\<rparr>"

theorem uncapped_redemption_refused_witness:
  "\<exists>intent dec. gateDelegationRedemption bare_delegation example_redemption (gate_example_context\<lparr>c_mandates := []\<rparr>) = Inr (intent, dec) \<and>
     gd_outcome dec \<noteq> AutoExecute"
proof -
  have c: "decode_caveats (dg_caveats bare_delegation) (ro_enforcers example_redemption) =
      Inr \<lparr>dc_expiresUnix = None, dc_perTxCap = None, dc_perPeriodCap = None, dc_period = Month, dc_grantedUnix = None, dc_allowlist = None\<rparr>"
    by (simp add: decode_caveats_def bare_delegation_def caveats_by_address_def lookup_caveat_def enforcer_key_def truthy_def
        example_redemption_def example_enforcers_def)
  have iso: "iso_of_seconds 0 = Inr (iso_text 0)" "iso_of_seconds 32503680000 = Inr (iso_text 32503680000000)"
    by (simp_all add: iso_of_seconds_def to_iso_def)
  then obtain m where m: "redemption_mandate bare_delegation example_redemption = Inr m" "c_mandates (gate_example_context\<lparr>c_mandates := [m]\<rparr>) = [m]"
    by (simp add: redemption_mandate_def c Let_def)
  let ?i = "redemption_intent m (example_address 6) example_redemption (c_now gate_example_context)"
  obtain dec where dec: "evaluateGate ?i (gate_example_context\<lparr>c_mandates := [m]\<rparr>) = Inr dec"
    using evaluateGate_total [of "gate_example_context\<lparr>c_mandates := [m]\<rparr>" 1700000000000 ?i]
    by (auto simp: gate_example_context_def DEFAULT_GATE_CONFIG_def iso_range_def)
  have "normalizeAddress (ro_target example_redemption) = Inr (example_address 6)" by (simp add: example_redemption_def)
  with m(1) dec have run: "gateDelegationRedemption bare_delegation example_redemption (gate_example_context\<lparr>c_mandates := []\<rparr>) = Inr (?i, dec)"
    by (simp add: gateDelegationRedemption_def Let_def)
  with uncapped_redemption_refused [OF c _ run] show ?thesis by auto
qed

end
