(* ===== verification/Delegation_Signature.thy ===== *)
theory Delegation_Signature
  imports Delegation
begin

text \<open>
  Hashing and signing of delegations (erc7710/index.ts): the EIP-712 domain separator and struct hash, the
  typed-data hash, the signature of an externally owned account and its verification. Keccak, the curve
  and the typed-data hash come from optional packages: they are a record of functions that is absent when
  the import fails. The laws of the curve that the verification relies on are named hypotheses.
\<close>

record noble =
  nb_keccak :: "bytes \<Rightarrow> bytes"
  nb_sign :: "bytes \<Rightarrow> bytes \<Rightarrow> int \<times> int \<times> int"
  nb_recover :: "int \<times> int \<times> int \<Rightarrow> bytes \<Rightarrow> js_error + bytes"

record typed_data =
  td_name :: str
  td_version :: str
  td_chainId :: int
  td_verifyingContract :: str
  td_delegate :: str
  td_delegator :: str
  td_authority :: str
  td_caveats :: "(str \<times> str) list"
  td_salt :: int

record packages =
  pg_noble :: "noble option"
  pg_viem :: "(typed_data \<Rightarrow> str) option"

definition loadCrypto :: "packages \<Rightarrow> js_error + noble" where
  "loadCrypto p =
     (case pg_noble p of
        Some n \<Rightarrow> Inr n
      | None \<Rightarrow> Inl (Thrown (js ''ERC-7710 crypto requires the optional dependencies @noble/hashes and @noble/curves. Install them: npm i @noble/hashes @noble/curves'')))"

definition loadViem :: "packages \<Rightarrow> js_error + (typed_data \<Rightarrow> str)" where
  "loadViem p =
     (case pg_viem p of
        Some h \<Rightarrow> Inr h
      | None \<Rightarrow> Inl (Thrown (js ''ERC-7710 EIP-712 hashing requires the optional dependency viem. Install it: npm i viem'')))"

text \<open>\<open>TextEncoder.encode\<close>: UTF-8, an unpaired surrogate becomes U+FFFD.\<close>

definition utf8_code :: "nat \<Rightarrow> nat list" where
  "utf8_code c =
     (if c < 0x80 then [c]
      else if c < 0x800 then [0xc0 + c div 64, 0x80 + c mod 64]
      else if c < 0x10000 then [0xe0 + c div 4096, 0x80 + c div 64 mod 64, 0x80 + c mod 64]
      else [0xf0 + c div 262144, 0x80 + c div 4096 mod 64, 0x80 + c div 64 mod 64, 0x80 + c mod 64])"

fun utf8 :: "str \<Rightarrow> nat list" where
  "utf8 [] = []"
| "utf8 (c # s) =
     (if 0xd800 \<le> c \<and> c < 0xdc00
      then (case s of
              d # s' \<Rightarrow> if 0xdc00 \<le> d \<and> d < 0xe000
                then utf8_code (0x10000 + (c - 0xd800) * 1024 + (d - 0xdc00)) @ utf8 s'
                else utf8_code 0xfffd @ utf8 s
            | [] \<Rightarrow> utf8_code 0xfffd)
      else if 0xdc00 \<le> c \<and> c < 0xe000 then utf8_code 0xfffd @ utf8 s
      else utf8_code c @ utf8 s)"

definition text_bytes :: "str \<Rightarrow> bytes" where
  "text_bytes s = map of_nat (utf8 s)"

definition domainSeparator :: "packages \<Rightarrow> eip712_domain \<Rightarrow> js_error + str" where
  "domainSeparator pkg domain =
     bindE (loadCrypto pkg) (\<lambda>nb.
     bindE (concatBytes
        [Inr (nb_keccak nb (text_bytes EIP712_DOMAIN_TYPE_STRING)),
         Inr (nb_keccak nb (text_bytes (nullish (ed_name domain) (js ''DelegationManager'')))),
         Inr (nb_keccak nb (text_bytes (nullish (ed_version domain) (js ''1'')))),
         abiWord_int (ed_chainId domain),
         bindE (normalizeAddress (ed_verifyingContract domain)) abiWord_hex]) (\<lambda>bs.
     Inr (bytesToHex (nb_keccak nb bs))))"

definition caveat_hash :: "noble \<Rightarrow> caveat \<Rightarrow> js_error + bytes" where
  "caveat_hash nb c =
     bindE (hexToBytes (cv_terms c)) (\<lambda>terms.
     bindE (concatBytes
        [Inr (nb_keccak nb (text_bytes CAVEAT_TYPE_STRING)),
         bindE (normalizeAddress (cv_enforcer c)) abiWord_hex, Inr (nb_keccak nb terms)]) (\<lambda>bs.
     Inr (nb_keccak nb bs)))"

definition delegationStructHash :: "packages \<Rightarrow> delegation \<Rightarrow> js_error + str" where
  "delegationStructHash pkg d =
     bindE (loadCrypto pkg) (\<lambda>nb.
     bindE (mapE (caveat_hash nb) (dg_caveats d)) (\<lambda>caveats.
     bindE (concatBytes
        [Inr (nb_keccak nb (text_bytes DELEGATION_TYPE_STRING)),
         bindE (normalizeAddress (dg_delegate d)) abiWord_hex, bindE (normalizeAddress (dg_delegator d)) abiWord_hex,
         abiWord_hex (dg_authority d), Inr (nb_keccak nb (concat caveats)), abiWord_int (dg_salt d)]) (\<lambda>bs.
     Inr (bytesToHex (nb_keccak nb bs)))))"

text \<open>What is handed to the typed-data hash: the arguments and the signature of a delegation are not part of it.\<close>

definition typed_data_of :: "delegation \<Rightarrow> eip712_domain \<Rightarrow> js_error + typed_data" where
  "typed_data_of d domain =
     bindE (normalizeAddress (ed_verifyingContract domain)) (\<lambda>contract.
     bindE (normalizeAddress (dg_delegate d)) (\<lambda>delegate.
     bindE (normalizeAddress (dg_delegator d)) (\<lambda>delegator.
     bindE (mapE (\<lambda>c. bindE (normalizeAddress (cv_enforcer c)) (\<lambda>a. Inr (a, cv_terms c))) (dg_caveats d)) (\<lambda>caveats.
     Inr \<lparr>td_name = nullish (ed_name domain) (js ''DelegationManager''), td_version = nullish (ed_version domain) (js ''1''),
          td_chainId = ed_chainId domain, td_verifyingContract = contract, td_delegate = delegate,
          td_delegator = delegator, td_authority = dg_authority d, td_caveats = caveats, td_salt = dg_salt d\<rparr>))))"

definition delegationHash :: "packages \<Rightarrow> delegation \<Rightarrow> eip712_domain \<Rightarrow> js_error + str" where
  "delegationHash pkg d domain =
     bindE (loadViem pkg) (\<lambda>hashTypedData. bindE (typed_data_of d domain) (\<lambda>t. Inr (hashTypedData t)))"

definition addressFromPubKey :: "packages \<Rightarrow> bytes \<Rightarrow> js_error + str" where
  "addressFromPubKey pkg pub =
     bindE (loadCrypto pkg) (\<lambda>nb.
       let body = (if length pub = 65 then drop 1 pub else pub); hash = nb_keccak nb body
       in Inr (bytesToHex (drop (length hash - 20) hash)))"

definition signDelegation :: "packages \<Rightarrow> delegation \<Rightarrow> eip712_domain \<Rightarrow> bytes \<Rightarrow> js_error + delegation" where
  "signDelegation pkg d domain privKey =
     bindE (loadCrypto pkg) (\<lambda>nb.
     bindE (bindE (delegationHash pkg d domain) hexToBytes) (\<lambda>digest.
     case nb_sign nb digest privKey of
       (r, s, recovery) \<Rightarrow>
         bindE (concatBytes [abiWord_int r, abiWord_int s, Inr [word_of_int (27 + recovery)]]) (\<lambda>bs.
           Inr (d\<lparr>dg_signature := bytesToHex bs\<rparr>))))"

datatype signature_reason =
    SignatureLength nat
  | UnsupportedRecovery nat
  | RecoveryFailed js_error
  | SignerIsNotDelegator

record signature_result =
  sr_ok :: bool
  sr_signer :: "str option"
  sr_reason :: "signature_reason option"

definition check_signer :: "delegation \<Rightarrow> js_error + str \<Rightarrow> signature_result" where
  "check_signer d recovered =
     (case recovered of
        Inl e \<Rightarrow> \<lparr>sr_ok = False, sr_signer = None, sr_reason = Some (RecoveryFailed e)\<rparr>
      | Inr signer \<Rightarrow>
          if to_lower signer = to_lower (dg_delegator d)
          then \<lparr>sr_ok = True, sr_signer = Some signer, sr_reason = None\<rparr>
          else \<lparr>sr_ok = False, sr_signer = Some signer, sr_reason = Some SignerIsNotDelegator\<rparr>)"

definition verifyDelegation :: "packages \<Rightarrow> delegation \<Rightarrow> eip712_domain \<Rightarrow> js_error + signature_result" where
  "verifyDelegation pkg d domain =
     bindE (loadCrypto pkg) (\<lambda>nb.
     bindE (hexToBytes (dg_signature d)) (\<lambda>sigBytes.
     if length sigBytes \<noteq> 65
     then Inr \<lparr>sr_ok = False, sr_signer = None, sr_reason = Some (SignatureLength (length sigBytes))\<rparr>
     else
       let r = bytesToBigint (slice_bytes 0 32 sigBytes); s = bytesToBigint (slice_bytes 32 64 sigBytes);
           v = unat (sigBytes ! 64)
       in if v \<noteq> 27 \<and> v \<noteq> 28
          then Inr \<lparr>sr_ok = False, sr_signer = None, sr_reason = Some (UnsupportedRecovery v)\<rparr>
          else bindE (bindE (delegationHash pkg d domain) hexToBytes) (\<lambda>digest.
                 Inr (check_signer d (bindE (nb_recover nb (r, s, int v - 27) digest) (addressFromPubKey pkg))))))"

section \<open>What a signature binds\<close>

text \<open>
  The documented law of the curve for one key: a signature has a recovery bit and two 256-bit numbers, and
  recovers to the public key.
\<close>

definition curve_law :: "noble \<Rightarrow> bytes \<Rightarrow> bytes \<Rightarrow> bool" where
  "curve_law nb privKey pub \<longleftrightarrow>
     (\<forall>digest. case nb_sign nb digest privKey of (r, s, recovery) \<Rightarrow>
        0 \<le> r \<and> r < 2 ^ 256 \<and> 0 \<le> s \<and> s < 2 ^ 256 \<and> recovery \<in> {0, 1} \<and>
        nb_recover nb (r, s, recovery) digest = Inr pub)"

lemma delegationHash_signature [simp]: "delegationHash pkg (d\<lparr>dg_signature := x\<rparr>) domain = delegationHash pkg d domain"
  by (simp add: delegationHash_def typed_data_of_def)

lemma signature_bytes:
  assumes "0 \<le> r" "r < 2 ^ 256" "0 \<le> s" "s < 2 ^ 256" "recovery \<in> {0, 1 :: int}"
  shows "\<exists>bs. concatBytes [abiWord_int r, abiWord_int s, Inr [word_of_int (27 + recovery)]] = Inr bs \<and> length bs = 65 \<and>
    bytesToBigint (slice_bytes 0 32 bs) = r \<and> bytesToBigint (slice_bytes 32 64 bs) = s \<and> int (unat (bs ! 64)) = 27 + recovery"
proof -
  from uint256_field.enc_dec [of r] uint256_field.enc_dec [of s] assms(1-4) obtain u w where
    "abiWord_int r = Inr u" "length u = 32" "bytesToBigint u = r" "abiWord_int s = Inr w" "length w = 32" "bytesToBigint w = s" by blast
  moreover have "int (unat (word_of_int (27 + recovery) :: 8 word)) = 27 + recovery" using assms(5) by auto
  ultimately show ?thesis by (simp add: slice_bytes_def nth_append)
qed

lemma verify_signed:
  assumes "curve_law nb privKey pub" "pg_noble pkg = Some nb" "signDelegation pkg d domain privKey = Inr d'"
  shows "\<exists>digest. bindE (delegationHash pkg d domain) hexToBytes = Inr digest \<and>
    verifyDelegation pkg d' domain = Inr (check_signer d (addressFromPubKey pkg pub))"
proof -
  have load: "loadCrypto pkg = Inr nb" by (simp add: loadCrypto_def assms(2))
  from assms(3) obtain digest where digest: "bindE (delegationHash pkg d domain) hexToBytes = Inr digest"
    by (auto simp: signDelegation_def load bindE_Inr_iff)
  obtain r s recovery where sg: "nb_sign nb digest privKey = (r, s, recovery)" by (cases "nb_sign nb digest privKey")
  with assms(1) have law: "0 \<le> r" "r < 2 ^ 256" "0 \<le> s" "s < 2 ^ 256" "recovery \<in> {0, 1}" "nb_recover nb (r, s, recovery) digest = Inr pub"
    unfolding curve_law_def by (metis (mono_tags, lifting) case_prod_conv)+
  from signature_bytes [OF law(1-5)] obtain bs where
    bs: "concatBytes [abiWord_int r, abiWord_int s, Inr [word_of_int (27 + recovery)]] = Inr bs" "length bs = 65"
      "bytesToBigint (slice_bytes 0 32 bs) = r" "bytesToBigint (slice_bytes 32 64 bs) = s" "int (unat (bs ! 64)) = 27 + recovery" by blast
  have d': "d' = d\<lparr>dg_signature := bytesToHex bs\<rparr>"
    using assms(3) by (simp only: signDelegation_def load digest sg bs(1) bindE.simps prod.case sum.inject)
  have v: "unat (bs ! 64) = 27 \<or> unat (bs ! 64) = 28" using bs(5) law(5)
    by (simp del: of_nat_unat) linarith
  have recovery: "uint (bs ! 64) - 27 = recovery" using bs(5) by simp
  have "verifyDelegation pkg d' domain = Inr (check_signer d' (addressFromPubKey pkg pub))"
    using v recovery by (auto simp: verifyDelegation_def load d' bs(2-4) digest law(6) Let_def)
  with digest show ?thesis by (cases "addressFromPubKey pkg pub") (simp_all add: check_signer_def d')
qed

lemma typed_data_args:
  "typed_data_of (d\<lparr>dg_caveats := map (\<lambda>c. c\<lparr>cv_args := f c\<rparr>) (dg_caveats d)\<rparr>) domain = typed_data_of d domain"
proof -
  have "mapE (\<lambda>c. bindE (normalizeAddress (cv_enforcer c)) (\<lambda>a. Inr (a, cv_terms c))) (map (\<lambda>c. c\<lparr>cv_args := f c\<rparr>) cs) =
      mapE (\<lambda>c. bindE (normalizeAddress (cv_enforcer c)) (\<lambda>a. Inr (a, cv_terms c))) cs" for cs
    by (induction cs) simp_all
  then show ?thesis by (simp add: typed_data_of_def)
qed

text \<open>
  Property C40: what a signature of a delegation says. A delegation signed with a key verifies exactly when its
  delegator is the address of that key, in either case of its letters. The arguments of the caveats are
  not signed: with any others the verification answers the same.
\<close>

theorem signature_names_delegator:
  assumes "curve_law nb privKey pub" "pg_noble pkg = Some nb" "signDelegation pkg d domain privKey = Inr d'"
  shows "\<exists>res. verifyDelegation pkg d' domain = Inr res \<and>
      (sr_ok res \<longleftrightarrow> (\<exists>signer. addressFromPubKey pkg pub = Inr signer \<and> to_lower signer = to_lower (dg_delegator d))) \<and>
      verifyDelegation pkg (d'\<lparr>dg_caveats := map (\<lambda>c. c\<lparr>cv_args := f c\<rparr>) (dg_caveats d')\<rparr>) domain = Inr res"
proof -
  from verify_signed [OF assms] have res: "verifyDelegation pkg d' domain = Inr (check_signer d (addressFromPubKey pkg pub))" by blast
  have same: "check_signer (d'\<lparr>dg_caveats := cs\<rparr>) r = check_signer d' r" for cs r by (cases r) (simp_all add: check_signer_def)
  have "delegationHash pkg (d'\<lparr>dg_caveats := map (\<lambda>c. c\<lparr>cv_args := f c\<rparr>) (dg_caveats d')\<rparr>) domain = delegationHash pkg d' domain"
    by (simp add: delegationHash_def typed_data_args)
  then have "verifyDelegation pkg (d'\<lparr>dg_caveats := map (\<lambda>c. c\<lparr>cv_args := f c\<rparr>) (dg_caveats d')\<rparr>) domain = verifyDelegation pkg d' domain"
    by (simp add: verifyDelegation_def same Let_def cong: if_cong)
  with res show ?thesis by (auto simp: check_signer_def split: sum.split)
qed

text \<open>A curve whose only key is a fixed one, and a hash that gives every delegation the same digest.\<close>

definition example_packages :: packages where
  "example_packages =
     \<lparr>pg_noble = Some \<lparr>nb_keccak = (\<lambda>_. replicate 32 9), nb_sign = (\<lambda>_ _. (1, 2, 0)), nb_recover = (\<lambda>_ _. Inr (replicate 65 4))\<rparr>,
      pg_viem = Some (\<lambda>_. js ''0x'')\<rparr>"

lemma empty_hex [simp]: "hexToBytes (js ''0x'') = Inr []"
  by (simp add: hexToBytes_def Let_def starts_with_def)

theorem signature_names_delegator_witness:
  "\<exists>d' res. signDelegation example_packages (bare_delegation\<lparr>dg_delegator := example_address 9\<rparr>)
       \<lparr>ed_name = None, ed_version = None, ed_chainId = 1, ed_verifyingContract = example_address 1\<rparr> [] = Inr d' \<and>
     verifyDelegation example_packages d'
       \<lparr>ed_name = None, ed_version = None, ed_chainId = 1, ed_verifyingContract = example_address 1\<rparr> = Inr res \<and> sr_ok res"
proof -
  let ?d = "bare_delegation\<lparr>dg_delegator := example_address 9\<rparr>"
  let ?dom = "\<lparr>ed_name = None, ed_version = None, ed_chainId = 1, ed_verifyingContract = example_address 1\<rparr>"
  let ?nb = "\<lparr>nb_keccak = (\<lambda>_. replicate 32 9), nb_sign = (\<lambda>_ _. (1, 2, 0)), nb_recover = (\<lambda>_ _. Inr (replicate 65 4))\<rparr>"
  have law: "curve_law ?nb [] (replicate 65 4)" by (simp add: curve_law_def)
  have pkg: "pg_noble example_packages = Some ?nb" by (simp add: example_packages_def)
  from signature_bytes [of 1 2 0] obtain bs where
    bs: "concatBytes [abiWord_int 1, abiWord_int 2, Inr [word_of_int (27 + 0)]] = Inr bs" by auto
  have "bindE (delegationHash example_packages ?d ?dom) hexToBytes = Inr []"
    by (simp add: delegationHash_def loadViem_def example_packages_def typed_data_of_def bare_delegation_def)
  with bs have run: "signDelegation example_packages ?d ?dom [] = Inr (?d\<lparr>dg_signature := bytesToHex bs\<rparr>)"
    by (simp add: signDelegation_def loadCrypto_def pkg)
  have "addressFromPubKey example_packages (replicate 65 4) = Inr (example_address 9)"
    by (simp add: addressFromPubKey_def loadCrypto_def pkg Let_def example_address_def)
  with signature_names_delegator [OF law pkg run, of "\<lambda>_. []"] run show ?thesis by auto
qed

end
