(* ===== verification/Ap2.thy ===== *)
theory Ap2
  imports Gate Audit_Log
begin

text \<open>
  The agent payments protocol seam, \<open>src/ap2/index.ts\<close>: the three mandates as they travel on the wire,
  the maps between them and the kernel's mandates and intents, the gate behind a cart, the checks of a
  merchant's signature and of a payment's binding to its cart, and the parts of a message that carry them.

  A member that may be missing or null is a \<open>nullable\<close>; a member of unknown shape is a JSON value. What
  the code takes from packages or from the platform is the argument \<open>ap2_platform\<close>: the canonicaliser,
  the digest, the decoding of base64url, of JSON texts and the signature check. Nothing is assumed of
  it but where a property says so.
\<close>

section \<open>The wire types\<close>

datatype 'a nullable = Missing | Null | Present 'a

fun present :: "'a nullable \<Rightarrow> 'a option" where
  "present Missing = None"
| "present Null = None"
| "present (Present x) = Some x"

record intent_mandate =
  im_confirmation :: bool
  im_description :: str
  im_merchants :: "str list nullable"
  im_skus :: "str list nullable"
  im_refundability :: "bool nullable"
  im_expiry :: str

record currency_amount =
  ca_currency :: str
  ca_value :: jsnum

record payment_item =
  pi_label :: str
  pi_amount :: currency_amount
  pi_pending :: "bool option"
  pi_refund_period :: "jsnum option"

record payment_method =
  pm_supported :: str
  pm_data :: json

record payment_details =
  pd_id :: str
  pd_items :: "payment_item list"
  pd_total :: payment_item
  pd_shipping :: json
  pd_modifiers :: json

record payment_request =
  prq_methods :: "payment_method list"
  prq_details :: payment_details
  prq_options :: json
  prq_address :: json

record cart_contents =
  cc_id :: str
  cc_confirmation :: bool
  cc_request :: payment_request
  cc_expiry :: str
  cc_merchant :: str

record cart_mandate =
  cm_contents :: cart_contents
  cm_authorization :: "str nullable"

record payment_contents =
  pc_id :: str
  pc_details_id :: str
  pc_total :: payment_item
  pc_response :: json
  pc_merchant_agent :: str
  pc_timestamp :: str

record payment_mandate =
  py_contents :: payment_contents
  py_authorization :: "str nullable"

text \<open>The objects as the canonicaliser sees them.\<close>

fun nullable_json :: "('a \<Rightarrow> json) \<Rightarrow> 'a nullable \<Rightarrow> json" where
  "nullable_json f Missing = JUndef"
| "nullable_json f Null = JNull"
| "nullable_json f (Present x) = f x"

definition option_json :: "('a \<Rightarrow> json) \<Rightarrow> 'a option \<Rightarrow> json" where
  "option_json f x = (case x of Some y \<Rightarrow> f y | None \<Rightarrow> JUndef)"

definition strings_json :: "str list \<Rightarrow> json" where
  "strings_json xs = JArr (map JStr xs)"

definition intent_mandate_json :: "intent_mandate \<Rightarrow> json" where
  "intent_mandate_json im = JObj
     [(js ''user_cart_confirmation_required'', JBool (im_confirmation im)),
      (js ''natural_language_description'', JStr (im_description im)),
      (js ''merchants'', nullable_json strings_json (im_merchants im)),
      (js ''skus'', nullable_json strings_json (im_skus im)),
      (js ''requires_refundability'', nullable_json JBool (im_refundability im)),
      (js ''intent_expiry'', JStr (im_expiry im))]"

definition amount_members :: "currency_amount \<Rightarrow> (str \<times> json) list" where
  "amount_members a = [(js ''currency'', JStr (ca_currency a)), (js ''value'', JNum (ca_value a))]"

definition item_members :: "payment_item \<Rightarrow> (str \<times> json) list" where
  "item_members i =
     [(js ''label'', JStr (pi_label i)), (js ''amount'', JObj (amount_members (pi_amount i))),
      (js ''pending'', option_json JBool (pi_pending i)),
      (js ''refund_period'', option_json JNum (pi_refund_period i))]"

definition method_json :: "payment_method \<Rightarrow> json" where
  "method_json m = JObj [(js ''supported_methods'', JStr (pm_supported m)), (js ''data'', pm_data m)]"

definition details_members :: "payment_details \<Rightarrow> (str \<times> json) list" where
  "details_members d =
     [(js ''id'', JStr (pd_id d)), (js ''display_items'', JArr (map (JObj \<circ> item_members) (pd_items d))),
      (js ''total'', JObj (item_members (pd_total d))), (js ''shipping_options'', pd_shipping d),
      (js ''modifiers'', pd_modifiers d)]"

definition request_members :: "payment_request \<Rightarrow> (str \<times> json) list" where
  "request_members r =
     [(js ''method_data'', JArr (map method_json (prq_methods r))),
      (js ''details'', JObj (details_members (prq_details r))), (js ''options'', prq_options r),
      (js ''shipping_address'', prq_address r)]"

definition contents_members :: "cart_contents \<Rightarrow> (str \<times> json) list" where
  "contents_members c =
     [(js ''id'', JStr (cc_id c)), (js ''user_cart_confirmation_required'', JBool (cc_confirmation c)),
      (js ''payment_request'', JObj (request_members (cc_request c))),
      (js ''cart_expiry'', JStr (cc_expiry c)), (js ''merchant_name'', JStr (cc_merchant c))]"

definition cart_json :: "cart_mandate \<Rightarrow> json" where
  "cart_json c = JObj
     [(js ''contents'', JObj (contents_members (cm_contents c))),
      (js ''merchant_authorization'', nullable_json JStr (cm_authorization c))]"

definition payment_contents_json :: "payment_contents \<Rightarrow> json" where
  "payment_contents_json p = JObj
     [(js ''payment_mandate_id'', JStr (pc_id p)), (js ''payment_details_id'', JStr (pc_details_id p)),
      (js ''payment_details_total'', JObj (item_members (pc_total p))),
      (js ''payment_response'', pc_response p), (js ''merchant_agent'', JStr (pc_merchant_agent p)),
      (js ''timestamp'', JStr (pc_timestamp p))]"

definition payment_json :: "payment_mandate \<Rightarrow> json" where
  "payment_json p = JObj
     [(js ''payment_mandate_contents'', payment_contents_json (py_contents p)),
      (js ''user_authorization'', nullable_json JStr (py_authorization p))]"

section \<open>The platform\<close>

record 'k ap2_platform =
  ap_canonicalize :: "json \<Rightarrow> str"
  ap_sha256_hex :: "str \<Rightarrow> str"
  ap_base64url :: "str \<Rightarrow> nat list"
  ap_json_bytes :: "nat list \<Rightarrow> json option"
  ap_verify :: "str option \<Rightarrow> str \<Rightarrow> 'k \<Rightarrow> nat list \<Rightarrow> js_error + bool"

definition cartHash :: "'k ap2_platform \<Rightarrow> (json \<Rightarrow> str) \<Rightarrow> cart_contents \<Rightarrow> str" where
  "cartHash pf canon contents = ap_sha256_hex pf (canon (JObj (contents_members contents)))"

section \<open>Mandates\<close>

definition mandateToIntentMandate :: "mandate \<Rightarrow> str option \<Rightarrow> intent_mandate" where
  "mandateToIntentMandate m description =
     \<lparr>im_confirmation = True, im_description = nullish description (m_label m),
      im_merchants = (case m_scope m of ScopeAllowlist vs \<Rightarrow> Present vs | ScopeClass v \<Rightarrow> Null),
      im_skus = Null, im_refundability = Present False, im_expiry = m_expiresAt m\<rparr>"

record ingest_opts =
  io_id :: str
  io_label :: "str option"
  io_currency :: str
  io_allowedRails :: "rail_kind list"
  io_perTxCap :: jsnum
  io_perPeriodCap :: jsnum
  io_period :: period
  io_grantedAt :: str
  io_payeeClass :: "str option"

definition intentMandateToMandate :: "intent_mandate \<Rightarrow> ingest_opts \<Rightarrow> mandate" where
  "intentMandateToMandate im opts =
     \<lparr>m_id = io_id opts, m_label = nullish (io_label opts) (im_description im),
      m_scope = (case present (im_merchants im) of
                   Some vs \<Rightarrow> if length vs > 0 then ScopeAllowlist vs
                              else ScopeClass (nullish (io_payeeClass opts) (js ''ap2''))
                 | None \<Rightarrow> ScopeClass (nullish (io_payeeClass opts) (js ''ap2''))),
      m_currency = io_currency opts, m_allowedRails = io_allowedRails opts,
      m_perTxCap = io_perTxCap opts, m_perPeriodCap = io_perPeriodCap opts, m_period = io_period opts,
      m_grantedAt = io_grantedAt opts, m_expiresAt = im_expiry im, m_status = Active\<rparr>"

section \<open>Carts\<close>

definition DEFAULT_MINOR_UNITS_PER_MAJOR :: jsnum where
  "DEFAULT_MINOR_UNITS_PER_MAJOR = 100"

definition cartTotal :: "cart_mandate \<Rightarrow> jsnum \<Rightarrow> jsnum \<times> str" where
  "cartTotal cart minorUnitsPerMajor =
     (let total = pi_amount (pd_total (prq_details (cc_request (cm_contents cart))))
      in (math_round (ca_value total * minorUnitsPerMajor), ca_currency total))"

record cart_opts =
  co_id :: str
  co_payeeClass :: str
  co_rail :: rail_kind
  co_rationale :: str
  co_createdAt :: str
  co_minorUnits :: "jsnum option"

definition cartMandateToIntent :: "cart_mandate \<Rightarrow> cart_opts \<Rightarrow> payment_intent" where
  "cartMandateToIntent cart opts =
     (let (amount, currency) = cartTotal cart (nullish (co_minorUnits opts) DEFAULT_MINOR_UNITS_PER_MAJOR)
      in \<lparr>i_id = co_id opts, i_payee = cc_merchant (cm_contents cart), i_payeeClass = co_payeeClass opts,
          i_amount = amount, i_currency = currency, i_rail = co_rail opts,
          i_rationale = co_rationale opts, i_createdAt = co_createdAt opts\<rparr>)"

definition gateAp2Cart ::
  "cart_mandate \<Rightarrow> gate_context \<Rightarrow> cart_opts \<Rightarrow> js_error + (payment_intent \<times> gate_decision)" where
  "gateAp2Cart cart ctx opts =
     (let intent = cartMandateToIntent cart opts
      in bindE (evaluateGate intent ctx) (\<lambda>decision. Inr (intent, decision)))"

section \<open>The merchant's signature\<close>

definition b64urlJson :: "'k ap2_platform \<Rightarrow> str \<Rightarrow> json option" where
  "b64urlJson pf s = ap_json_bytes pf (ap_base64url pf s)"

definition algToDigest :: "json \<Rightarrow> str option option" where
  "algToDigest alg =
     (if alg = JStr (js ''EdDSA'') then Some None
      else if alg = JStr (js ''ES256'') then Some (Some (js ''sha256''))
      else if alg = JStr (js ''RS256'') then Some (Some (js ''sha256''))
      else None)"

datatype cart_fault =
    UnsignedCart
  | NotCompactJws
  | MalformedJwt
  | UnsupportedAlg json
  | AuthorizationExpired
  | AuthorizationFromFuture
  | KeyNotResolved
  | SignatureFailed
  | CartHashMismatch

record verify_cart_result =
  vc_ok :: bool
  vc_reason :: "cart_fault option"
  vc_cartHashOk :: bool
  vc_claims :: "json option"

record 'k verify_cart_opts =
  vo_resolveKey :: "json \<Rightarrow> json \<Rightarrow> str option \<Rightarrow> 'k option"
  vo_now :: jsnum
  vo_canonicalize :: "(json \<Rightarrow> str) option"
  vo_tolerance :: "jsnum option"

definition string_member :: "json \<Rightarrow> str option" where
  "string_member j = (case j of JStr s \<Rightarrow> Some s | _ \<Rightarrow> None)"

text \<open>Whether a claim that is a number lies before a bound: \<open>typeof x === "number" && ...\<close>.\<close>

definition number_claim :: "json \<Rightarrow> (jsnum \<Rightarrow> bool) \<Rightarrow> bool" where
  "number_claim j P = (case j of JNum x \<Rightarrow> P x | _ \<Rightarrow> False)"

definition cart_refused :: "cart_fault \<Rightarrow> bool \<Rightarrow> json option \<Rightarrow> verify_cart_result" where
  "cart_refused fault hashOk claims =
     \<lparr>vc_ok = False, vc_reason = Some fault, vc_cartHashOk = hashOk, vc_claims = claims\<rparr>"

text \<open>The checks on the three segments of the authorisation, in the order of the code.\<close>

definition check_authorization ::
  "'k ap2_platform \<Rightarrow> 'k verify_cart_opts \<Rightarrow> str \<Rightarrow> str \<Rightarrow> str \<Rightarrow> json \<Rightarrow> json \<Rightarrow> bool \<Rightarrow> verify_cart_result" where
  "check_authorization pf opts headerB64 payloadB64 sigB64 hdr claims cartHashOk =
     (case algToDigest (obj_get hdr (js ''alg'')) of
        None \<Rightarrow> cart_refused (UnsupportedAlg (obj_get hdr (js ''alg''))) cartHashOk (Some claims)
      | Some digest \<Rightarrow>
          let tolerance = nullish (vo_tolerance opts) 30;
              nowSec = math_floor (vo_now opts / 1000)
          in if number_claim (obj_get claims (js ''exp'')) (\<lambda>x. nowSec - tolerance > x)
             then cart_refused AuthorizationExpired cartHashOk (Some claims)
             else if number_claim (obj_get claims (js ''iat'')) (\<lambda>x. nowSec + tolerance < x)
             then cart_refused AuthorizationFromFuture cartHashOk (Some claims)
             else
               (case vo_resolveKey opts (obj_get hdr (js ''kid'')) (obj_get hdr (js ''alg''))
                       (string_member (obj_get claims (js ''iss''))) of
                  None \<Rightarrow> cart_refused KeyNotResolved cartHashOk (Some claims)
                | Some key \<Rightarrow>
                    if ap_verify pf digest (headerB64 @ js ''.'' @ payloadB64) key
                         (ap_base64url pf sigB64) \<noteq> Inr True
                    then cart_refused SignatureFailed cartHashOk (Some claims)
                    else if \<not> cartHashOk
                    then cart_refused CartHashMismatch cartHashOk (Some claims)
                    else \<lparr>vc_ok = True, vc_reason = None, vc_cartHashOk = cartHashOk,
                          vc_claims = Some claims\<rparr>))"

definition verifyCartMandate ::
  "'k ap2_platform \<Rightarrow> cart_mandate \<Rightarrow> 'k verify_cart_opts \<Rightarrow> verify_cart_result" where
  "verifyCartMandate pf cart opts =
     (let jwt = nullish (present (cm_authorization cart)) []
      in if jwt = [] then cart_refused UnsignedCart False None
         else
           (case split_char 46 jwt of
              [headerB64, payloadB64, sigB64] \<Rightarrow>
                let hdr = nullish (b64urlJson pf headerB64) JUndef;
                    claims = nullish (b64urlJson pf payloadB64) JUndef
                in if json_falsy hdr \<or> json_falsy claims then cart_refused MalformedJwt False None
                   else
                     let canon = nullish (vo_canonicalize opts) (ap_canonicalize pf);
                         cartHashOk = (obj_get claims (js ''cart_hash'') = JStr (cartHash pf canon (cm_contents cart)))
                     in check_authorization pf opts headerB64 payloadB64 sigB64 hdr claims cartHashOk
            | _ \<Rightarrow> cart_refused NotCompactJws False None))"

section \<open>The payment's binding\<close>

definition readTransactionData :: "'k ap2_platform \<Rightarrow> str nullable \<Rightarrow> str list option" where
  "readTransactionData pf userAuth =
     (case present userAuth of
        None \<Rightarrow> None
      | Some auth \<Rightarrow>
          if auth = [] then None
          else
            let segments = filter (\<lambda>s. length s > 0) (split_char 126 auth)
            in if segments = [] then None
               else
                 (case split_char 46 (last segments) of
                    [h, payload, s] \<Rightarrow>
                      (case obj_get (nullish (b64urlJson pf payload) JUndef) (js ''transaction_data'') of
                         JArr xs \<Rightarrow> Some (List.map_filter string_member xs)
                       | _ \<Rightarrow> None)
                  | _ \<Rightarrow> None))"

datatype binding_fault =
    DetailsIdMismatch str str
  | NoTransactionData
  | MissingCartHash
  | MissingContentsHash

definition verifyPaymentMandateBinding ::
  "'k ap2_platform \<Rightarrow> payment_mandate \<Rightarrow> cart_mandate \<Rightarrow> (json \<Rightarrow> str) option \<Rightarrow> (str \<Rightarrow> str) option \<Rightarrow>
     binding_fault option" where
  "verifyPaymentMandateBinding pf pm cart canonicalizer hasher =
     (let canon = nullish canonicalizer (ap_canonicalize pf);
          hash = nullish hasher (ap_sha256_hex pf);
          cartDetailsId = pd_id (prq_details (cc_request (cm_contents cart)))
      in if pc_details_id (py_contents pm) \<noteq> cartDetailsId
         then Some (DetailsIdMismatch (pc_details_id (py_contents pm)) cartDetailsId)
         else
           (case readTransactionData pf (py_authorization pm) of
              None \<Rightarrow> Some NoTransactionData
            | Some td \<Rightarrow>
                if hash (canon (cart_json cart)) \<notin> set td then Some MissingCartHash
                else if hash (canon (payment_contents_json (py_contents pm))) \<notin> set td
                then Some MissingContentsHash
                else None))"

section \<open>Message parts\<close>

datatype mandate_part = IntentPart | CartPart | PaymentPart

fun AP2_DATA_KEYS :: "mandate_part \<Rightarrow> str" where
  "AP2_DATA_KEYS IntentPart = js ''ap2.mandates.IntentMandate''"
| "AP2_DATA_KEYS CartPart = js ''ap2.mandates.CartMandate''"
| "AP2_DATA_KEYS PaymentPart = js ''ap2.mandates.PaymentMandate''"

record data_part =
  dp_kind :: "str option"
  dp_data :: "(str \<times> json) list option"

definition toAp2DataPart :: "mandate_part \<Rightarrow> json \<Rightarrow> data_part" where
  "toAp2DataPart kind mandate = \<lparr>dp_kind = Some (js ''data''), dp_data = Some [(AP2_DATA_KEYS kind, mandate)]\<rparr>"

record read_mandates =
  rm_intent :: "json option"
  rm_cart :: "json option"
  rm_payment :: "json option"

definition read_part :: "data_part \<Rightarrow> read_mandates \<Rightarrow> read_mandates" where
  "read_part part out =
     (case dp_data part of
        None \<Rightarrow> out
      | Some kvs \<Rightarrow>
          let look = (\<lambda>kind old. let v = obj_get (JObj kvs) (AP2_DATA_KEYS kind)
                                 in if v \<noteq> JUndef then Some v else old)
          in \<lparr>rm_intent = look IntentPart (rm_intent out), rm_cart = look CartPart (rm_cart out),
              rm_payment = look PaymentPart (rm_payment out)\<rparr>)"

definition readAp2Mandates :: "data_part list option \<Rightarrow> read_mandates" where
  "readAp2Mandates parts =
     foldl (\<lambda>out part. read_part part out) \<lparr>rm_intent = None, rm_cart = None, rm_payment = None\<rparr>
       (nullish parts [])"

section \<open>What a verified cart has passed\<close>

lemma check_authorization_ok:
  assumes "vc_ok (check_authorization pf opts h p s hdr claims hashOk)"
  obtains digest key where "algToDigest (obj_get hdr (js ''alg'')) = Some digest"
    "vo_resolveKey opts (obj_get hdr (js ''kid'')) (obj_get hdr (js ''alg''))
       (string_member (obj_get claims (js ''iss''))) = Some key"
    "ap_verify pf digest (h @ js ''.'' @ p) key (ap_base64url pf s) = Inr True" "hashOk"
    "\<not> number_claim (obj_get claims (js ''exp''))
        (\<lambda>x. math_floor (vo_now opts / 1000) - nullish (vo_tolerance opts) 30 > x)"
    "\<not> number_claim (obj_get claims (js ''iat''))
        (\<lambda>x. math_floor (vo_now opts / 1000) + nullish (vo_tolerance opts) 30 < x)"
proof -
  let ?exp = "number_claim (obj_get claims (js ''exp''))
    (\<lambda>x. math_floor (vo_now opts / 1000) - nullish (vo_tolerance opts) 30 > x)"
  let ?iat = "number_claim (obj_get claims (js ''iat''))
    (\<lambda>x. math_floor (vo_now opts / 1000) + nullish (vo_tolerance opts) 30 < x)"
  let ?key = "vo_resolveKey opts (obj_get hdr (js ''kid'')) (obj_get hdr (js ''alg''))
    (string_member (obj_get claims (js ''iss'')))"
  note step = check_authorization_def Let_def cart_refused_def
  obtain digest where alg: "algToDigest (obj_get hdr (js ''alg'')) = Some digest"
    using assms by (cases "algToDigest (obj_get hdr (js ''alg''))") (simp_all add: step)
  have window: "\<not> ?exp" "\<not> ?iat"
    using assms by (cases ?exp; cases ?iat; simp add: step alg)+
  obtain key where key: "?key = Some key"
    using assms window by (cases ?key) (simp_all add: step alg)
  have "ap_verify pf digest (h @ js ''.'' @ p) key (ap_base64url pf s) = Inr True" "hashOk"
    using assms window by (simp_all add: step alg key split: if_splits)
  with alg key window show ?thesis by (intro that)
qed

lemma verifyCartMandate_ok:
  assumes "vc_ok (verifyCartMandate pf cart opts)"
  obtains jwt h p s hdr claims where
    "cm_authorization cart = Present jwt" "split_char 46 jwt = [h, p, s]"
    "b64urlJson pf h = Some hdr" "b64urlJson pf p = Some claims"
    "obj_get claims (js ''cart_hash'') =
       JStr (cartHash pf (nullish (vo_canonicalize opts) (ap_canonicalize pf)) (cm_contents cart))"
    "verifyCartMandate pf cart opts = check_authorization pf opts h p s hdr claims True"
proof -
  let ?jwt = "nullish (present (cm_authorization cart)) []"
  have ne: "?jwt \<noteq> []" using assms by (auto simp: verifyCartMandate_def cart_refused_def Let_def)
  then have pres: "cm_authorization cart = Present ?jwt" by (cases "cm_authorization cart") auto
  note step = verifyCartMandate_def Let_def cart_refused_def
  obtain h p s where sp: "split_char 46 ?jwt = [h, p, s]"
  proof -
    have "\<exists>h p s. split_char 46 ?jwt = [h, p, s]"
    proof (rule ccontr)
      assume "\<nexists>h p s. split_char 46 ?jwt = [h, p, s]"
      then show False using assms ne by (simp add: step split: list.splits)
    qed
    with that show ?thesis by blast
  qed
  let ?hdr = "nullish (b64urlJson pf h) JUndef" and ?cl = "nullish (b64urlJson pf p) JUndef"
  let ?ok = "obj_get ?cl (js ''cart_hash'') =
    JStr (cartHash pf (nullish (vo_canonicalize opts) (ap_canonicalize pf)) (cm_contents cart))"
  have falsy: "\<not> json_falsy ?hdr" "\<not> json_falsy ?cl"
    using assms ne sp by (cases "json_falsy ?hdr"; cases "json_falsy ?cl"; simp add: step)+
  then have run: "verifyCartMandate pf cart opts = check_authorization pf opts h p s ?hdr ?cl ?ok"
    using ne sp by (simp add: step)
  with assms have "vc_ok (check_authorization pf opts h p s ?hdr ?cl ?ok)" by simp
  then have ok: ?ok by (rule check_authorization_ok)
  have "b64urlJson pf h = Some ?hdr" "b64urlJson pf p = Some ?cl"
    using falsy by (cases "b64urlJson pf h"; cases "b64urlJson pf p"; simp add: json_falsy_def)+
  moreover from run ok have "verifyCartMandate pf cart opts = check_authorization pf opts h p s ?hdr ?cl True"
    by simp
  ultimately show ?thesis using that [OF pres sp] ok by blast
qed

section \<open>What the canonical text of a cart fixes\<close>

lemmas wire_members = contents_members_def request_members_def details_members_def item_members_def
  amount_members_def

text \<open>A canonicaliser keeps everything of a value but the order of keys and the undefined members.\<close>

definition canon_faithful :: "(json \<Rightarrow> str) \<Rightarrow> bool" where
  "canon_faithful canon \<longleftrightarrow> (\<forall>v w. canon v = canon w \<longrightarrow> json_norm v = json_norm w)"

lemma canon_faithful_canonicalize: "num_ok num \<Longrightarrow> canon_faithful (canonicalize num)"
  unfolding canon_faithful_def
proof (intro allI impI)
  fix v w
  assume "num_ok num" "canonicalize num v = canonicalize num w"
  then show "json_norm v = json_norm w"
    using canonicalize_inject [of num "[]" "[]" v w] by simp
qed

lemma wire_distinct [simp]:
  "distinct (map fst (contents_members c))" "distinct (map fst (request_members r))"
  "distinct (map fst (details_members d))" "distinct (map fst (item_members i))"
  "distinct (map fst (amount_members a))"
  by (simp_all add: wire_members)

lemma contents_norm_payment:
  assumes "json_norm (JObj (contents_members c)) = json_norm (JObj (contents_members c'))"
  shows "cc_merchant c = cc_merchant c'" "cc_expiry c = cc_expiry c'"
    "pi_amount (pd_total (prq_details (cc_request c))) = pi_amount (pd_total (prq_details (cc_request c')))"
proof -
  note top = norm_member_eq [OF assms wire_distinct(1) wire_distinct(1)]
  show "cc_merchant c = cc_merchant c'" "cc_expiry c = cc_expiry c'"
    using top [of "js ''merchant_name''"] top [of "js ''cart_expiry''"]
    by (simp_all add: norm_member_def contents_members_def)
  let ?r = "cc_request c" and ?r' = "cc_request c'"
  let ?d = "prq_details ?r" and ?d' = "prq_details ?r'"
  have r: "json_norm (JObj (request_members ?r)) = json_norm (JObj (request_members ?r'))"
    using top [of "js ''payment_request''"] by (simp add: norm_member_def contents_members_def del: json_norm.simps)
  have d: "json_norm (JObj (details_members ?d)) = json_norm (JObj (details_members ?d'))"
    using norm_member_eq [OF r wire_distinct(2) wire_distinct(2), of "js ''details''"]
    by (simp add: norm_member_def request_members_def del: json_norm.simps)
  have t: "json_norm (JObj (item_members (pd_total ?d))) = json_norm (JObj (item_members (pd_total ?d')))"
    using norm_member_eq [OF d wire_distinct(3) wire_distinct(3), of "js ''total''"]
    by (simp add: norm_member_def details_members_def del: json_norm.simps)
  have a: "json_norm (JObj (amount_members (pi_amount (pd_total ?d)))) =
      json_norm (JObj (amount_members (pi_amount (pd_total ?d'))))"
    using norm_member_eq [OF t wire_distinct(4) wire_distinct(4), of "js ''amount''"]
    by (simp add: norm_member_def item_members_def del: json_norm.simps)
  note amount = norm_member_eq [OF a wire_distinct(5) wire_distinct(5)]
  show "pi_amount (pd_total ?d) = pi_amount (pd_total ?d')"
    using amount [of "js ''currency''"] amount [of "js ''value''"]
    by (simp add: norm_member_def amount_members_def)
qed

lemma contents_norm_intent:
  "json_norm (JObj (contents_members (cm_contents c))) = json_norm (JObj (contents_members (cm_contents c'))) \<Longrightarrow>
     cartMandateToIntent c opts = cartMandateToIntent c' opts"
  using contents_norm_payment [of "cm_contents c" "cm_contents c'"]
  by (simp add: cartMandateToIntent_def cartTotal_def Let_def)

lemma same_hash_same_intent:
  assumes "canon_faithful canon"
    and "inj_on (ap_sha256_hex pf) {canon (JObj (contents_members (cm_contents c))),
           canon (JObj (contents_members (cm_contents c')))}"
    and "cartHash pf canon (cm_contents c) = cartHash pf canon (cm_contents c')"
  shows "cartMandateToIntent c opts = cartMandateToIntent c' opts"
proof (rule contents_norm_intent)
  have "canon (JObj (contents_members (cm_contents c))) = canon (JObj (contents_members (cm_contents c')))"
    by (rule inj_onD [OF assms(2)]) (use assms(3) in \<open>simp_all add: cartHash_def\<close>)
  with assms(1) show "json_norm (JObj (contents_members (cm_contents c))) =
      json_norm (JObj (contents_members (cm_contents c')))"
    unfolding canon_faithful_def by blast
qed

lemma math_round_error: "\<bar>math_round x - x\<bar> \<le> 1 / 2"
  using math_round_bounds [of x] by linarith

section \<open>Message parts, one kind at a time\<close>

fun rm_get :: "mandate_part \<Rightarrow> read_mandates \<Rightarrow> json option" where
  "rm_get IntentPart = rm_intent"
| "rm_get CartPart = rm_cart"
| "rm_get PaymentPart = rm_payment"

lemma key_inject [simp]: "AP2_DATA_KEYS k = AP2_DATA_KEYS k' \<longleftrightarrow> k = k'"
  by (cases k; cases k') simp_all

lemma rm_get_read_part:
  "rm_get k (read_part part out) =
     (case dp_data part of None \<Rightarrow> rm_get k out
      | Some kvs \<Rightarrow> let v = obj_get (JObj kvs) (AP2_DATA_KEYS k) in if v \<noteq> JUndef then Some v else rm_get k out)"
  by (cases k) (simp_all add: read_part_def Let_def split: option.split)

lemma rm_get_packed:
  "j \<noteq> JUndef \<Longrightarrow> rm_get k (read_part (toAp2DataPart k' j) out) = (if k' = k then Some j else rm_get k out)"
  by (simp add: rm_get_read_part toAp2DataPart_def obj_get_def Let_def nullish_def)

lemma wire_json_defined [simp]: "intent_mandate_json i \<noteq> JUndef" "cart_json c \<noteq> JUndef" "payment_json p \<noteq> JUndef"
  by (simp_all add: intent_mandate_json_def cart_json_def payment_json_def)

section \<open>Properties\<close>

text \<open>
  Fact: what acceptance of a merchant's signature means. An accepted cart carries a
  compact signature of three segments under a supported algorithm, the merchant's resolved key verifies
  it over the two signed segments, the clock lies in the signed window (thirty seconds of tolerance by
  default), and the signed hash is that of the canonical contents. An unsigned cart is never accepted.
\<close>

theorem verified_cart_is_signed:
  assumes "vc_ok (verifyCartMandate pf cart opts)"
  shows "\<exists>jwt h p s hdr claims digest key.
    cm_authorization cart = Present jwt \<and> split_char 46 jwt = [h, p, s] \<and>
    b64urlJson pf h = Some hdr \<and> b64urlJson pf p = Some claims \<and>
    algToDigest (obj_get hdr (js ''alg'')) = Some digest \<and>
    vo_resolveKey opts (obj_get hdr (js ''kid'')) (obj_get hdr (js ''alg''))
      (string_member (obj_get claims (js ''iss''))) = Some key \<and>
    ap_verify pf digest (h @ js ''.'' @ p) key (ap_base64url pf s) = Inr True \<and>
    \<not> number_claim (obj_get claims (js ''exp''))
        (\<lambda>x. math_floor (vo_now opts / 1000) - nullish (vo_tolerance opts) 30 > x) \<and>
    obj_get claims (js ''cart_hash'') =
      JStr (cartHash pf (nullish (vo_canonicalize opts) (ap_canonicalize pf)) (cm_contents cart))"
proof -
  from verifyCartMandate_ok [OF assms] obtain jwt h p s hdr claims where v:
    "cm_authorization cart = Present jwt" "split_char 46 jwt = [h, p, s]"
    "b64urlJson pf h = Some hdr" "b64urlJson pf p = Some claims"
    "obj_get claims (js ''cart_hash'') =
       JStr (cartHash pf (nullish (vo_canonicalize opts) (ap_canonicalize pf)) (cm_contents cart))"
    "verifyCartMandate pf cart opts = check_authorization pf opts h p s hdr claims True" .
  from assms v(6) have "vc_ok (check_authorization pf opts h p s hdr claims True)" by simp
  from check_authorization_ok [OF this] v show ?thesis by metis
qed

text \<open>
  Property C32: a merchant's signature fixes the payment. Two carts under one authorisation that are
  both accepted give the same payment intent, and so the same verdict of the gate: neither the payee, the
  amount nor the currency can be changed after signing, short of a collision of the digest.
\<close>

theorem verified_cart_fixes_payment:
  assumes "vc_ok (verifyCartMandate pf cart vopts)" "vc_ok (verifyCartMandate pf cart' vopts)"
    and "cm_authorization cart = cm_authorization cart'"
    and "canon = nullish (vo_canonicalize vopts) (ap_canonicalize pf)" "canon_faithful canon"
    and "inj_on (ap_sha256_hex pf) {canon (JObj (contents_members (cm_contents cart))),
           canon (JObj (contents_members (cm_contents cart')))}"
  shows "gateAp2Cart cart ctx opts = gateAp2Cart cart' ctx opts"
proof -
  from verifyCartMandate_ok [OF assms(1)] obtain jwt h p s claims where c:
    "cm_authorization cart = Present jwt" "split_char 46 jwt = [h, p, s]" "b64urlJson pf p = Some claims"
    "obj_get claims (js ''cart_hash'') = JStr (cartHash pf canon (cm_contents cart))"
    unfolding assms(4) by metis
  from verifyCartMandate_ok [OF assms(2)] obtain jwt' h' p' s' claims' where c':
    "cm_authorization cart' = Present jwt'" "split_char 46 jwt' = [h', p', s']" "b64urlJson pf p' = Some claims'"
    "obj_get claims' (js ''cart_hash'') = JStr (cartHash pf canon (cm_contents cart'))"
    unfolding assms(4) by metis
  from c c' assms(3) have "cartHash pf canon (cm_contents cart) = cartHash pf canon (cm_contents cart')" by simp
  from same_hash_same_intent [OF assms(5,6) this] show ?thesis by (simp add: gateAp2Cart_def)
qed

text \<open>
  Fact: a cart auto-executes only within the operator's policy: the payment is to the merchant
  the cart names, of its total rounded to minor units (by at most half of one), in its currency, and a
  live mandate of the context covers it under both caps.
\<close>

theorem ap2_cart_within_policy:
  assumes "gateAp2Cart cart ctx opts = Inr (intent, d)" "gd_outcome d = AutoExecute"
  shows "i_payee intent = cc_merchant (cm_contents cart) \<and>
    i_currency intent = ca_currency (pi_amount (pd_total (prq_details (cc_request (cm_contents cart))))) \<and>
    \<bar>i_amount intent - ca_value (pi_amount (pd_total (prq_details (cc_request (cm_contents cart))))) *
       nullish (co_minorUnits opts) 100\<bar> \<le> 1 / 2 \<and>
    (\<exists>m sp ws. m \<in> set (c_mandates ctx) \<and> gd_mandateId d = Some (m_id m) \<and>
       c_periodSpend ctx (m_id m) = Inr sp \<and> may_auto intent ctx m sp ws)"
proof -
  from assms(1) have intent: "intent = cartMandateToIntent cart opts" and gate: "evaluateGate intent ctx = Inr d"
    by (auto simp: gateAp2Cart_def Let_def bindE_Inr_iff)
  have "i_amount intent = math_round (ca_value (pi_amount (pd_total (prq_details (cc_request (cm_contents cart))))) *
      nullish (co_minorUnits opts) 100)" "i_payee intent = cc_merchant (cm_contents cart)"
    "i_currency intent = ca_currency (pi_amount (pd_total (prq_details (cc_request (cm_contents cart)))))"
    by (simp_all add: intent cartMandateToIntent_def cartTotal_def Let_def DEFAULT_MINOR_UNITS_PER_MAJOR_def)
  moreover from gate_auto_sound [OF gate assms(2)]
  have "\<exists>m sp ws. m \<in> set (c_mandates ctx) \<and> gd_mandateId d = Some (m_id m) \<and>
       c_periodSpend ctx (m_id m) = Inr sp \<and> may_auto intent ctx m sp ws" by blast
  ultimately show ?thesis using math_round_error by metis
qed

text \<open>
  Fact: a mandate sent out as an intent mandate and taken in again with its own id, caps, currency,
  rails, period and grant time is the same mandate, provided that it is active and its allowlist, if it
  has one, is not empty; the class of a class mandate has to be supplied again.
\<close>

theorem ap2_mandate_round_trip:
  assumes "m_status m = Active" "m_scope m \<noteq> ScopeAllowlist []"
    and "case m_scope m of ScopeClass v \<Rightarrow> io_payeeClass opts = Some v | ScopeAllowlist vs \<Rightarrow> True"
    and "io_id opts = m_id m" "io_label opts = None" "io_currency opts = m_currency m"
      "io_allowedRails opts = m_allowedRails m" "io_perTxCap opts = m_perTxCap m"
      "io_perPeriodCap opts = m_perPeriodCap m" "io_period opts = m_period m" "io_grantedAt opts = m_grantedAt m"
  shows "intentMandateToMandate (mandateToIntentMandate m None) opts = m"
  using assms
  by (intro mandate.equality)
    (auto simp: intentMandateToMandate_def mandateToIntentMandate_def split: payee_scope.splits)

text \<open>
  Fact: the two provisos are needed. An allowlist of nobody covers no payment, and a revoked mandate
  is not live; each comes back from the same round trip as an active mandate that covers payments.
\<close>

theorem ap2_round_trip_widens:
  assumes "m_scope m = ScopeAllowlist [] \<or> m_status m = Revoked" "io_allowedRails opts = m_allowedRails m"
    and "m_allowedRails m = rail # rails"
  shows "(\<forall>intent now convert. \<not> (isLiveMandate m now \<and> covers m intent convert)) \<and>
    (m_scope m = ScopeAllowlist [] \<longrightarrow>
      (\<exists>intent. covers (intentMandateToMandate (mandateToIntentMandate m None) opts) intent None)) \<and>
    (\<forall>now. now < m_expiresAt m \<longrightarrow>
       isLiveMandate (intentMandateToMandate (mandateToIntentMandate m None) opts) now)"
proof (intro conjI allI impI)
  show "\<not> (isLiveMandate m now \<and> covers m intent convert)" for intent now convert
    using assms(1) by (auto simp: isLiveMandate_def covers_def Let_def)
  show "isLiveMandate (intentMandateToMandate (mandateToIntentMandate m None) opts) now"
    if "now < m_expiresAt m" for now
    using that by (simp add: isLiveMandate_def intentMandateToMandate_def mandateToIntentMandate_def)
  assume "m_scope m = ScopeAllowlist []"
  then have "covers (intentMandateToMandate (mandateToIntentMandate m None) opts)
      \<lparr>i_id = [], i_payee = [], i_payeeClass = nullish (io_payeeClass opts) (js ''ap2''), i_amount = 1,
       i_currency = io_currency opts, i_rail = rail, i_rationale = [], i_createdAt = []\<rparr> None"
    using assms(2,3) by (simp add: covers_def intentMandateToMandate_def mandateToIntentMandate_def)
  then show "\<exists>intent. covers (intentMandateToMandate (mandateToIntentMandate m None) opts) intent None" ..
qed

text \<open>
  Fact: packing and reading the parts of a message. From a message of packed mandates each kind
  is read back as the last one packed, and a kind that was not packed is absent.
\<close>

theorem ap2_parts_round_trip:
  assumes "\<forall>(k, j) \<in> set parts. j \<noteq> JUndef"
  shows "rm_get k (readAp2Mandates (Some (map (\<lambda>(k, j). toAp2DataPart k j) parts))) = map_of (rev parts) k"
proof -
  have "rm_get k (foldl (\<lambda>out part. read_part part out) out (map (\<lambda>(k, j). toAp2DataPart k j) parts)) =
      (case map_of (rev parts) k of Some j \<Rightarrow> Some j | None \<Rightarrow> rm_get k out)" for out
    using assms
    by (induction parts arbitrary: out) (auto simp: rm_get_packed map_add_def split: option.splits)
  moreover have "rm_get k \<lparr>rm_intent = None, rm_cart = None, rm_payment = None\<rparr> = None" by (cases k) simp_all
  ultimately show ?thesis by (simp add: readAp2Mandates_def split: option.split)
qed

text \<open>
  Fact: the seam itself does not look at the signature. Whatever verdict the gate gives a cart, it
  gives the same verdict to that cart unsigned, with any expiry and any confirmation flag, though the
  check of the signature refuses the unsigned cart on every platform.
\<close>

theorem ap2_gate_ignores_signature:
  "gateAp2Cart (cart\<lparr>cm_authorization := Missing,
       cm_contents := (cm_contents cart)\<lparr>cc_expiry := expiry, cc_confirmation := confirm\<rparr>\<rparr>) ctx opts =
     gateAp2Cart cart ctx opts \<and>
   \<not> vc_ok (verifyCartMandate pf (cart\<lparr>cm_authorization := Missing,
       cm_contents := (cm_contents cart)\<lparr>cc_expiry := expiry, cc_confirmation := confirm\<rparr>\<rparr>) vopts)"
  by (simp add: gateAp2Cart_def cartMandateToIntent_def cartTotal_def verifyCartMandate_def cart_refused_def Let_def)

lemma binding_ok:
  "verifyPaymentMandateBinding pf pm cart canonicalizer hasher = None \<longleftrightarrow>
     pc_details_id (py_contents pm) = pd_id (prq_details (cc_request (cm_contents cart))) \<and>
     (\<exists>td. readTransactionData pf (py_authorization pm) = Some td \<and>
        nullish hasher (ap_sha256_hex pf) (nullish canonicalizer (ap_canonicalize pf) (cart_json cart)) \<in> set td \<and>
        nullish hasher (ap_sha256_hex pf)
          (nullish canonicalizer (ap_canonicalize pf) (payment_contents_json (py_contents pm))) \<in> set td)"
  by (simp add: verifyPaymentMandateBinding_def Let_def split: option.split)

lemma cart_not_payment: "json_norm (cart_json c) \<noteq> json_norm (payment_contents_json p)"
proof
  assume "json_norm (cart_json c) = json_norm (payment_contents_json p)"
  from norm_member_eq [OF this [unfolded cart_json_def payment_contents_json_def], of "js ''contents''"]
  show False by (simp add: norm_member_def)
qed

lemma cart_norm_contents:
  assumes "json_norm (cart_json c) = json_norm (cart_json c')"
  shows "json_norm (JObj (contents_members (cm_contents c))) = json_norm (JObj (contents_members (cm_contents c')))"
  using norm_member_eq [OF assms [unfolded cart_json_def], of "js ''contents''"]
  by (simp add: norm_member_def del: json_norm.simps)

lemma cart_json_norm:
  assumes "cm_authorization c = cm_authorization c'"
    and "json_norm (JObj (contents_members (cm_contents c))) = json_norm (JObj (contents_members (cm_contents c')))"
  shows "json_norm (cart_json c) = json_norm (cart_json c')"
proof -
  have "json_norm (JObj [(js ''contents'', x), (k, y)]) = json_norm (JObj [(js ''contents'', x'), (k, y)])"
    if "json_norm x = json_norm x'" "x \<noteq> JUndef" "x' \<noteq> JUndef" for x x' k y
    using that by (auto simp: insort_key_def)
  from this [OF assms(2)] show ?thesis by (simp add: cart_json_def assms(1) del: json_norm.simps)
qed

text \<open>
  Property C33: a payment mandate settles one cart. When the user's authorisation lists two hashes, as the
  protocol has it, and two carts both pass the binding check, the two carts give the same payment and
  the same verdict, short of a collision of the digest.
\<close>

theorem payment_binds_one_cart:
  assumes "verifyPaymentMandateBinding pf pm cart None None = None"
    and "verifyPaymentMandateBinding pf pm cart' None None = None"
    and "readTransactionData pf (py_authorization pm) = Some [a, b]"
    and "canon_faithful (ap_canonicalize pf)"
    and "inj_on (ap_sha256_hex pf) {ap_canonicalize pf (cart_json cart), ap_canonicalize pf (cart_json cart'),
           ap_canonicalize pf (payment_contents_json (py_contents pm))}"
  shows "gateAp2Cart cart ctx opts = gateAp2Cart cart' ctx opts"
proof -
  let ?h = "\<lambda>j. ap_sha256_hex pf (ap_canonicalize pf j)"
  let ?pay = "payment_contents_json (py_contents pm)"
  have faithful: "json_norm v = json_norm w" if "ap_canonicalize pf v = ap_canonicalize pf w" for v w
    using assms(4) that unfolding canon_faithful_def by blast
  have differs: "?h (cart_json c) \<noteq> ?h ?pay" if "c = cart \<or> c = cart'" for c
  proof
    assume "?h (cart_json c) = ?h ?pay"
    from inj_onD [OF assms(5) this] that have "ap_canonicalize pf (cart_json c) = ap_canonicalize pf ?pay" by blast
    with faithful cart_not_payment show False by blast
  qed
  have "?h (cart_json cart) \<in> {a, b}" "?h (cart_json cart') \<in> {a, b}" "?h ?pay \<in> {a, b}"
    using assms(1-3) by (simp_all add: binding_ok)
  with differs [of cart] differs [of cart'] have "?h (cart_json cart) = ?h (cart_json cart')" by auto
  from inj_onD [OF assms(5) this] have "ap_canonicalize pf (cart_json cart) = ap_canonicalize pf (cart_json cart')"
    by blast
  then have "json_norm (cart_json cart) = json_norm (cart_json cart')" by (rule faithful)
  from contents_norm_intent [OF cart_norm_contents [OF this]] show ?thesis by (simp add: gateAp2Cart_def)
qed

section \<open>A concrete cart\<close>

definition example_cart :: cart_mandate where
  "example_cart =
     \<lparr>cm_contents =
        \<lparr>cc_id = js ''cart_1'', cc_confirmation = False,
         cc_request =
           \<lparr>prq_methods = [],
            prq_details =
              \<lparr>pd_id = js ''d_1'', pd_items = [],
               pd_total = \<lparr>pi_label = js ''Total'', pi_amount = \<lparr>ca_currency = js ''USD'', ca_value = 25\<rparr>,
                 pi_pending = None, pi_refund_period = None\<rparr>,
               pd_shipping = JUndef, pd_modifiers = JNull\<rparr>,
            prq_options = JObj [(js ''a'', JNull), (js ''b'', JNull)], prq_address = JUndef\<rparr>,
         cc_expiry = js ''2026-01-01'', cc_merchant = js ''acme''\<rparr>,
      cm_authorization = Present (js ''h.p.s'')\<rparr>"

definition example_cart_opts :: cart_opts where
  "example_cart_opts =
     \<lparr>co_id = js ''pi_1'', co_payeeClass = js ''saas'', co_rail = Card,
      co_rationale = js ''x402 paywall: monthly plan on base (exact)'',
      co_createdAt = iso_text 1700000000000, co_minorUnits = None\<rparr>"

definition example_payment :: payment_mandate where
  "example_payment =
     \<lparr>py_contents = \<lparr>pc_id = js ''pm_1'', pc_details_id = js ''d_1'',
        pc_total = pd_total (prq_details (cc_request (cm_contents example_cart))), pc_response = JObj [],
        pc_merchant_agent = js ''acme'', pc_timestamp = js ''t''\<rparr>,
      py_authorization = Present (js ''i~x.k.y'')\<rparr>"

text \<open>A platform with a digest without collisions, whose decoder knows three texts.\<close>

definition example_platform :: "unit ap2_platform" where
  "example_platform =
     \<lparr>ap_canonicalize = canonicalize example_num, ap_sha256_hex = (\<lambda>s. s), ap_base64url = (\<lambda>s. s),
      ap_json_bytes = (\<lambda>bs.
        if bs = js ''h'' then Some (JObj [(js ''alg'', JStr (js ''EdDSA''))])
        else if bs = js ''p'' then
          Some (JObj [(js ''cart_hash'',
            JStr (canonicalize example_num (JObj (contents_members (cm_contents example_cart)))))])
        else if bs = js ''k'' then
          Some (JObj [(js ''transaction_data'',
            JArr [JStr (canonicalize example_num (cart_json example_cart)),
                  JStr (canonicalize example_num (payment_contents_json (py_contents example_payment)))])])
        else None),
      ap_verify = (\<lambda>digest input key sig. Inr (sig = js ''s''))\<rparr>"

definition example_verify_opts :: "unit verify_cart_opts" where
  "example_verify_opts =
     \<lparr>vo_resolveKey = (\<lambda>kid alg iss. Some ()), vo_now = 1700000000000, vo_canonicalize = None, vo_tolerance = None\<rparr>"

lemma example_cart_intent: "cartMandateToIntent example_cart example_cart_opts = gate_example_intent"
proof -
  have "math_round 2500 = (2500 :: rat)" using math_round_integer [of 2500] by simp
  then show ?thesis
    by (simp add: cartMandateToIntent_def cartTotal_def example_cart_def example_cart_opts_def
        gate_example_intent_def DEFAULT_MINOR_UNITS_PER_MAJOR_def)
qed

lemma example_split: "split_char 46 (js ''h.p.s'') = [js ''h'', js ''p'', js ''s'']"
  "split_char 46 (js ''x.k.y'') = [js ''x'', js ''k'', js ''y'']"
  "split_char 126 (js ''i~x.k.y'') = [js ''i'', js ''x.k.y'']"
  by (simp_all add: js_def)

lemma example_verified:
  assumes "cm_authorization cart = Present (js ''h.p.s'')"
    and "json_norm (JObj (contents_members (cm_contents cart))) =
      json_norm (JObj (contents_members (cm_contents example_cart)))"
  shows "vc_ok (verifyCartMandate example_platform cart example_verify_opts)"
proof -
  have hash: "cartHash example_platform (ap_canonicalize example_platform) (cm_contents cart) =
      canonicalize example_num (JObj (contents_members (cm_contents example_cart)))"
    using assms(2) by (simp add: cartHash_def example_platform_def canonicalize_norm del: json_norm.simps)
  have p: "b64urlJson example_platform (js ''h'') = Some (JObj [(js ''alg'', JStr (js ''EdDSA''))])"
    "b64urlJson example_platform (js ''p'') = Some (JObj [(js ''cart_hash'',
        JStr (cartHash example_platform (ap_canonicalize example_platform) (cm_contents cart)))])"
    unfolding hash by (simp_all add: b64urlJson_def example_platform_def del: canonicalize.simps)
  show ?thesis
    by (simp add: verifyCartMandate_def assms(1) example_split p json_falsy_def obj_get_def algToDigest_def
        check_authorization_def Let_def number_claim_def example_verify_opts_def)
      (simp add: example_platform_def)
qed

text \<open>The same cart with the members of its options in another order.\<close>

definition example_reordered :: cart_mandate where
  "example_reordered = example_cart\<lparr>cm_contents := (cm_contents example_cart)\<lparr>cc_request :=
     (cc_request (cm_contents example_cart))\<lparr>prq_options :=
        JObj [(js ''b'', JNull), (js ''a'', JNull)]\<rparr>\<rparr>\<rparr>"

lemma example_reordered_norm:
  "json_norm (JObj (contents_members (cm_contents example_reordered))) =
     json_norm (JObj (contents_members (cm_contents example_cart)))"
proof -
  have "json_norm (JObj [(js ''b'', JNull), (js ''a'', JNull)]) = json_norm (JObj [(js ''a'', JNull), (js ''b'', JNull)])"
    by (simp add: js_def)
  then have "json_norm (JObj (request_members (cc_request (cm_contents example_reordered)))) =
      json_norm (JObj (request_members (cc_request (cm_contents example_cart))))"
    unfolding example_reordered_def example_cart_def request_members_def by (simp add: js_def)
  then show ?thesis
    unfolding example_reordered_def example_cart_def contents_members_def by (simp add: js_def)
qed

lemma example_binding:
  "readTransactionData example_platform (py_authorization example_payment) =
     Some [canonicalize example_num (cart_json example_cart),
           canonicalize example_num (payment_contents_json (py_contents example_payment))]"
  "verifyPaymentMandateBinding example_platform example_payment example_cart None None = None"
proof -
  have k: "b64urlJson example_platform (js ''k'') = Some (JObj [(js ''transaction_data'',
      JArr [JStr (canonicalize example_num (cart_json example_cart)),
            JStr (canonicalize example_num (payment_contents_json (py_contents example_payment)))])])"
    by (simp add: b64urlJson_def example_platform_def del: canonicalize.simps)
  have auth: "py_authorization example_payment = Present (js ''i~x.k.y'')" by (simp add: example_payment_def)
  show td: "readTransactionData example_platform (py_authorization example_payment) =
     Some [canonicalize example_num (cart_json example_cart),
           canonicalize example_num (payment_contents_json (py_contents example_payment))]"
    by (simp add: readTransactionData_def auth example_split k obj_get_def string_member_def Let_def List.map_filter_simps
        del: canonicalize.simps)
  have ids: "pc_details_id (py_contents example_payment) = pd_id (prq_details (cc_request (cm_contents example_cart)))"
    by (simp add: example_payment_def example_cart_def)
  have pf: "ap_canonicalize example_platform = canonicalize example_num" "ap_sha256_hex example_platform = (\<lambda>s. s)"
    by (simp_all add: example_platform_def)
  show "verifyPaymentMandateBinding example_platform example_payment example_cart None None = None"
    by (simp add: binding_ok td ids pf del: canonicalize.simps)
qed

section \<open>Witnesses\<close>

theorem verified_cart_is_signed_witness:
  "\<exists>jwt. cm_authorization example_cart = Present jwt"
  using verified_cart_is_signed [OF example_verified [OF _ refl]] by (simp add: example_cart_def)

theorem verified_cart_fixes_payment_witness:
  "example_reordered \<noteq> example_cart \<and>
   gateAp2Cart example_cart gate_example_context example_cart_opts =
     gateAp2Cart example_reordered gate_example_context example_cart_opts"
proof
  show "example_reordered \<noteq> example_cart" by (simp add: example_reordered_def example_cart_def)
  have auth: "cm_authorization example_cart = Present (js ''h.p.s'')"
    "cm_authorization example_reordered = Present (js ''h.p.s'')"
    by (simp_all add: example_reordered_def example_cart_def)
  show "gateAp2Cart example_cart gate_example_context example_cart_opts =
     gateAp2Cart example_reordered gate_example_context example_cart_opts"
    by (rule verified_cart_fixes_payment [where canon = "canonicalize example_num" and pf = example_platform
          and vopts = example_verify_opts])
      (simp_all add: example_verified auth example_reordered_norm canon_faithful_canonicalize num_ok_example
        del: json_norm.simps canonicalize.simps, simp_all add: example_platform_def example_verify_opts_def inj_on_def)
qed

lemma example_cart_auto:
  "\<exists>d. gateAp2Cart example_cart gate_example_context example_cart_opts = Inr (gate_example_intent, d) \<and>
     gd_outcome d = AutoExecute \<and> gd_mandateId d = Some (js ''m_1'')"
  using gate_example_auto by (auto simp: gateAp2Cart_def example_cart_intent)

theorem ap2_cart_within_policy_witness:
  "\<exists>d m. gateAp2Cart example_cart gate_example_context example_cart_opts = Inr (gate_example_intent, d) \<and>
     m \<in> set (c_mandates gate_example_context) \<and> gd_mandateId d = Some (m_id m)"
  using example_cart_auto ap2_cart_within_policy by meson

definition example_ingest :: ingest_opts where
  "example_ingest =
     \<lparr>io_id = js ''m_1'', io_label = None, io_currency = js ''USD'', io_allowedRails = [Card],
      io_perTxCap = 5000, io_perPeriodCap = 10000, io_period = Month, io_grantedAt = iso_text 1690000000000,
      io_payeeClass = Some (js ''saas'')\<rparr>"

theorem ap2_mandate_round_trip_witness:
  "intentMandateToMandate (mandateToIntentMandate gate_example_mandate None) example_ingest = gate_example_mandate"
  by (rule ap2_mandate_round_trip) (simp_all add: gate_example_mandate_def example_ingest_def)

theorem ap2_round_trip_widens_witness:
  "isLiveMandate (intentMandateToMandate (mandateToIntentMandate
     (gate_example_mandate\<lparr>m_status := Revoked\<rparr>) None) example_ingest) (iso_text 1700000000000)"
  using ap2_round_trip_widens [of "gate_example_mandate\<lparr>m_status := Revoked\<rparr>" example_ingest Card "[]"]
    iso_text_less [of 1700000000000 1710000000000]
  by (simp add: gate_example_mandate_def example_ingest_def iso_range_def)

theorem ap2_parts_round_trip_witness:
  "rm_get CartPart (readAp2Mandates (Some (map (\<lambda>(k, j). toAp2DataPart k j)
     [(CartPart, JNull), (IntentPart, JNull), (CartPart, cart_json example_cart)]))) = Some (cart_json example_cart)"
  by (subst ap2_parts_round_trip) simp_all

theorem payment_binds_one_cart_witness:
  "gateAp2Cart example_cart gate_example_context example_cart_opts =
     gateAp2Cart example_reordered gate_example_context example_cart_opts"
proof (rule payment_binds_one_cart [OF example_binding(2) _ example_binding(1)])
  have pf: "ap_canonicalize example_platform = canonicalize example_num" "ap_sha256_hex example_platform = (\<lambda>s. s)"
    by (simp_all add: example_platform_def)
  show "canon_faithful (ap_canonicalize example_platform)"
    by (simp add: pf canon_faithful_canonicalize num_ok_example)
  show "inj_on (ap_sha256_hex example_platform) {ap_canonicalize example_platform (cart_json example_cart),
      ap_canonicalize example_platform (cart_json example_reordered),
      ap_canonicalize example_platform (payment_contents_json (py_contents example_payment))}"
    by (simp add: pf)
  have "canonicalize example_num (cart_json example_reordered) = canonicalize example_num (cart_json example_cart)"
    unfolding canonicalize_norm
    by (subst cart_json_norm [OF _ example_reordered_norm]) (simp_all add: example_reordered_def del: json_norm.simps)
  then show "verifyPaymentMandateBinding example_platform example_payment example_reordered None None = None"
    using example_binding
    by (simp add: binding_ok pf del: canonicalize.simps) (simp add: example_reordered_def example_cart_def)
qed

end
