(* ===== verification/Ap2_Rail.thy ===== *)
theory Ap2_Rail
  imports Ap2 Rails
begin

text \<open>
  The AP2 rail, \<open>src/rails/ap2/mandate.ts\<close> and \<open>ap2Rail.ts\<close>: the content of the payment mandate that is
  presented for an intent, the rail that presents it, and the constraints of an open payment mandate that
  a mandate of the kernel is mapped to. The guard of \<open>src/disclosure/settleGuard.ts\<close>, that asks the
  payee for its disclosure before value moves, stands beside it.

  The client that signs and presents a mandate, and the package that verifies a counterparty, are
  arguments.
\<close>

section \<open>The content of a payment mandate\<close>

record ap2_merchant =
  am_id :: str
  am_name :: str
  am_website :: "str option"

record ap2_instrument =
  ai_id :: str
  ai_type :: str
  ai_description :: "str option"

record ap2_content =
  ac_vct :: str
  ac_transaction_id :: "str option"
  ac_payee :: ap2_merchant
  ac_amount :: jsnum
  ac_currency :: str
  ac_instrument :: ap2_instrument
  ac_execution_date :: "str option"
  ac_iat :: "jsnum option"
  ac_exp :: "jsnum option"

record ap2_receipt =
  ar_success :: bool
  ar_iss :: str
  ar_iat :: jsnum
  ar_reference :: str
  ar_payment_id :: str
  ar_psp_confirmation_id :: "str option"
  ar_network_confirmation_id :: "str option"
  ar_error :: "str option"
  ar_error_description :: "str option"

record build_opts =
  bo_instrument :: ap2_instrument
  bo_executionDate :: "str option"
  bo_iatSeconds :: "jsnum option"
  bo_expSeconds :: "jsnum option"

definition plain_merchant :: "str \<Rightarrow> ap2_merchant" where
  "plain_merchant i = \<lparr>am_id = i, am_name = i, am_website = None\<rparr>"

definition buildPaymentMandateContent :: "payment_intent \<Rightarrow> build_opts \<Rightarrow> ap2_content" where
  "buildPaymentMandateContent intent opts =
     \<lparr>ac_vct = js ''mandate.payment.1'', ac_transaction_id = None, ac_payee = plain_merchant (i_payee intent),
      ac_amount = i_amount intent, ac_currency = i_currency intent, ac_instrument = bo_instrument opts,
      ac_execution_date = bo_executionDate opts, ac_iat = bo_iatSeconds opts, ac_exp = bo_expSeconds opts\<rparr>"

section \<open>Constraints of an open mandate\<close>

datatype ap2_constraint =
    AmountRange str jsnum "jsnum option"
  | Budget str jsnum
  | AllowedPayees "ap2_merchant list"
  | ExecutionDate "str option" "str option"

definition mandateToAp2Constraints :: "mandate \<Rightarrow> ap2_constraint list" where
  "mandateToAp2Constraints m =
     [AmountRange (m_currency m) (m_perTxCap m) None, Budget (m_currency m) (m_perPeriodCap m),
      ExecutionDate None (Some (m_expiresAt m))] @
     (case m_scope m of
        ScopeAllowlist vs \<Rightarrow> [AllowedPayees (map plain_merchant vs)]
      | ScopeClass v \<Rightarrow> [])"

text \<open>
  What the protocol lets a payment do under each constraint: this is the specification that the map is
  measured against.
\<close>

fun admits :: "ap2_constraint \<Rightarrow> payment_intent \<Rightarrow> jsnum \<Rightarrow> str \<Rightarrow> bool" where
  "admits (AmountRange cur hi lo) intent spent now \<longleftrightarrow>
     i_currency intent = cur \<and> i_amount intent \<le> hi \<and> (case lo of None \<Rightarrow> True | Some l \<Rightarrow> l \<le> i_amount intent)"
| "admits (Budget cur hi) intent spent now \<longleftrightarrow> i_currency intent = cur \<and> spent + i_amount intent \<le> hi"
| "admits (AllowedPayees ps) intent spent now \<longleftrightarrow> i_payee intent \<in> am_id ` set ps"
| "admits (ExecutionDate nb na) intent spent now \<longleftrightarrow>
     (case nb of None \<Rightarrow> True | Some b \<Rightarrow> b \<le> now) \<and> (case na of None \<Rightarrow> True | Some a \<Rightarrow> now \<le> a)"

definition all_admit :: "mandate \<Rightarrow> payment_intent \<Rightarrow> jsnum \<Rightarrow> str \<Rightarrow> bool" where
  "all_admit m intent spent now \<longleftrightarrow> list_all (\<lambda>c. admits c intent spent now) (mandateToAp2Constraints m)"

lemma all_admit_iff:
  "all_admit m intent spent now \<longleftrightarrow>
     i_currency intent = m_currency m \<and> i_amount intent \<le> m_perTxCap m \<and>
     spent + i_amount intent \<le> m_perPeriodCap m \<and> now \<le> m_expiresAt m \<and>
     (case m_scope m of ScopeAllowlist vs \<Rightarrow> i_payee intent \<in> set vs | ScopeClass v \<Rightarrow> True)"
  by (auto simp: all_admit_def mandateToAp2Constraints_def plain_merchant_def image_iff split: payee_scope.split)

section \<open>The rail\<close>

record 'r ap2_options =
  ao_client :: "(payment_intent \<Rightarrow> ap2_content \<Rightarrow> 'r \<Rightarrow> (js_error + ap2_receipt) \<times> 'r) option"
  ao_instrument :: "ap2_instrument option"
  ao_rail :: "rail_kind option"
  ao_reversibility :: "reversibility option"

definition DEFAULT_INSTRUMENT :: ap2_instrument where
  "DEFAULT_INSTRUMENT = \<lparr>ai_id = js ''default'', ai_type = js ''card'', ai_description = None\<rparr>"

definition ap2_finality :: "reversibility \<Rightarrow> settlement_finality" where
  "ap2_finality rv = (if rv = Irreversible then Final else ReversibleFinality)"

definition ap2_settle ::
  "(payment_intent \<Rightarrow> ap2_content \<Rightarrow> 'r \<Rightarrow> (js_error + ap2_receipt) \<times> 'r) \<Rightarrow> ap2_instrument \<Rightarrow> reversibility \<Rightarrow>
     payment_intent \<Rightarrow> 'r \<Rightarrow> (js_error + rail_settlement) \<times> 'r" where
  "ap2_settle client instrument reversibility intent r =
     (let content = buildPaymentMandateContent intent
            \<lparr>bo_instrument = instrument, bo_executionDate = None, bo_iatSeconds = None, bo_expSeconds = None\<rparr>;
          (answer, r') = client intent content r
      in (bindE answer (\<lambda>receipt.
            if \<not> ar_success receipt
            then Inl (Thrown (js ''ap2: '' @ nullish (ar_error receipt) (js ''payment declined'')))
            else Inr \<lparr>rs_providerRef = ar_payment_id receipt, rs_finality = Some (ap2_finality reversibility)\<rparr>), r'))"

definition createAp2Rail :: "'r ap2_options \<Rightarrow> 'r provider" where
  "createAp2Rail options =
     (let reversibility = nullish (ao_reversibility options) Reversible;
          instrument = nullish (ao_instrument options) DEFAULT_INSTRUMENT
      in createNetworkRail
           \<lparr>ns_id = js ''ap2'', ns_rail = nullish (ao_rail options) Checkout, ns_reversibility = reversibility,
            ns_finality = Delayed, ns_defaultFinality = ap2_finality reversibility,
            ns_client =
              map_option (\<lambda>client. \<lparr>cl_settle = ap2_settle client instrument reversibility,
                                     cl_verifyReceipt = Some (\<lambda>rc r. Inr (length (r_providerRef rc) > 0))\<rparr>)
                (ao_client options)\<rparr>)"

text \<open>A settlement of the rail comes from a successful receipt for the intent's own mandate content.\<close>

lemma createAp2Rail_settle:
  assumes "pv_settle (createAp2Rail options) intent now r = (Inr rc, r')"
  obtains client receipt where "ao_client options = Some client"
    "client intent (buildPaymentMandateContent intent
       \<lparr>bo_instrument = nullish (ao_instrument options) DEFAULT_INSTRUMENT, bo_executionDate = None,
        bo_iatSeconds = None, bo_expSeconds = None\<rparr>) r = (Inr receipt, r')"
    "ar_success receipt" "r_providerRef rc = ar_payment_id receipt" "r_intentId rc = i_id intent"
    "r_amount rc = i_amount intent" "r_currency rc = i_currency intent" "r_settledAt rc = now"
    "r_finality rc = ap2_finality (nullish (ao_reversibility options) Reversible)"
proof -
  obtain client where p: "ao_client options = Some client"
    using assms by (cases "ao_client options") (simp_all add: createAp2Rail_def createNetworkRail_def Let_def)
  let ?content = "buildPaymentMandateContent intent
       \<lparr>bo_instrument = nullish (ao_instrument options) DEFAULT_INSTRUMENT, bo_executionDate = None,
        bo_iatSeconds = None, bo_expSeconds = None\<rparr>"
  obtain answer r'' where a: "client intent ?content r = (answer, r'')" by fastforce
  note step = createAp2Rail_def createNetworkRail_def ap2_settle_def Let_def
  obtain receipt where rc: "answer = Inr receipt" "ar_success receipt"
    using assms a by (cases answer) (auto simp: step p split: if_splits)
  with assms a p show ?thesis by (intro that [of client receipt]) (auto simp: step)
qed

text \<open>
  The rail keeps the contract of Rails when its client names every successful payment.
\<close>

definition ap2_naming :: "'r ap2_options \<Rightarrow> bool" where
  "ap2_naming options \<longleftrightarrow>
     (\<forall>client intent content r receipt r'. ao_client options = Some client \<longrightarrow>
        client intent content r = (Inr receipt, r') \<longrightarrow> ar_success receipt \<longrightarrow> ar_payment_id receipt \<noteq> [])"

lemma ap2_honest: "ap2_naming options \<Longrightarrow> honest_rail (createAp2Rail options)"
proof
  fix intent now r rc r'
  assume "pv_settle (createAp2Rail options) intent now r = (Inr rc, r')"
  then show "r_intentId rc = i_id intent \<and> r_amount rc = i_amount intent \<and>
      r_currency rc = i_currency intent \<and> r_settledAt rc = now"
    by (rule createAp2Rail_settle) simp
next
  fix intent now r rc r' x r''
  assume naming: "ap2_naming options" and run: "pv_settle (createAp2Rail options) intent now r = (Inr rc, r')"
  from createAp2Rail_settle [OF run] obtain client content receipt where
    "ao_client options = Some client" "client intent content r = (Inr receipt, r')" "ar_success receipt"
    "r_providerRef rc = ar_payment_id receipt" by metis
  with naming have "r_providerRef rc \<noteq> []" "ao_client options \<noteq> None"
    unfolding ap2_naming_def by (metis, simp)
  then show "pv_verifyReceipt (createAp2Rail options) (rc\<lparr>r_providerId := x\<rparr>) r'' = Inr True"
    by (auto simp: createAp2Rail_def createNetworkRail_def Let_def)
qed

section \<open>The disclosure guard\<close>

record counterparty_verdict =
  cv_transact :: bool
  cv_reasons :: "str list"

definition requireCounterpartyDisclosure ::
  "(str \<Rightarrow> bool \<times> counterparty_verdict) \<Rightarrow> str \<Rightarrow> bool \<times> counterparty_verdict" where
  "requireCounterpartyDisclosure guardSettlement payeeBaseUrl = guardSettlement payeeBaseUrl"

datatype pre_settle_reason = NoEndpoint str | DisclosureRefused str "str list"

record pre_settle_decision =
  ps_allow :: bool
  ps_reason :: "pre_settle_reason option"

definition disclosePreSettle ::
  "(str \<Rightarrow> js_error + counterparty_verdict) \<Rightarrow> str \<Rightarrow> str option \<Rightarrow> js_error + pre_settle_decision" where
  "disclosePreSettle verifyCounterparty rail payeeBaseUrl =
     (if nullish payeeBaseUrl [] = []
      then Inr \<lparr>ps_allow = True, ps_reason = Some (NoEndpoint rail)\<rparr>
      else bindE (verifyCounterparty (nullish payeeBaseUrl [])) (\<lambda>verdict.
             if cv_transact verdict then Inr \<lparr>ps_allow = True, ps_reason = None\<rparr>
             else Inr \<lparr>ps_allow = False, ps_reason = Some (DisclosureRefused rail (cv_reasons verdict))\<rparr>))"

section \<open>Properties\<close>



text \<open>
  Fact: the converse holds for allowlists only. Under an active allowlist mandate before its
  expiry, on one of its rails, the constraints admit exactly the payments that the mandate covers within its caps; the
  constraints of a class mandate admit payments to payees of every class.
\<close>

theorem ap2_constraints_exact_for_allowlists:
  assumes "m_status m = Active" "now < m_expiresAt m" "i_rail intent \<in> set (m_allowedRails m)"
  shows "(m_scope m = ScopeAllowlist vs \<longrightarrow>
      (all_admit m intent spent now \<longleftrightarrow>
         isLiveMandate m now \<and> covers m intent None \<and> i_amount intent \<le> m_perTxCap m \<and>
         spent + i_amount intent \<le> m_perPeriodCap m)) \<and>
    (m_scope m = ScopeClass v \<longrightarrow> v \<noteq> other \<longrightarrow> all_admit m intent spent now \<longrightarrow>
      all_admit m (intent\<lparr>i_payeeClass := other\<rparr>) spent now \<and>
      (\<forall>convert. \<not> covers m (intent\<lparr>i_payeeClass := other\<rparr>) convert))"
  using assms by (auto simp: all_admit_iff isLiveMandate_def covers_def Let_def)

theorem ap2_constraints_exact_for_allowlists_witness:
  "all_admit gate_example_mandate (gate_example_intent\<lparr>i_payeeClass := js ''gambling''\<rparr>) 0 (iso_text 1700000000000) \<and>
   \<not> covers gate_example_mandate (gate_example_intent\<lparr>i_payeeClass := js ''gambling''\<rparr>) None"
proof -
  have early: "iso_text 1700000000000 < iso_text 1710000000000"
    by (rule iso_text_less) (simp_all add: iso_range_def)
  then have "all_admit gate_example_mandate gate_example_intent 0 (iso_text 1700000000000)"
    by (simp add: all_admit_iff gate_example_mandate_def gate_example_intent_def)
  with ap2_constraints_exact_for_allowlists [of gate_example_mandate "iso_text 1700000000000" gate_example_intent
      "[]" 0 "js ''saas''" "js ''gambling''"] early
  show ?thesis by (simp add: gate_example_mandate_def gate_example_intent_def)
qed

text \<open>
  Fact: the rail settles only on a successful receipt of the presented mandate, whose content is the intent's
  payee, amount and currency, and it never claims finality for a reversible profile; without a client
  it settles nothing and changes nothing.
\<close>

theorem ap2_rail_settles_presented:
  assumes "pv_settle (createAp2Rail options) intent now r = (Inr rc, r')"
  shows "\<exists>client content receipt. ao_client options = Some client \<and> client intent content r = (Inr receipt, r') \<and>
    am_id (ac_payee content) = i_payee intent \<and> ac_amount content = i_amount intent \<and>
    ac_currency content = i_currency intent \<and> ar_success receipt \<and> r_providerRef rc = ar_payment_id receipt \<and>
    (r_finality rc = Final \<longleftrightarrow> ao_reversibility options = Some Irreversible)"
proof -
  let ?content = "buildPaymentMandateContent intent
       \<lparr>bo_instrument = nullish (ao_instrument options) DEFAULT_INSTRUMENT, bo_executionDate = None,
        bo_iatSeconds = None, bo_expSeconds = None\<rparr>"
  from createAp2Rail_settle [OF assms] obtain client receipt where "ao_client options = Some client"
    "client intent ?content r = (Inr receipt, r')" "ar_success receipt" "r_providerRef rc = ar_payment_id receipt"
    "r_finality rc = ap2_finality (nullish (ao_reversibility options) Reversible)" by metis
  moreover from this(5) have "r_finality rc = Final \<longleftrightarrow> ao_reversibility options = Some Irreversible"
    by (cases "ao_reversibility options") (simp_all add: ap2_finality_def)
  moreover have "am_id (ac_payee ?content) = i_payee intent" "ac_amount ?content = i_amount intent"
    "ac_currency ?content = i_currency intent"
    by (simp_all add: buildPaymentMandateContent_def plain_merchant_def)
  ultimately show ?thesis by blast
qed

definition example_ap2 :: "nat ap2_options" where
  "example_ap2 =
     \<lparr>ao_client = Some (\<lambda>intent content n. 
        (Inr \<lparr>ar_success = True, ar_iss = js ''psp'', ar_iat = 0, ar_reference = js ''r'', ar_payment_id = js ''pay_1'',
              ar_psp_confirmation_id = None, ar_network_confirmation_id = None, ar_error = None,
              ar_error_description = None\<rparr>, n + 1)),
      ao_instrument = None, ao_rail = None, ao_reversibility = None\<rparr>"

theorem ap2_rail_settles_presented_witness:
  "\<exists>rc. pv_settle (createAp2Rail example_ap2) gate_example_intent [] 0 = (Inr rc, 1) \<and> r_finality rc \<noteq> Final"
proof -
  obtain rc where rc: "pv_settle (createAp2Rail example_ap2) gate_example_intent [] 0 = (Inr rc, 1)"
    by (simp add: createAp2Rail_def createNetworkRail_def ap2_settle_def example_ap2_def Let_def)
  from ap2_rail_settles_presented [OF this] have "r_finality rc \<noteq> Final" by (auto simp: example_ap2_def)
  with rc show ?thesis by blast
qed

end
