(* ===== verification/Http_Signature.thy ===== *)
theory Http_Signature
  imports Delegation_Signature JS_Number Fx
begin

text \<open>
  Who is calling: the identity verifiers of \<open>src/identity/verifier.ts\<close> and \<open>erc8128.ts\<close>. A request carries
  a dictionary of signature inputs, each with the list of the parts it covers and its parameters, and a
  dictionary of signatures. The verifiers read them, check the window of validity, rebuild the text that
  was signed, and verify it under an Ed25519 key (Visa TAP) or recover a wallet address (ERC-8128).

  The signature schemes, the decoding of base64 and the registries behind the callbacks are arguments. An
  exception inside a verifier (a missing host or header table) is \<open>Inl\<close>.
\<close>

section \<open>Identities\<close>

record agent_identity =
  id_agentId :: str
  id_principal :: "str option"
  id_attestation :: attestation
  id_capabilities :: "str list option"

datatype identity_reason =
    NoVerifierConfigured
  | AssertedIdOnly
  | NoMatchingAgent
  | NotSignedRequest
  | MalformedSignatureInput
  | UnsupportedSignatureAlg "str option"
  | MissingKeyid
  | NotErc8128Keyid str
  | CreatedInFuture
  | SignatureTooOld
  | SignatureExpired
  | NoSignatureFor str
  | ComponentMissing
  | UnknownKeyid str
  | SignatureInvalid
  | RecoveryFailed js_error
  | ContractRejected
  | AddressMismatch "str option" str
  | SignatureVerified

record identity_result =
  ir_verified :: bool
  ir_identity :: agent_identity
  ir_reasons :: "identity_reason list"

definition unknown_identity :: agent_identity where
  "unknown_identity = \<lparr>id_agentId = js ''unknown'', id_principal = None, id_attestation = AttNone, id_capabilities = None\<rparr>"

definition unverified :: "identity_reason \<Rightarrow> identity_result" where
  "unverified reason = \<lparr>ir_verified = False, ir_identity = unknown_identity, ir_reasons = [reason]\<rparr>"

definition attestationFromIdentityResult :: "identity_result \<Rightarrow> attestation" where
  "attestationFromIdentityResult result =
     (if ir_verified result then id_attestation (ir_identity result) else AttNone)"

definition noopVerifier :: identity_result where
  "noopVerifier = unverified NoVerifierConfigured"

definition staticIdentityVerifier :: "(str \<times> agent_identity) list \<Rightarrow> str option \<Rightarrow> identity_result" where
  "staticIdentityVerifier records agentId =
     (case (if nullish agentId [] = [] then None else map_of (rev records) (nullish agentId [])) of
        Some r \<Rightarrow> \<lparr>ir_verified = False, ir_identity = r\<lparr>id_attestation := AttNone\<rparr>, ir_reasons = [AssertedIdOnly]\<rparr>
      | None \<Rightarrow> \<lparr>ir_verified = False,
                 ir_identity = unknown_identity\<lparr>id_agentId := nullish agentId (js ''unknown'')\<rparr>,
                 ir_reasons = [NoMatchingAgent]\<rparr>)"

section \<open>Numbers that may be infinite or not a number\<close>

datatype jsn = Fin jsnum | PosInf | NegInf | NaN

definition to_number :: "str \<Rightarrow> jsn" where
  "to_number s =
     (case number_of_text s of
        Some x \<Rightarrow> Fin x
      | None \<Rightarrow> if trim s = js ''Infinity'' \<or> trim s = js ''+Infinity'' then PosInf
                else if trim s = js ''-Infinity'' then NegInf else NaN)"

text \<open>\<open>a < x\<close>, \<open>a - x > b\<close> and \<open>a > x\<close> for finite \<open>a\<close> and \<open>b\<close>: false when \<open>x\<close> is not a number.\<close>

fun less_jsn :: "jsnum \<Rightarrow> jsn \<Rightarrow> bool" where
  "less_jsn a (Fin x) = (a < x)"
| "less_jsn a PosInf = True"
| "less_jsn a NegInf = False"
| "less_jsn a NaN = False"

fun older_jsn :: "jsnum \<Rightarrow> jsn \<Rightarrow> jsnum \<Rightarrow> bool" where
  "older_jsn a (Fin x) b = (a - x > b)"
| "older_jsn a PosInf b = False"
| "older_jsn a NegInf b = True"
| "older_jsn a NaN b = False"

fun greater_jsn :: "jsnum \<Rightarrow> jsn \<Rightarrow> bool" where
  "greater_jsn a (Fin x) = (a > x)"
| "greater_jsn a PosInf = False"
| "greater_jsn a NegInf = True"
| "greater_jsn a NaN = False"

section \<open>Structured fields\<close>

fun split_top :: "nat \<Rightarrow> int \<Rightarrow> bool \<Rightarrow> str \<Rightarrow> str \<Rightarrow> str list" where
  "split_top sep depth inQuotes cur [] = [cur]"
| "split_top sep depth inQuotes cur (ch # rest) =
     (let inQuotes' = (if ch = 34 then \<not> inQuotes else inQuotes);
          depth' = (if ch = 34 then depth
                    else if \<not> inQuotes \<and> ch = 40 then depth + 1
                    else if \<not> inQuotes \<and> ch = 41 then depth - 1 else depth)
      in if \<not> inQuotes' \<and> depth' = 0 \<and> ch = sep then cur # split_top sep depth' inQuotes' [] rest
         else split_top sep depth' inQuotes' (cur @ [ch]) rest)"

definition splitTopLevel :: "str \<Rightarrow> nat \<Rightarrow> str list" where
  "splitTopLevel input sep = split_top sep 0 False [] input"

text \<open>\<open>s.indexOf(c)\<close>: the text before and after the first occurrence.\<close>

definition cut_at :: "nat \<Rightarrow> str \<Rightarrow> (str \<times> str) option" where
  "cut_at c s = (if c \<in> set s then Some (takeWhile (\<lambda>x. x \<noteq> c) s, tl (dropWhile (\<lambda>x. x \<noteq> c) s)) else None)"

record signature_params =
  sp_components :: "str list"
  sp_created :: "jsn option"
  sp_expires :: "jsn option"
  sp_keyid :: "str option"
  sp_alg :: "str option"
  sp_raw :: str

definition unquote :: "str \<Rightarrow> str" where
  "unquote v = (if v \<noteq> [] \<and> hd v = 34 \<and> last v = 34 then butlast (tl v) else v)"

definition set_param :: "str \<Rightarrow> signature_params \<Rightarrow> signature_params" where
  "set_param p params =
     (case cut_at 61 (trim p) of
        None \<Rightarrow> params
      | Some (l, r) \<Rightarrow>
          let k = trim l; v = unquote (trim r)
          in if k = js ''created'' then params\<lparr>sp_created := Some (to_number v)\<rparr>
             else if k = js ''expires'' then params\<lparr>sp_expires := Some (to_number v)\<rparr>
             else if k = js ''keyid'' then params\<lparr>sp_keyid := Some v\<rparr>
             else if k = js ''alg'' then params\<lparr>sp_alg := Some v\<rparr>
             else params)"

text \<open>One entry of the dictionary, None where the loop continues.\<close>

definition input_entry :: "str option \<Rightarrow> str \<Rightarrow> (str \<times> signature_params) option" where
  "input_entry label entry =
     (case cut_at 61 entry of
        None \<Rightarrow> None
      | Some (l, r) \<Rightarrow>
          let name = trim l; rest = trim r
          in if nullish label [] \<noteq> [] \<and> label \<noteq> Some name then None
             else
               (case cut_at 41 rest of
                  None \<Rightarrow> None
                | Some (opened, paramStr) \<Rightarrow>
                    if \<not> starts_with rest [40] then None
                    else
                      let inner = trim (tl opened);
                          components = (if inner = [] then [] else filter (\<lambda>c. c \<noteq> []) (splitTopLevel inner 32))
                      in Some (name, foldl (\<lambda>params p. set_param p params)
                           \<lparr>sp_components = components, sp_created = None, sp_expires = None, sp_keyid = None,
                            sp_alg = None, sp_raw = rest\<rparr> (splitTopLevel paramStr 59))))"

fun first_some :: "('a \<Rightarrow> 'b option) \<Rightarrow> 'a list \<Rightarrow> 'b option" where
  "first_some f [] = None"
| "first_some f (x # xs) = (case f x of Some y \<Rightarrow> Some y | None \<Rightarrow> first_some f xs)"

definition parseSignatureInput :: "str \<Rightarrow> str option \<Rightarrow> (str \<times> signature_params) option" where
  "parseSignatureInput text label = first_some (input_entry label) (splitTopLevel text 44)"

definition uncolon :: "str \<Rightarrow> str" where
  "uncolon v = (if v \<noteq> [] \<and> hd v = 58 \<and> last v = 58 then butlast (tl v) else v)"

definition parseSignatureBytes :: "(str \<Rightarrow> bytes) \<Rightarrow> str \<Rightarrow> str \<Rightarrow> bytes option" where
  "parseSignatureBytes base64 text label =
     first_some (\<lambda>entry.
       case cut_at 61 entry of
         None \<Rightarrow> None
       | Some (l, r) \<Rightarrow> if trim l \<noteq> label then None else Some (base64 (uncolon (trim r))))
       (splitTopLevel text 44)"

section \<open>The signature base\<close>

record signed_request =
  rq_method :: "str option"
  rq_authority :: "str option"
  rq_path :: "str option"
  rq_headers :: "(str \<times> str) list option"
  rq_signatureInput :: "str option"
  rq_signature :: "str option"

definition strip_quotes :: "str \<Rightarrow> str" where
  "strip_quotes s =
     (let t = (if s \<noteq> [] \<and> hd s = 34 then tl s else s)
      in if t \<noteq> [] \<and> last t = 34 then butlast t else t)"

definition type_error :: "js_error + 'a" where
  "type_error = Inl (Thrown (js ''TypeError''))"

definition componentValue :: "str \<Rightarrow> signed_request \<Rightarrow> js_error + str option" where
  "componentValue i req =
     (let name = strip_quotes i
      in if name = js ''@method''
         then (case rq_method req of Some m \<Rightarrow> Inr (Some (map to_upper_char m)) | None \<Rightarrow> type_error)
         else if name = js ''@authority''
         then (case rq_authority req of Some a \<Rightarrow> Inr (Some (to_lower a)) | None \<Rightarrow> type_error)
         else if name = js ''@path'' then Inr (rq_path req)
         else if starts_with name (js ''@'') then Inr None
         else (case rq_headers req of Some hs \<Rightarrow> Inr (map_of (rev hs) (to_lower name)) | None \<Rightarrow> type_error))"

fun component_lines :: "signed_request \<Rightarrow> str list \<Rightarrow> js_error + str list option" where
  "component_lines req [] = Inr (Some [])"
| "component_lines req (i # is) =
     bindE (componentValue i req) (\<lambda>v.
       case v of
         None \<Rightarrow> Inr None
       | Some x \<Rightarrow> bindE (component_lines req is) (\<lambda>ls. Inr (map_option ((#) (i @ js '': '' @ x)) ls)))"

definition buildSignatureBase :: "signed_request \<Rightarrow> signature_params \<Rightarrow> js_error + str option" where
  "buildSignatureBase req params =
     bindE (component_lines req (sp_components params)) (\<lambda>ls.
       Inr (map_option (\<lambda>ls. join_lines (ls @ [34 # js ''@signature-params'' @ 34 # js '': '' @ sp_raw params])) ls))"

section \<open>The window of validity\<close>

record window_opts =
  wo_now :: jsnum
  wo_maxAge :: "jsnum option"
  wo_tolerance :: "jsnum option"
  wo_label :: "str option"

definition window_fault :: "window_opts \<Rightarrow> signature_params \<Rightarrow> identity_reason option" where
  "window_fault w params =
     (let nowSec = math_floor (wo_now w / 1000);
          maxAge = nullish (wo_maxAge w) 300;
          tolerance = nullish (wo_tolerance w) 30
      in if (case sp_created params of Some c \<Rightarrow> less_jsn (nowSec + tolerance) c | None \<Rightarrow> False)
         then Some CreatedInFuture
         else if (case sp_created params of
                    Some c \<Rightarrow> sp_expires params = None \<and> older_jsn nowSec c (maxAge + tolerance)
                  | None \<Rightarrow> False)
         then Some SignatureTooOld
         else if (case sp_expires params of Some e \<Rightarrow> greater_jsn (nowSec - tolerance) e | None \<Rightarrow> False)
         then Some SignatureExpired
         else None)"

section \<open>Visa TAP\<close>

record 'k visa_opts =
  vt_window :: window_opts
  vt_resolveKey :: "str \<Rightarrow> 'k option"
  vt_identityOf :: "(str \<Rightarrow> agent_identity option) option"
  vt_base64 :: "str \<Rightarrow> bytes"
  vt_verify :: "bytes \<Rightarrow> 'k \<Rightarrow> bytes \<Rightarrow> js_error + bool"

definition bound_identity :: "(str \<Rightarrow> agent_identity option) option \<Rightarrow> str \<Rightarrow> agent_identity" where
  "bound_identity identityOf key =
     nullish (case identityOf of Some f \<Rightarrow> f key | None \<Rightarrow> None)
       \<lparr>id_agentId = key, id_principal = None, id_attestation = AttSigned, id_capabilities = None\<rparr>"

definition verified_as :: "(str \<Rightarrow> agent_identity option) option \<Rightarrow> str \<Rightarrow> identity_result" where
  "verified_as identityOf key =
     \<lparr>ir_verified = True, ir_identity = bound_identity identityOf key, ir_reasons = [SignatureVerified]\<rparr>"

definition visa_check_base :: "'k visa_opts \<Rightarrow> str \<Rightarrow> bytes \<Rightarrow> str \<Rightarrow> identity_result" where
  "visa_check_base opts keyid sigBytes base =
     (case vt_resolveKey opts keyid of
        None \<Rightarrow> unverified (UnknownKeyid keyid)
      | Some key \<Rightarrow>
          if vt_verify opts (text_bytes base) key sigBytes \<noteq> Inr True then unverified SignatureInvalid
          else verified_as (vt_identityOf opts) keyid)"

definition visa_check_params :: "'k visa_opts \<Rightarrow> signed_request \<Rightarrow> str \<Rightarrow> signature_params \<Rightarrow> js_error + identity_result" where
  "visa_check_params opts req label params =
     (if sp_alg params \<noteq> Some (js ''ed25519'') then Inr (unverified (UnsupportedSignatureAlg (sp_alg params)))
      else if nullish (sp_keyid params) [] = [] then Inr (unverified MissingKeyid)
      else
        (case window_fault (vt_window opts) params of
           Some fault \<Rightarrow> Inr (unverified fault)
         | None \<Rightarrow>
             (case parseSignatureBytes (vt_base64 opts) (nullish (rq_signature req) []) label of
                None \<Rightarrow> Inr (unverified (NoSignatureFor label))
              | Some sigBytes \<Rightarrow>
                  bindE (buildSignatureBase req params) (\<lambda>b.
                    case b of
                      None \<Rightarrow> Inr (unverified ComponentMissing)
                    | Some base \<Rightarrow> Inr (visa_check_base opts (nullish (sp_keyid params) []) sigBytes base)))))"

definition visaTapVerifier :: "'k visa_opts \<Rightarrow> signed_request option \<Rightarrow> js_error + identity_result" where
  "visaTapVerifier opts presented =
     (case presented of
        None \<Rightarrow> Inr (unverified NotSignedRequest)
      | Some req \<Rightarrow>
          if rq_signatureInput req = None \<or> rq_signature req = None \<or> rq_method req = None
          then Inr (unverified NotSignedRequest)
          else
            (case parseSignatureInput (nullish (rq_signatureInput req) []) (wo_label (vt_window opts)) of
               None \<Rightarrow> Inr (unverified MalformedSignatureInput)
             | Some (label, params) \<Rightarrow> visa_check_params opts req label params))"

section \<open>The library-backed verifier\<close>

text \<open>
  The optional package rebuilds the base and calls back the key's check: an argument, absent when the
  import fails. Without it the verifier above answers.
\<close>

record message_call =
  mc_keyid :: str
  mc_check :: "bytes \<Rightarrow> bytes \<Rightarrow> bool"
  mc_tolerance :: jsnum
  mc_method :: "str option"
  mc_url :: str
  mc_headers :: "(str, str option) omap"

definition message_headers :: "signed_request \<Rightarrow> (str, str option) omap" where
  "message_headers req =
     AList.update (js ''signature'') (rq_signature req)
       (AList.update (js ''signature-input'') (rq_signatureInput req)
         (AList.update (js ''host'') (rq_authority req)
           (fromEntries (map (\<lambda>(k, v). (k, Some v)) (nullish (rq_headers req) [])))))"

definition library_check ::
  "(message_call \<Rightarrow> js_error + bool option) \<Rightarrow> 'k visa_opts \<Rightarrow> signed_request \<Rightarrow> signature_params \<Rightarrow> identity_result" where
  "library_check verifyMessage opts req params =
     (let keyid = nullish (sp_keyid params) []
      in if sp_alg params \<noteq> Some (js ''ed25519'') then unverified (UnsupportedSignatureAlg (sp_alg params))
         else if keyid = [] then unverified MissingKeyid
         else
           (case window_fault (vt_window opts) params of
              Some fault \<Rightarrow> unverified fault
            | None \<Rightarrow>
                (case vt_resolveKey opts keyid of
                   None \<Rightarrow> unverified (UnknownKeyid keyid)
                 | Some key \<Rightarrow>
                     if verifyMessage
                          \<lparr>mc_keyid = keyid, mc_check = (\<lambda>m sig. vt_verify opts m key sig = Inr True),
                           mc_tolerance = nullish (wo_tolerance (vt_window opts)) 30, mc_method = rq_method req,
                           mc_url = js ''https://'' @ nullish (rq_authority req) (js ''undefined'') @
                             nullish (rq_path req) (js ''undefined''),
                           mc_headers = message_headers req\<rparr> \<noteq> Inr (Some True)
                     then unverified SignatureInvalid
                     else verified_as (vt_identityOf opts) keyid)))"

definition httpMessageSignaturesVerifier ::
  "(message_call \<Rightarrow> js_error + bool option) option \<Rightarrow> 'k visa_opts \<Rightarrow> signed_request option \<Rightarrow> js_error + identity_result" where
  "httpMessageSignaturesVerifier package opts presented =
     (case package of
        None \<Rightarrow> visaTapVerifier opts presented
      | Some verifyMessage \<Rightarrow>
          (case presented of
             None \<Rightarrow> Inr (unverified NotSignedRequest)
           | Some req \<Rightarrow>
               if rq_signatureInput req = None \<or> rq_signature req = None \<or> rq_method req = None
               then Inr (unverified NotSignedRequest)
               else
                 (case parseSignatureInput (nullish (rq_signatureInput req) []) (wo_label (vt_window opts)) of
                    None \<Rightarrow> Inr (unverified MalformedSignatureInput)
                  | Some (label, params) \<Rightarrow> Inr (library_check verifyMessage opts req params))))"

section \<open>ERC-8128\<close>

text \<open>The match of \<open>/^erc8128:(\d+):(0x[a-fA-F0-9]{40})$/\<close> and its two groups.\<close>

definition is_hex :: "nat \<Rightarrow> bool" where
  "is_hex c \<longleftrightarrow> (48 \<le> c \<and> c \<le> 57) \<or> (65 \<le> c \<and> c \<le> 70) \<or> (97 \<le> c \<and> c \<le> 102)"

definition parseErc8128KeyId :: "str \<Rightarrow> (jsn \<times> str) option" where
  "parseErc8128KeyId keyid =
     (let rest = drop 8 keyid; digits = takeWhile is_digit rest; addr = drop (length digits + 1) rest
      in if starts_with keyid (js ''erc8128:'') \<and> digits \<noteq> [] \<and> drop (length digits) rest \<noteq> [] \<and>
            hd (drop (length digits) rest) = 58 \<and> starts_with addr (js ''0x'') \<and> length addr = 42 \<and>
            list_all is_hex (drop 2 addr)
         then Some (to_number digits, to_lower addr) else None)"

text \<open>
  The wallet's packages: the hash, the signature, and the public key (65 bytes) that a compact signature with its recovery
  rbit yields for a digest; None when the import fails.
\<close>

record wallet_crypto =
  wc_keccak :: "bytes \<Rightarrow> bytes"
  wc_recover :: "bytes \<Rightarrow> nat \<Rightarrow> bytes \<Rightarrow> js_error + bytes"
  wc_sign :: "bytes \<Rightarrow> bytes \<Rightarrow> bytes \<times> nat"

definition loadNoble :: "wallet_crypto option \<Rightarrow> js_error + wallet_crypto" where
  "loadNoble pkg =
     (case pkg of
        Some n \<Rightarrow> Inr n
      | None \<Rightarrow> Inl (Thrown (js ''ERC-8128 verification requires the optional dependencies @noble/curves and @noble/hashes to be installed'')))"

definition eip191_message :: "str \<Rightarrow> bytes" where
  "eip191_message M =
     text_bytes (25 # js ''Ethereum Signed Message:'' @ 10 # show_nat (length (text_bytes M))) @ text_bytes M"

definition eip191HashWith :: "(bytes \<Rightarrow> bytes) \<Rightarrow> str \<Rightarrow> bytes" where
  "eip191HashWith keccak M = keccak (eip191_message M)"

definition eip191Hash :: "wallet_crypto option \<Rightarrow> str \<Rightarrow> js_error + bytes" where
  "eip191Hash pkg M = bindE (loadNoble pkg) (\<lambda>n. Inr (eip191HashWith (wc_keccak n) M))"

definition wallet_address :: "wallet_crypto \<Rightarrow> bytes \<Rightarrow> str" where
  "wallet_address n pub =
     (let hash = wc_keccak n (drop 1 pub) in bytesToHex (drop (length hash - 20) hash))"

definition recoverErc8128Address :: "wallet_crypto option \<Rightarrow> str \<Rightarrow> bytes \<Rightarrow> js_error + str" where
  "recoverErc8128Address pkg M sig65 =
     bindE (loadNoble pkg) (\<lambda>n.
       if length sig65 \<noteq> 65
       then Inl (Thrown (js ''ERC-8128 signature must be 65 bytes (got '' @ show_nat (length sig65) @ js '')''))
       else
         let v0 = unat (sig65 ! 64); v = (if v0 = 27 \<or> v0 = 28 then v0 - 27 else v0)
         in if v \<noteq> 0 \<and> v \<noteq> 1 then Inl (Thrown (js ''invalid recovery byte v='' @ show_nat v0))
            else bindE (wc_recover n (take 64 sig65) v (eip191HashWith (wc_keccak n) M)) (\<lambda>pub.
                   Inr (wallet_address n pub)))"

definition signErc8128 :: "wallet_crypto option \<Rightarrow> str \<Rightarrow> bytes \<Rightarrow> js_error + bytes" where
  "signErc8128 pkg M privKey =
     bindE (loadNoble pkg) (\<lambda>n.
       case wc_sign n (eip191HashWith (wc_keccak n) M) privKey of
         (rs, recovery) \<Rightarrow> Inr (rs @ [of_nat recovery]))"

record erc8128_opts =
  eo_window :: window_opts
  eo_identityOf :: "(str \<Rightarrow> agent_identity option) option"
  eo_resolveContractSig :: "(str \<Rightarrow> jsn \<Rightarrow> bytes \<Rightarrow> bytes \<Rightarrow> bool) option"
  eo_base64 :: "str \<Rightarrow> bytes"
  eo_noble :: "wallet_crypto option"

definition erc8128_check_base :: "erc8128_opts \<Rightarrow> jsn \<Rightarrow> str \<Rightarrow> bytes \<Rightarrow> str \<Rightarrow> js_error + identity_result" where
  "erc8128_check_base opts chainId address sig base =
     (case recoverErc8128Address (eo_noble opts) base sig of
        Inl e \<Rightarrow>
          (case eo_resolveContractSig opts of
             None \<Rightarrow> Inr (unverified (RecoveryFailed e))
           | Some check \<Rightarrow> bindE (eip191Hash (eo_noble opts) base) (\<lambda>digest.
               Inr (if check address chainId digest sig then verified_as (eo_identityOf opts) address
                    else unverified ContractRejected)))
      | Inr recovered \<Rightarrow>
          if recovered = address then Inr (verified_as (eo_identityOf opts) address)
          else
            (case eo_resolveContractSig opts of
               None \<Rightarrow> Inr (unverified (AddressMismatch (Some recovered) address))
             | Some check \<Rightarrow> bindE (eip191Hash (eo_noble opts) base) (\<lambda>digest.
                 Inr (if check address chainId digest sig then verified_as (eo_identityOf opts) address
                      else unverified ContractRejected))))"

definition erc8128_check_params ::
  "erc8128_opts \<Rightarrow> signed_request \<Rightarrow> str \<Rightarrow> signature_params \<Rightarrow> js_error + identity_result" where
  "erc8128_check_params opts req label params =
     (if nullish (sp_keyid params) [] = [] then Inr (unverified MissingKeyid)
      else
        (case parseErc8128KeyId (nullish (sp_keyid params) []) of
           None \<Rightarrow> Inr (unverified (NotErc8128Keyid (nullish (sp_keyid params) [])))
         | Some (chainId, address) \<Rightarrow>
             (case window_fault (eo_window opts) params of
                Some fault \<Rightarrow> Inr (unverified fault)
              | None \<Rightarrow>
                  (case parseSignatureBytes (eo_base64 opts) (nullish (rq_signature req) []) label of
                     None \<Rightarrow> Inr (unverified (NoSignatureFor label))
                   | Some sigBytes \<Rightarrow>
                       bindE (buildSignatureBase req params) (\<lambda>b.
                         case b of
                           None \<Rightarrow> Inr (unverified ComponentMissing)
                         | Some base \<Rightarrow> erc8128_check_base opts chainId address sigBytes base)))))"

definition erc8128Verifier :: "erc8128_opts \<Rightarrow> signed_request option \<Rightarrow> js_error + identity_result" where
  "erc8128Verifier opts presented =
     (case presented of
        None \<Rightarrow> Inr (unverified NotSignedRequest)
      | Some req \<Rightarrow>
          if rq_signatureInput req = None \<or> rq_signature req = None \<or> rq_method req = None
          then Inr (unverified NotSignedRequest)
          else
            (case parseSignatureInput (nullish (rq_signatureInput req) []) (wo_label (eo_window opts)) of
               None \<Rightarrow> Inr (unverified MalformedSignatureInput)
             | Some (label, params) \<Rightarrow> erc8128_check_params opts req label params))"

section \<open>What a verified request has passed\<close>

lemma unverified_simps [simp]:
  "\<not> ir_verified (unverified r)" "ir_verified (verified_as f k)"
  "ir_identity (verified_as f k) = bound_identity f k" "ir_identity (unverified r) = unknown_identity"
  "attestationFromIdentityResult (unverified r) = AttNone"
  by (simp_all add: unverified_def verified_as_def attestationFromIdentityResult_def)

lemma visa_check_base_verified:
  "ir_verified (visa_check_base opts keyid sig base) \<longleftrightarrow>
     (\<exists>key. vt_resolveKey opts keyid = Some key \<and> vt_verify opts (text_bytes base) key sig = Inr True)"
  by (simp add: visa_check_base_def split: option.split)

lemma visa_check_base_identity:
  "ir_verified (visa_check_base opts keyid sig base) \<Longrightarrow>
     ir_identity (visa_check_base opts keyid sig base) = bound_identity (vt_identityOf opts) keyid"
  by (auto simp: visa_check_base_def split: option.splits if_splits)

lemma visa_verifiedE:
  assumes "visaTapVerifier opts presented = Inr res" "ir_verified res"
  obtains req label params keyid sig base where
    "presented = Some req"
    "parseSignatureInput (nullish (rq_signatureInput req) []) (wo_label (vt_window opts)) = Some (label, params)"
    "sp_alg params = Some (js ''ed25519'')" "sp_keyid params = Some keyid" "keyid \<noteq> []"
    "window_fault (vt_window opts) params = None"
    "parseSignatureBytes (vt_base64 opts) (nullish (rq_signature req) []) label = Some sig"
    "buildSignatureBase req params = Inr (Some base)" "res = visa_check_base opts keyid sig base"
proof -
  obtain req where req: "presented = Some req"
    using assms by (cases presented) (auto simp: visaTapVerifier_def)
  obtain label params where p:
    "parseSignatureInput (nullish (rq_signatureInput req) []) (wo_label (vt_window opts)) = Some (label, params)"
    "visa_check_params opts req label params = Inr res"
    using assms by (auto simp: visaTapVerifier_def req split: if_splits option.splits)
  note step = visa_check_params_def
  have alg: "sp_alg params = Some (js ''ed25519'')"
    using p(2) assms(2) by (cases "sp_alg params = Some (js ''ed25519'')") (auto simp: step)
  have keyid: "nullish (sp_keyid params) [] \<noteq> []"
    using p(2) assms(2) alg by (cases "nullish (sp_keyid params) [] = []") (auto simp: step)
  then obtain k where k: "sp_keyid params = Some k" "k \<noteq> []" by (cases "sp_keyid params") simp_all
  have window: "window_fault (vt_window opts) params = None"
    using p(2) assms(2) alg k by (cases "window_fault (vt_window opts) params") (auto simp: step)
  obtain sig where sig: "parseSignatureBytes (vt_base64 opts) (nullish (rq_signature req) []) label = Some sig"
    using p(2) assms(2) alg k window
    by (cases "parseSignatureBytes (vt_base64 opts) (nullish (rq_signature req) []) label") (auto simp: step)
  obtain b where b: "buildSignatureBase req params = Inr b"
    using p(2) alg k window sig by (cases "buildSignatureBase req params") (auto simp: step)
  obtain base where base: "b = Some base" "res = visa_check_base opts k sig base"
    using p(2) assms(2) alg k window sig b by (cases b) (auto simp: step)
  from req p(1) alg k window sig b base show ?thesis by (intro that) auto
qed

section \<open>What a signature base fixes\<close>

lemma join_lines_no_nl:
  assumes "\<forall>l \<in> set ls. 10 \<notin> set l" "\<forall>l \<in> set ms. 10 \<notin> set l" "length ls = length ms" "join_lines ls = join_lines ms"
  shows "ls = ms"
  using assms(3,1,2,4)
proof (induction ls ms rule: list_induct2)
  case (Cons l ls m ms)
  then show ?case
  proof (cases ls)
    case Nil
    with Cons show ?thesis by simp
  next
    case (Cons l' ls')
    then obtain m' ms' where ms: "ms = m' # ms'" using Cons.hyps by (cases ms) auto
    from Cons.prems Cons ms have "l @ 10 # join_lines ls = m @ 10 # join_lines ms" by simp
    moreover have "10 \<notin> set l" "10 \<notin> set m" using Cons.prems by auto
    ultimately have "l = m \<and> join_lines ls = join_lines ms" by (metis first_sep_unique)
    with Cons.IH Cons.prems show ?thesis by simp
  qed
qed simp

text \<open>The lines of a base are the covered components with their values.\<close>

lemma component_lines_Some:
  "component_lines req is = Inr (Some ls) \<longleftrightarrow>
     list_all2 (\<lambda>i l. \<exists>v. componentValue i req = Inr (Some v) \<and> l = i @ js '': '' @ v) is ls"
proof (induction "is" arbitrary: ls)
  case (Cons i "is")
  show ?case
  proof
    assume "component_lines req (i # is) = Inr (Some ls)"
    then obtain v ls' where "componentValue i req = Inr (Some v)" "component_lines req is = Inr (Some ls')"
      "ls = (i @ js '': '' @ v) # ls'"
      by (auto simp: bindE_Inr_iff split: option.splits)
    then show "list_all2 (\<lambda>i l. \<exists>v. componentValue i req = Inr (Some v) \<and> l = i @ js '': '' @ v) (i # is) ls"
      using Cons.IH by auto
  next
    assume "list_all2 (\<lambda>i l. \<exists>v. componentValue i req = Inr (Some v) \<and> l = i @ js '': '' @ v) (i # is) ls"
    then obtain v ls' where "ls = (i @ js '': '' @ v) # ls'" "componentValue i req = Inr (Some v)"
      "list_all2 (\<lambda>i l. \<exists>v. componentValue i req = Inr (Some v) \<and> l = i @ js '': '' @ v) is ls'"
      by (auto simp: list_all2_Cons1)
    with Cons.IH [of ls'] show "component_lines req (i # is) = Inr (Some ls)" by simp
  qed
qed (auto simp: eq_commute)

lemma buildSignatureBase_Some:
  "buildSignatureBase req params = Inr (Some base) \<longleftrightarrow>
     (\<exists>ls. component_lines req (sp_components params) = Inr (Some ls) \<and>
        base = join_lines (ls @ [34 # js ''@signature-params'' @ 34 # js '': '' @ sp_raw params]))"
  by (auto simp: buildSignatureBase_def bindE_Inr_iff)

text \<open>No line of a request breaks: what holds of the values of a parsed HTTP message.\<close>

definition single_line :: "signed_request \<Rightarrow> str list \<Rightarrow> bool" where
  "single_line req is \<longleftrightarrow> (\<forall>i \<in> set is. 10 \<notin> set i \<and> (\<forall>v. componentValue i req = Inr (Some v) \<longrightarrow> 10 \<notin> set v))"

lemma single_line_lines:
  assumes "single_line req is" "component_lines req is = Inr (Some ls)"
  shows "\<forall>l \<in> set ls. 10 \<notin> set l"
proof
  fix l assume "l \<in> set ls"
  with assms(2) obtain i v where "i \<in> set is" "componentValue i req = Inr (Some v)" "l = i @ js '': '' @ v"
    unfolding component_lines_Some list_all2_conv_all_nth in_set_conv_nth by metis
  with assms(1) show "10 \<notin> set l" by (auto simp: single_line_def js_def)
qed

lemma same_base_same_values:
  assumes "buildSignatureBase req params = Inr (Some base)" "buildSignatureBase req' params = Inr (Some base)"
    and "single_line req (sp_components params)" "single_line req' (sp_components params)" "10 \<notin> set (sp_raw params)"
    and "i \<in> set (sp_components params)"
  shows "componentValue i req = componentValue i req'"
proof -
  let ?last = "34 # js ''@signature-params'' @ 34 # js '': '' @ sp_raw params"
  from assms(1) obtain ls where ls: "component_lines req (sp_components params) = Inr (Some ls)" "base = join_lines (ls @ [?last])"
    by (auto simp: buildSignatureBase_Some)
  from assms(2) obtain ms where ms: "component_lines req' (sp_components params) = Inr (Some ms)" "base = join_lines (ms @ [?last])"
    by (auto simp: buildSignatureBase_Some)
  have len: "length ls = length ms"
    using list_all2_lengthD [OF ls(1) [unfolded component_lines_Some]]
      list_all2_lengthD [OF ms(1) [unfolded component_lines_Some]] by simp
  have last: "10 \<notin> set ?last" using assms(5) by (auto simp: js_def)
  have "ls @ [?last] = ms @ [?last]"
    by (rule join_lines_no_nl)
      (use ls ms len last single_line_lines [OF assms(3) ls(1)] single_line_lines [OF assms(4) ms(1)] in auto)
  then have "ls = ms" by simp
  from assms(6) obtain n where n: "n < length (sp_components params)" "sp_components params ! n = i"
    by (auto simp: in_set_conv_nth)
  obtain v where v: "componentValue i req = Inr (Some v)" "ls ! n = i @ js '': '' @ v"
    using ls(1) n unfolding component_lines_Some list_all2_conv_all_nth by blast
  obtain v' where "componentValue i req' = Inr (Some v')" "ms ! n = i @ js '': '' @ v'"
    using ms(1) n unfolding component_lines_Some list_all2_conv_all_nth by blast
  with v \<open>ls = ms\<close> show ?thesis by simp
qed

text \<open>The bytes of an ASCII text determine it.\<close>

definition ascii_base :: "signed_request \<Rightarrow> signature_params \<Rightarrow> bool" where
  "ascii_base req params \<longleftrightarrow>
     (\<forall>b. buildSignatureBase req params = Inr (Some b) \<longrightarrow> (\<forall>c \<in> set b. c < 128))"

lemma utf8_ascii: "\<forall>c \<in> set s. c < 128 \<Longrightarrow> utf8 s = s"
  by (induction s rule: utf8.induct) (simp_all add: utf8_code_def)

lemma text_bytes_ascii:
  assumes "text_bytes s = text_bytes t" "\<forall>c \<in> set s. c < 128" "\<forall>c \<in> set t. c < 128"
  shows "s = t"
proof -
  have "map (unat \<circ> (of_nat :: nat \<Rightarrow> 8 word)) u = u" if "\<forall>c \<in> set u. c < 128" for u
    using that by (intro map_idI) (force simp: unat_of_nat)
  with assms show ?thesis by (metis list.map_comp text_bytes_def utf8_ascii)
qed

text \<open>What a base reads of a request: the covered components.\<close>

lemma component_lines_cong:
  "\<forall>i \<in> set is. componentValue i req = componentValue i req' \<Longrightarrow> component_lines req is = component_lines req' is"
  by (induction "is") simp_all

lemma buildSignatureBase_cong:
  "\<forall>i \<in> set (sp_components params). componentValue i req = componentValue i req' \<Longrightarrow>
     buildSignatureBase req params = buildSignatureBase req' params"
  by (simp add: buildSignatureBase_def component_lines_cong [of _ req req'])

lemma erc8128_check_base_verified:
  assumes "erc8128_check_base opts chainId address sig base = Inr res" "ir_verified res"
  shows "res = verified_as (eo_identityOf opts) address \<and>
    (recoverErc8128Address (eo_noble opts) base sig = Inr address \<or>
     (\<exists>check n. eo_resolveContractSig opts = Some check \<and> eo_noble opts = Some n \<and>
        check address chainId (eip191HashWith (wc_keccak n) base) sig))"
  using assms
  by (auto simp: erc8128_check_base_def eip191Hash_def loadNoble_def bindE_Inr_iff
      split: sum.splits option.splits if_splits)

lemma erc8128_verifiedE:
  assumes "erc8128Verifier opts presented = Inr res" "ir_verified res"
  obtains req label params keyid chainId address sig base where
    "presented = Some req"
    "parseSignatureInput (nullish (rq_signatureInput req) []) (wo_label (eo_window opts)) = Some (label, params)"
    "sp_keyid params = Some keyid" "parseErc8128KeyId keyid = Some (chainId, address)"
    "window_fault (eo_window opts) params = None"
    "parseSignatureBytes (eo_base64 opts) (nullish (rq_signature req) []) label = Some sig"
    "buildSignatureBase req params = Inr (Some base)"
    "erc8128_check_base opts chainId address sig base = Inr res"
proof -
  obtain req where req: "presented = Some req"
    using assms by (cases presented) (auto simp: erc8128Verifier_def)
  obtain label params where p:
    "parseSignatureInput (nullish (rq_signatureInput req) []) (wo_label (eo_window opts)) = Some (label, params)"
    "erc8128_check_params opts req label params = Inr res"
    using assms by (auto simp: erc8128Verifier_def req split: if_splits option.splits)
  note step = erc8128_check_params_def
  have keyid: "nullish (sp_keyid params) [] \<noteq> []"
    using p(2) assms(2) by (cases "nullish (sp_keyid params) [] = []") (auto simp: step)
  then obtain k where k: "sp_keyid params = Some k" "k \<noteq> []" by (cases "sp_keyid params") simp_all
  obtain ch ad where key: "parseErc8128KeyId k = Some (ch, ad)"
    using p(2) assms(2) k by (cases "parseErc8128KeyId k") (auto simp: step)
  have window: "window_fault (eo_window opts) params = None"
    using p(2) assms(2) k key by (cases "window_fault (eo_window opts) params") (auto simp: step)
  obtain sig where sig: "parseSignatureBytes (eo_base64 opts) (nullish (rq_signature req) []) label = Some sig"
    using p(2) assms(2) k key window
    by (cases "parseSignatureBytes (eo_base64 opts) (nullish (rq_signature req) []) label") (auto simp: step)
  obtain b where b: "buildSignatureBase req params = Inr b"
    using p(2) k key window sig by (cases "buildSignatureBase req params") (auto simp: step)
  obtain base where base: "b = Some base" "erc8128_check_base opts ch ad sig base = Inr res"
    using p(2) assms(2) k key window sig b by (cases b) (auto simp: step)
  from req p(1) k key window sig b base show ?thesis by (intro that) auto
qed

text \<open>The address of an accepted key id is a lower-case hexadecimal address.\<close>

lemma parseErc8128KeyId_address:
  assumes "parseErc8128KeyId keyid = Some (chainId, address)"
  shows "length address = 42 \<and> starts_with keyid (js ''erc8128:'')"
  using assms by (auto simp: parseErc8128KeyId_def Let_def to_lower_def split: if_splits)

section \<open>Properties\<close>

text \<open>
  Fact: a verified identity is signed. Only a request whose signature input names Ed25519 and a
  known key, whose window of validity is open, and whose rebuilt base verifies under that key, is
  verified, and then it is the identity bound to the key. Every other answer attests nothing.
\<close>

theorem visa_verified_is_signed:
  assumes "visaTapVerifier opts (Some req) = Inr res" "attestationFromIdentityResult res \<noteq> AttNone"
  shows "\<exists>label params keyid key sig base.
    parseSignatureInput (nullish (rq_signatureInput req) []) (wo_label (vt_window opts)) = Some (label, params) \<and>
    sp_alg params = Some (js ''ed25519'') \<and> sp_keyid params = Some keyid \<and>
    window_fault (vt_window opts) params = None \<and> buildSignatureBase req params = Inr (Some base) \<and>
    vt_resolveKey opts keyid = Some key \<and> vt_verify opts (text_bytes base) key sig = Inr True \<and>
    ir_identity res = bound_identity (vt_identityOf opts) keyid"
proof -
  from assms(2) have "ir_verified res" by (simp add: attestationFromIdentityResult_def split: if_splits)
  from visa_verifiedE [OF assms(1) this] obtain req' label params keyid sig base where v:
    "Some req = Some req'"
    "parseSignatureInput (nullish (rq_signatureInput req') []) (wo_label (vt_window opts)) = Some (label, params)"
    "sp_alg params = Some (js ''ed25519'')" "sp_keyid params = Some keyid"
    "window_fault (vt_window opts) params = None" "buildSignatureBase req' params = Inr (Some base)"
    "res = visa_check_base opts keyid sig base" by metis
  from \<open>ir_verified res\<close> v(7) obtain key where
    "vt_resolveKey opts keyid = Some key" "vt_verify opts (text_bytes base) key sig = Inr True"
    by (auto simp: visa_check_base_verified)
  with v \<open>ir_verified res\<close> visa_check_base_identity [of opts keyid sig base] show ?thesis by auto
qed


text \<open>
  Fact: and nothing else. The verdict depends on the request only through its signature headers
  and the covered components: a signature input that covers nothing is good for every method, host, path
  and header.
\<close>

theorem verdict_reads_covered_only:
  assumes "rq_signatureInput req' = rq_signatureInput req" "rq_signature req' = rq_signature req"
    and "rq_method req = None \<longleftrightarrow> rq_method req' = None"
    and "\<forall>label params. parseSignatureInput (nullish (rq_signatureInput req) []) (wo_label (vt_window opts)) = Some (label, params) \<longrightarrow>
       (\<forall>i \<in> set (sp_components params). componentValue i req = componentValue i req')"
  shows "visaTapVerifier opts (Some req') = visaTapVerifier opts (Some req)"
proof (cases "parseSignatureInput (nullish (rq_signatureInput req) []) (wo_label (vt_window opts))")
  case None
  with assms(1-3) show ?thesis by (simp add: visaTapVerifier_def)
next
  case (Some lp)
  obtain label params where lp: "lp = (label, params)" by (cases lp)
  with Some assms(4) have "buildSignatureBase req params = buildSignatureBase req' params"
    by (intro buildSignatureBase_cong) blast
  then have "visa_check_params opts req' label params = visa_check_params opts req label params"
    by (simp add: visa_check_params_def assms(2) cong: option.case_cong if_cong)
  with Some lp assms(1-3) show ?thesis by (simp add: visaTapVerifier_def)
qed

text \<open>
  Fact: a signature input that names neither a creation nor an expiry time, or that names a creation
  time that is not a number, passes the window at every instant: it never grows old.
\<close>

theorem undated_signature_never_expires:
  assumes "sp_expires params = None" "sp_created params = None \<or> sp_created params = Some NaN"
  shows "visa_check_params (opts\<lparr>vt_window := w\<lparr>wo_now := t\<rparr>\<rparr>) req label params =
    visa_check_params (opts\<lparr>vt_window := w\<lparr>wo_now := t'\<rparr>\<rparr>) req label params"
proof -
  have "window_fault (w\<lparr>wo_now := t\<rparr>) params = None" for t
    using assms by (auto simp: window_fault_def Let_def)
  moreover have "visa_check_base (opts\<lparr>vt_window := w\<lparr>wo_now := t\<rparr>\<rparr>) = visa_check_base (opts\<lparr>vt_window := w\<lparr>wo_now := t'\<rparr>\<rparr>)"
    by (intro ext) (simp add: visa_check_base_def cong: option.case_cong if_cong)
  ultimately show ?thesis by (simp add: visa_check_params_def cong: option.case_cong if_cong)
qed

text \<open>
  Fact: a wallet-signed request is verified only as the address of its key id: either that
  address is recovered from the signature of the rebuilt base, or the operator's contract check accepts it.
\<close>

theorem erc8128_verified_is_signer:
  assumes "erc8128Verifier opts (Some req) = Inr res" "ir_verified res"
  shows "\<exists>label params keyid chainId address sig base.
    parseSignatureInput (nullish (rq_signatureInput req) []) (wo_label (eo_window opts)) = Some (label, params) \<and>
    sp_keyid params = Some keyid \<and> parseErc8128KeyId keyid = Some (chainId, address) \<and> length address = 42 \<and>
    window_fault (eo_window opts) params = None \<and> buildSignatureBase req params = Inr (Some base) \<and>
    ir_identity res = bound_identity (eo_identityOf opts) address \<and>
    (recoverErc8128Address (eo_noble opts) base sig = Inr address \<or>
     (\<exists>check n. eo_resolveContractSig opts = Some check \<and> eo_noble opts = Some n \<and>
        check address chainId (eip191HashWith (wc_keccak n) base) sig))"
proof -
  from erc8128_verifiedE [OF assms] obtain req' label params keyid chainId address sig base where v:
    "Some req = Some req'"
    "parseSignatureInput (nullish (rq_signatureInput req') []) (wo_label (eo_window opts)) = Some (label, params)"
    "sp_keyid params = Some keyid" "parseErc8128KeyId keyid = Some (chainId, address)"
    "window_fault (eo_window opts) params = None" "buildSignatureBase req' params = Inr (Some base)"
    "erc8128_check_base opts chainId address sig base = Inr res" by metis
  with erc8128_check_base_verified [OF v(7) assms(2)] parseErc8128KeyId_address [OF v(4)] show ?thesis
    by (intro exI [of _ label] exI [of _ params] exI [of _ keyid] exI [of _ chainId] exI [of _ address]
        exI [of _ sig] exI [of _ base]) simp
qed

text \<open>
  Fact: what a wallet signs is recovered as its address, under the documented law of the
  curve for its key.
\<close>

theorem wallet_signature_round_trip:
  assumes "\<forall>digest. case wc_sign n digest priv of (rs, rbit) \<Rightarrow>
      length rs = 64 \<and> (rbit = 0 \<or> rbit = 1) \<and> wc_recover n rs rbit digest = Inr pub"
  shows "bindE (signErc8128 (Some n) M priv) (recoverErc8128Address (Some n) M) = Inr (wallet_address n pub)"
proof -
  obtain rs rbit where sg: "wc_sign n (eip191HashWith (wc_keccak n) M) priv = (rs, rbit)" by fastforce
  with assms have law: "length rs = 64" "rbit = 0 \<or> rbit = 1"
    "wc_recover n rs rbit (eip191HashWith (wc_keccak n) M) = Inr pub"
    by (metis (mono_tags, lifting) case_prod_conv)+
  have "unat (of_nat rbit :: 8 word) = rbit" using law(2) by auto
  with law sg show ?thesis
    by (auto simp: signErc8128_def recoverErc8128Address_def loadNoble_def nth_append Let_def)
qed

text \<open>
  Fact: a package does not lower the bar. With or without it a request is verified only under
  Ed25519, with a key that resolves, inside its window, and without it the answer is that of the verifier above.
\<close>

theorem library_verifier_same_checks:
  assumes "httpMessageSignaturesVerifier package opts (Some req) = Inr res" "ir_verified res"
  shows "\<exists>label params keyid key.
    parseSignatureInput (nullish (rq_signatureInput req) []) (wo_label (vt_window opts)) = Some (label, params) \<and>
    sp_alg params = Some (js ''ed25519'') \<and> sp_keyid params = Some keyid \<and>
    window_fault (vt_window opts) params = None \<and> vt_resolveKey opts keyid = Some key \<and>
    ir_identity res = bound_identity (vt_identityOf opts) keyid"
proof (cases package)
  case None
  with assms have run: "visaTapVerifier opts (Some req) = Inr res" by (simp add: httpMessageSignaturesVerifier_def)
  from visa_verifiedE [OF run assms(2)] obtain req' label params keyid sig base where v:
    "Some req = Some req'"
    "parseSignatureInput (nullish (rq_signatureInput req') []) (wo_label (vt_window opts)) = Some (label, params)"
    "sp_alg params = Some (js ''ed25519'')" "sp_keyid params = Some keyid"
    "window_fault (vt_window opts) params = None" "res = visa_check_base opts keyid sig base" by metis
  from assms(2) v(6) obtain key where "vt_resolveKey opts keyid = Some key" by (auto simp: visa_check_base_verified)
  with v assms(2) visa_check_base_identity [of opts keyid sig base] show ?thesis by auto
next
  case (Some verifyMessage)
  obtain label params where p:
    "parseSignatureInput (nullish (rq_signatureInput req) []) (wo_label (vt_window opts)) = Some (label, params)"
    "res = library_check verifyMessage opts req params"
    using assms by (auto simp: httpMessageSignaturesVerifier_def Some split: if_splits option.splits)
  note step = library_check_def Let_def
  have alg: "sp_alg params = Some (js ''ed25519'')"
    using p(2) assms(2) by (cases "sp_alg params = Some (js ''ed25519'')") (simp_all add: step)
  have "nullish (sp_keyid params) [] \<noteq> []"
    using p(2) assms(2) alg by (cases "nullish (sp_keyid params) [] = []") (simp_all add: step)
  then obtain k where k: "sp_keyid params = Some k" "k \<noteq> []" by (cases "sp_keyid params") simp_all
  have window: "window_fault (vt_window opts) params = None"
    using p(2) assms(2) alg k by (cases "window_fault (vt_window opts) params") (simp_all add: step)
  obtain key where key: "vt_resolveKey opts k = Some key"
    using p(2) assms(2) alg k window by (cases "vt_resolveKey opts k") (simp_all add: step)
  have "res = verified_as (vt_identityOf opts) k"
    using p(2) assms(2) alg k window key by (simp add: step split: if_splits)
  with p(1) alg k window key show ?thesis by simp
qed

text \<open>
  Fact: the verifiers for development attest nothing, whatever a caller asserts.
\<close>

theorem asserted_identity_not_attested:
  "attestationFromIdentityResult noopVerifier = AttNone \<and>
   attestationFromIdentityResult (staticIdentityVerifier records agentId) = AttNone \<and>
   id_attestation (ir_identity (staticIdentityVerifier records agentId)) = AttNone"
  by (simp add: noopVerifier_def staticIdentityVerifier_def attestationFromIdentityResult_def unknown_identity_def
      split: option.split)

section \<open>A concrete request\<close>

definition example_input :: str where
  "example_input = js ''s=(\"@path\");created=1700000000;keyid=\"k\";alg=\"ed25519\"''"

definition example_params :: signature_params where
  "example_params =
     \<lparr>sp_components = [34 # js ''@path'' @ [34]], sp_created = Some (Fin 1700000000), sp_expires = None,
      sp_keyid = Some (js ''k''), sp_alg = Some (js ''ed25519''),
      sp_raw = js ''(\"@path\");created=1700000000;keyid=\"k\";alg=\"ed25519\"''\<rparr>"

lemmas parse_eval = parseSignatureInput_def splitTopLevel_def input_entry_def cut_at_def Let_def trim_def is_space_def
  starts_with_def set_param_def unquote_def to_number_def number_of_text_def radix_prefix_def decimal_of_def
  is_digit_def exponent_of_def digits_value_def

lemma example_input_parsed: "parseSignatureInput example_input None = Some (js ''s'', example_params)"
  unfolding example_input_def example_params_def by (simp add: parse_eval js_def)

definition example_signed :: "string \<Rightarrow> string \<Rightarrow> signed_request" where
  "example_signed meth path =
     \<lparr>rq_method = Some (js meth), rq_authority = None, rq_path = Some (js path), rq_headers = None,
      rq_signatureInput = Some example_input, rq_signature = Some (js ''s=:x:'')\<rparr>"

lemma example_signed_simps [simp]:
  "rq_method (example_signed meth path) = Some (js meth)" "rq_path (example_signed meth path) = Some (js path)"
  "rq_signatureInput (example_signed meth path) = Some example_input"
  "rq_signature (example_signed meth path) = Some (js ''s=:x:'')"
  by (simp_all add: example_signed_def)

definition example_base :: str where
  "example_base = (34 # js ''@path'' @ 34 # js '': /pay'') @ 10 # 34 # js ''@signature-params'' @ 34 # js '': '' @ sp_raw example_params"

lemma example_base_built: "buildSignatureBase (example_signed meth ''/pay'') example_params = Inr (Some example_base)"
  by (simp add: buildSignatureBase_def example_params_def example_signed_def componentValue_def strip_quotes_def
      example_base_def starts_with_def) (simp add: js_def)

text \<open>A scheme whose only valid signature is that of the example's text.\<close>

definition example_visa :: "unit visa_opts" where
  "example_visa =
     \<lparr>vt_window = \<lparr>wo_now = 1700000010000, wo_maxAge = None, wo_tolerance = None, wo_label = None\<rparr>,
      vt_resolveKey = (\<lambda>k. Some ()), vt_identityOf = None, vt_base64 = (\<lambda>s. []),
      vt_verify = (\<lambda>m key sig. Inr (m = text_bytes example_base))\<rparr>"

lemma example_visa_verified:
  "visaTapVerifier example_visa (Some (example_signed meth ''/pay'')) = Inr (verified_as None (js ''k''))"
proof -
  have window: "window_fault (vt_window example_visa) example_params = None"
  proof -
    have "\<lfloor>1700000010000 / 1000 :: rat\<rfloor> = 1700000010" by simp
    then show ?thesis by (simp add: window_fault_def example_visa_def example_params_def math_floor_def)
  qed
  have sig: "parseSignatureBytes (vt_base64 example_visa) (js ''s=:x:'') (js ''s'') = Some []"
    by (simp add: parseSignatureBytes_def splitTopLevel_def cut_at_def uncolon_def trim_def is_space_def example_visa_def js_def)
  have p: "parseSignatureInput example_input (wo_label (vt_window example_visa)) = Some (js ''s'', example_params)"
    using example_input_parsed by (simp add: example_visa_def)
  have base: "visa_check_base example_visa (js ''k'') [] example_base = verified_as None (js ''k'')"
    by (simp add: visa_check_base_def example_visa_def)
  have params: "sp_alg example_params = Some (js ''ed25519'')" "sp_keyid example_params = Some (js ''k'')"
    by (simp_all add: example_params_def)
  have "visa_check_params example_visa (example_signed meth ''/pay'') (js ''s'') example_params = Inr (verified_as None (js ''k''))"
    by (simp add: visa_check_params_def params window example_base_built base sig)
  then show ?thesis by (simp add: visaTapVerifier_def p)
qed

theorem visa_verified_is_signed_witness:
  "\<exists>params base. buildSignatureBase (example_signed ''POST'' ''/pay'') params = Inr (Some base) \<and>
     vt_verify example_visa (text_bytes base) () [] = Inr True"
proof -
  have "attestationFromIdentityResult (verified_as None (js ''k'')) \<noteq> AttNone"
    by (simp add: attestationFromIdentityResult_def bound_identity_def)
  from visa_verified_is_signed [OF example_visa_verified this] obtain params base key sig where
    "buildSignatureBase (example_signed ''POST'' ''/pay'') params = Inr (Some base)"
    "vt_verify example_visa (text_bytes base) key sig = Inr True" by blast
  moreover have "vt_verify example_visa m key sig = vt_verify example_visa m () []" for m key sig
    by (simp add: example_visa_def)
  ultimately show ?thesis by (metis (full_types))
qed


theorem verdict_reads_covered_only_witness:
  "visaTapVerifier example_visa (Some (example_signed ''DELETE'' ''/pay'')) =
     visaTapVerifier example_visa (Some (example_signed ''GET'' ''/pay''))"
proof (rule verdict_reads_covered_only)
  show "\<forall>label params. parseSignatureInput (nullish (rq_signatureInput (example_signed ''GET'' ''/pay'')) [])
        (wo_label (vt_window example_visa)) = Some (label, params) \<longrightarrow>
      (\<forall>i \<in> set (sp_components params). componentValue i (example_signed ''GET'' ''/pay'') =
         componentValue i (example_signed ''DELETE'' ''/pay''))"
    by (simp add: example_signed_def example_visa_def example_input_parsed)
      (simp add: example_params_def componentValue_def strip_quotes_def)
qed (simp_all add: example_signed_def)

theorem undated_signature_never_expires_witness:
  "visa_check_params example_visa (example_signed ''GET'' ''/pay'') (js ''s'') (example_params\<lparr>sp_created := Some NaN\<rparr>) =
     visa_check_params (example_visa\<lparr>vt_window := (vt_window example_visa)\<lparr>wo_now := 9000000000000\<rparr>\<rparr>)
       (example_signed ''GET'' ''/pay'') (js ''s'') (example_params\<lparr>sp_created := Some NaN\<rparr>)"
  using undated_signature_never_expires [where params = "example_params\<lparr>sp_created := Some NaN\<rparr>" and opts = example_visa
      and w = "vt_window example_visa" and t = "wo_now (vt_window example_visa)" and req = "example_signed ''GET'' ''/pay''"
      and label = "js ''s''" and t' = 9000000000000]
  by (simp add: example_params_def)

definition example_wallet :: wallet_crypto where
  "example_wallet =
     \<lparr>wc_keccak = (\<lambda>_. replicate 32 9), wc_recover = (\<lambda>rs v d. Inr (replicate 65 4)),
      wc_sign = (\<lambda>d k. (replicate 64 1, 0))\<rparr>"

theorem wallet_signature_round_trip_witness:
  "bindE (signErc8128 (Some example_wallet) (js ''m'') []) (recoverErc8128Address (Some example_wallet) (js ''m'')) =
     Inr (wallet_address example_wallet (replicate 65 4))"
  by (rule wallet_signature_round_trip) (simp add: example_wallet_def)

definition example_wallet_input :: str where
  "example_wallet_input = js ''s=();keyid=\"erc8128:1:0x0909090909090909090909090909090909090909\"''"

definition example_wallet_params :: signature_params where
  "example_wallet_params =
     \<lparr>sp_components = [], sp_created = None, sp_expires = None, sp_keyid = Some (js ''erc8128:1:0x0909090909090909090909090909090909090909''),
      sp_alg = None, sp_raw = js ''();keyid=\"erc8128:1:0x0909090909090909090909090909090909090909\"''\<rparr>"

lemma example_wallet_parsed:
  "parseSignatureInput example_wallet_input None = Some (js ''s'', example_wallet_params)"
  unfolding example_wallet_input_def example_wallet_params_def by (simp add: parse_eval js_def)

lemma example_wallet_keyid:
  "parseErc8128KeyId (js ''erc8128:1:0x0909090909090909090909090909090909090909'') = Some (Fin 1, js ''0x0909090909090909090909090909090909090909'')"
  by (simp add: parseErc8128KeyId_def parse_eval is_hex_def to_lower_def to_lower_char_def js_def)

lemma example_wallet_address: "wallet_address example_wallet (replicate 65 4) = js ''0x0909090909090909090909090909090909090909''"
proof -
  have "replicate (numeral k) x = x # replicate (pred_numeral k) x" for k and x :: str
    by (simp add: numeral_eq_Suc)
  then show ?thesis
    by (simp add: wallet_address_def example_wallet_def bytesToHex_def byte_hex_def hex_digit_def Let_def js_def)
qed

definition example_erc8128 :: erc8128_opts where
  "example_erc8128 =
     \<lparr>eo_window = \<lparr>wo_now = 0, wo_maxAge = None, wo_tolerance = None, wo_label = None\<rparr>, eo_identityOf = None,
      eo_resolveContractSig = None, eo_base64 = (\<lambda>s. replicate 65 0), eo_noble = Some example_wallet\<rparr>"

theorem erc8128_verified_is_signer_witness:
  "\<exists>res. erc8128Verifier example_erc8128
       (Some \<lparr>rq_method = Some [], rq_authority = None, rq_path = None, rq_headers = None,
          rq_signatureInput = Some example_wallet_input, rq_signature = Some (js ''s=:x:'')\<rparr>) = Inr res \<and>
     id_agentId (ir_identity res) = js ''0x0909090909090909090909090909090909090909''"
proof -
  let ?req = "\<lparr>rq_method = Some [], rq_authority = None, rq_path = None, rq_headers = None,
    rq_signatureInput = Some example_wallet_input, rq_signature = Some (js ''s=:x:'')\<rparr>"
  have sig: "parseSignatureBytes (eo_base64 example_erc8128) (js ''s=:x:'') (js ''s'') = Some (replicate 65 0)"
    by (simp add: parseSignatureBytes_def splitTopLevel_def cut_at_def uncolon_def trim_def is_space_def example_erc8128_def js_def)
  have base: "erc8128_check_base example_erc8128 (Fin 1) (js ''0x0909090909090909090909090909090909090909'') (replicate 65 0) b =
      Inr (verified_as None (js ''0x0909090909090909090909090909090909090909''))" for b
    using example_wallet_address
    by (simp add: erc8128_check_base_def recoverErc8128Address_def example_erc8128_def loadNoble_def example_wallet_def)
  have window: "window_fault (eo_window example_erc8128) example_wallet_params = None"
    by (simp add: window_fault_def example_wallet_params_def)
  have keyid: "sp_keyid example_wallet_params = Some (js ''erc8128:1:0x0909090909090909090909090909090909090909'')"
    by (simp add: example_wallet_params_def)
  have built: "buildSignatureBase ?req example_wallet_params =
      Inr (Some (34 # js ''@signature-params'' @ 34 # js '': '' @ sp_raw example_wallet_params))"
    by (simp add: buildSignatureBase_def) (simp add: example_wallet_params_def)
  have run: "erc8128Verifier example_erc8128 (Some ?req) = Inr (verified_as None (js ''0x0909090909090909090909090909090909090909''))"
  proof -
    have "erc8128_check_params example_erc8128 ?req (js ''s'') example_wallet_params =
        Inr (verified_as None (js ''0x0909090909090909090909090909090909090909''))"
      by (simp add: erc8128_check_params_def keyid example_wallet_keyid window sig built base)
    moreover have "parseSignatureInput example_wallet_input (wo_label (eo_window example_erc8128)) =
        Some (js ''s'', example_wallet_params)"
      using example_wallet_parsed by (simp add: example_erc8128_def)
    ultimately show ?thesis by (simp add: erc8128Verifier_def)
  qed
  from erc8128_verified_is_signer [OF run] obtain label params keyid chainId address where v:
    "parseSignatureInput example_wallet_input None = Some (label, params)" "sp_keyid params = Some keyid"
    "parseErc8128KeyId keyid = Some (chainId, address)"
    "ir_identity (verified_as None (js ''0x0909090909090909090909090909090909090909'')) = bound_identity (eo_identityOf example_erc8128) address"
    by (auto simp: example_erc8128_def)
  then have "address = js ''0x0909090909090909090909090909090909090909''"
    using example_wallet_parsed example_wallet_keyid keyid by simp
  with v(4) run show ?thesis by (simp add: bound_identity_def example_erc8128_def)
qed

theorem library_verifier_same_checks_witness:
  "\<exists>key. vt_resolveKey example_visa (js ''k'') = Some key \<and>
     ir_identity (verified_as None (js ''k'')) = bound_identity None (js ''k'')"
proof -
  have "httpMessageSignaturesVerifier None example_visa (Some (example_signed ''POST'' ''/pay'')) =
      Inr (verified_as None (js ''k''))"
    by (simp add: httpMessageSignaturesVerifier_def example_visa_verified)
  from library_verifier_same_checks [OF this unverified_simps(2)] obtain params :: signature_params and keyid key where
    "sp_keyid params = Some keyid" "vt_resolveKey example_visa keyid = Some key"
    "ir_identity (verified_as None (js ''k'')) = bound_identity (vt_identityOf example_visa) keyid" by blast
  then show ?thesis by (simp add: example_visa_def bound_identity_def)
qed

end
