(* ===== verification/Siwa.thy ===== *)
theory Siwa
  imports Http_Signature
begin

text \<open>
  Sign-in with an agent account, \<open>src/identity/siwa.ts\<close>: the text of the message, its parser, and its
  verification. The recovery of the signer, the clock, the nonce store and the agent registry are
  arguments; the default recovery is the wallet recovery of Http_Signature on the message's text.

  \<open>Date.parse\<close> is the ISO parser of JS_Date: a text it does not read counts as not a number.
\<close>

section \<open>The message and its text\<close>

record siwa_message =
  sm_domain :: str
  sm_address :: str
  sm_uri :: str
  sm_agentId :: str
  sm_agentRegistry :: str
  sm_chainId :: jsn
  sm_nonce :: str
  sm_issuedAt :: str
  sm_expirationTime :: "str option"
  sm_notBefore :: "str option"
  sm_requestId :: "str option"
  sm_statement :: "str option"

fun jsn_text :: "(jsnum \<Rightarrow> str) \<Rightarrow> jsn \<Rightarrow> str" where
  "jsn_text num (Fin x) = num x"
| "jsn_text num PosInf = js ''Infinity''"
| "jsn_text num NegInf = js ''-Infinity''"
| "jsn_text num NaN = js ''NaN''"

definition SIWA_HEADER :: str where
  "SIWA_HEADER = js '' wants you to sign in with your Agent account:''"

definition field_prefix :: "string \<Rightarrow> str" where
  "field_prefix key = js (key @ '': '')"

definition field_line :: "string \<Rightarrow> str \<Rightarrow> str" where
  "field_line key v = field_prefix key @ v"

definition optional_line :: "string \<Rightarrow> str option \<Rightarrow> str list" where
  "optional_line key v = (case v of Some x \<Rightarrow> [field_line key x] | None \<Rightarrow> [])"

definition siwa_lines :: "(jsnum \<Rightarrow> str) \<Rightarrow> siwa_message \<Rightarrow> str list" where
  "siwa_lines num m =
     [sm_domain m @ SIWA_HEADER, sm_address m, []] @
     (case sm_statement m of Some s \<Rightarrow> [s, []] | None \<Rightarrow> []) @
     [field_line ''URI'' (sm_uri m), js ''Version: 1'', field_line ''Agent ID'' (sm_agentId m),
      field_line ''Agent Registry'' (sm_agentRegistry m), field_line ''Chain ID'' (jsn_text num (sm_chainId m)),
      field_line ''Nonce'' (sm_nonce m), field_line ''Issued At'' (sm_issuedAt m)] @
     optional_line ''Expiration Time'' (sm_expirationTime m) @ optional_line ''Not Before'' (sm_notBefore m) @
     optional_line ''Request ID'' (sm_requestId m)"

definition formatSiwaMessage :: "(jsnum \<Rightarrow> str) \<Rightarrow> siwa_message \<Rightarrow> str" where
  "formatSiwaMessage num m = join_lines (siwa_lines num m)"

section \<open>The parser\<close>

text \<open>The group of \<open>/^(.*) wants you ...:$/\<close> on one line: a dot matches no line terminator.\<close>

definition ends_line :: "nat \<Rightarrow> bool" where
  "ends_line c \<longleftrightarrow> c = 10 \<or> c = 13 \<or> c = 0x2028 \<or> c = 0x2029"

definition header_domain :: "str \<Rightarrow> str option" where
  "header_domain l =
     (let d = take (length l - length SIWA_HEADER) l
      in if length SIWA_HEADER \<le> length l \<and> drop (length l - length SIWA_HEADER) l = SIWA_HEADER \<and>
            \<not> list_ex ends_line d
         then Some d else None)"

definition siwa_field :: "str list \<Rightarrow> string \<Rightarrow> str option" where
  "siwa_field ls key =
     map_option (drop (length key + 2)) (List.find (\<lambda>l. starts_with l (field_prefix key)) ls)"

definition nth_line :: "str list \<Rightarrow> nat \<Rightarrow> str option" where
  "nth_line ls n = (if n < length ls then Some (ls ! n) else None)"

definition siwa_error :: "string \<Rightarrow> js_error + 'a" where
  "siwa_error msg = Inl (Thrown (js msg))"

definition parseSiwaMessage :: "str \<Rightarrow> js_error + siwa_message" where
  "parseSiwaMessage text =
     (let ls = split_char 10 text
      in (case header_domain (nullish (nth_line ls 0) []) of
            None \<Rightarrow> siwa_error ''SIWA: malformed header line''
          | Some domain \<Rightarrow>
              if nullish (nth_line ls 1) [] = [] then siwa_error ''SIWA: missing address line''
              else
                let statement =
                      (case nth_line ls 3 of
                         Some l \<Rightarrow> if \<not> starts_with l (field_prefix ''URI'') then Some l else None
                       | None \<Rightarrow> None);
                    required = map (\<lambda>key. nullish (siwa_field ls key) [])
                      [''URI'', ''Agent ID'', ''Agent Registry'', ''Chain ID'', ''Nonce'', ''Issued At'']
                in if [] \<in> set required then siwa_error ''SIWA: missing one or more required fields''
                   else Inr \<lparr>sm_domain = domain, sm_address = nullish (nth_line ls 1) [],
                          sm_uri = nullish (siwa_field ls ''URI'') [], sm_agentId = nullish (siwa_field ls ''Agent ID'') [],
                          sm_agentRegistry = nullish (siwa_field ls ''Agent Registry'') [],
                          sm_chainId = to_number (nullish (siwa_field ls ''Chain ID'') []),
                          sm_nonce = nullish (siwa_field ls ''Nonce'') [],
                          sm_issuedAt = nullish (siwa_field ls ''Issued At'') [],
                          sm_expirationTime = siwa_field ls ''Expiration Time'',
                          sm_notBefore = siwa_field ls ''Not Before'', sm_requestId = siwa_field ls ''Request ID'',
                          sm_statement = statement\<rparr>))"

section \<open>Verification\<close>

record registry_entry =
  re_owner :: str
  re_active :: "bool option"
  re_services :: "str list option"
  re_score :: "jsnum option"

record siwa_opts =
  so_expectedDomain :: str
  so_nonceValid :: "str \<Rightarrow> bool"
  so_now :: jsnum
  so_recoverSigner :: "(siwa_message \<Rightarrow> bytes \<Rightarrow> js_error + str) option"
  so_resolveRegistry :: "(str \<Rightarrow> str \<Rightarrow> registry_entry option) option"
  so_noble :: "wallet_crypto option"
  so_num :: "jsnum \<Rightarrow> str"

datatype siwa_reason =
    DomainMismatch str str
  | NonceInvalid str
  | SiwaExpired
  | SiwaNotYetValid
  | SiwaRecoveryFailed js_error
  | SignerMismatch str str
  | RegistryOwnerMatches
  | RegistryOwnerDiffers
  | NoRegistryBinding

record siwa_result =
  sv_verified :: bool
  sv_identity :: agent_identity
  sv_reason :: siwa_reason

definition siwa_unverified :: "siwa_reason \<Rightarrow> siwa_result" where
  "siwa_unverified r = \<lparr>sv_verified = False, sv_identity = unknown_identity, sv_reason = r\<rparr>"

definition past_time :: "jsnum \<Rightarrow> str option \<Rightarrow> bool" where
  "past_time now t = (case t of None \<Rightarrow> False
     | Some s \<Rightarrow> (case date_parse s of None \<Rightarrow> False | Some e \<Rightarrow> now > of_int e))"

definition before_time :: "jsnum \<Rightarrow> str option \<Rightarrow> bool" where
  "before_time now t = (case t of None \<Rightarrow> False
     | Some s \<Rightarrow> (case date_parse s of None \<Rightarrow> False | Some e \<Rightarrow> now < of_int e))"

definition siwa_signer :: "siwa_opts \<Rightarrow> siwa_message \<Rightarrow> bytes \<Rightarrow> js_error + str" where
  "siwa_signer opts msg signature =
     bindE (case so_recoverSigner opts of
              Some recover \<Rightarrow> recover msg signature
            | None \<Rightarrow> recoverErc8128Address (so_noble opts) (formatSiwaMessage (so_num opts) msg) signature)
       (\<lambda>a. Inr (to_lower a))"

definition siwa_identity :: "siwa_message \<Rightarrow> agent_identity" where
  "siwa_identity msg =
     \<lparr>id_agentId = sm_agentId msg, id_principal = Some (sm_address msg), id_attestation = AttSigned,
      id_capabilities = None\<rparr>"

definition siwa_bind :: "siwa_opts \<Rightarrow> siwa_message \<Rightarrow> str \<Rightarrow> siwa_result" where
  "siwa_bind opts msg signer =
     (case (case so_resolveRegistry opts of
              Some resolve \<Rightarrow> resolve (sm_agentRegistry msg) (sm_agentId msg) | None \<Rightarrow> None) of
        Some entry \<Rightarrow>
          if to_lower (re_owner entry) = signer
          then \<lparr>sv_verified = True,
                sv_identity = (siwa_identity msg)\<lparr>id_principal := Some (re_owner entry),
                  id_attestation := AttRegistryAttested, id_capabilities := re_services entry\<rparr>,
                sv_reason = RegistryOwnerMatches\<rparr>
          else \<lparr>sv_verified = True, sv_identity = siwa_identity msg, sv_reason = RegistryOwnerDiffers\<rparr>
      | None \<Rightarrow> \<lparr>sv_verified = True, sv_identity = siwa_identity msg, sv_reason = NoRegistryBinding\<rparr>)"

definition verifySiwa :: "siwa_message \<Rightarrow> bytes \<Rightarrow> siwa_opts \<Rightarrow> siwa_result" where
  "verifySiwa msg signature opts =
     (if sm_domain msg \<noteq> so_expectedDomain opts
      then siwa_unverified (DomainMismatch (sm_domain msg) (so_expectedDomain opts))
      else if \<not> so_nonceValid opts (sm_nonce msg) then siwa_unverified (NonceInvalid (sm_nonce msg))
      else if past_time (so_now opts) (sm_expirationTime msg) then siwa_unverified SiwaExpired
      else if before_time (so_now opts) (sm_notBefore msg) then siwa_unverified SiwaNotYetValid
      else
        (case siwa_signer opts msg signature of
           Inl e \<Rightarrow> siwa_unverified (SiwaRecoveryFailed e)
         | Inr signer \<Rightarrow>
             if signer \<noteq> to_lower (sm_address msg)
             then siwa_unverified (SignerMismatch signer (sm_address msg))
             else siwa_bind opts msg signer))"

datatype siwa_artifact = SiwaObject siwa_message | SiwaText str

definition siwaIdentityVerifier :: "siwa_opts \<Rightarrow> (siwa_artifact \<times> bytes) option \<Rightarrow> js_error + siwa_result option" where
  "siwaIdentityVerifier opts presented =
     (case presented of
        None \<Rightarrow> Inr None
      | Some (SiwaObject msg, signature) \<Rightarrow> Inr (Some (verifySiwa msg signature opts))
      | Some (SiwaText text, signature) \<Rightarrow>
          bindE (parseSiwaMessage text) (\<lambda>msg. Inr (Some (verifySiwa msg signature opts))))"

definition mapSelfToAttestation :: "bool \<Rightarrow> bool option \<Rightarrow> attestation" where
  "mapSelfToAttestation valid registryBacked =
     (if valid \<and> registryBacked = Some True then AttRegistryAttested else if valid then AttSigned else AttNone)"

section \<open>Reading back what was written\<close>

definition SIWA_KEYS :: "string list" where
  "SIWA_KEYS = [''URI'', ''Agent ID'', ''Agent Registry'', ''Chain ID'', ''Nonce'', ''Issued At'',
     ''Expiration Time'', ''Not Before'', ''Request ID'']"

text \<open>A free line that none of the field prefixes begins.\<close>

definition quiet_line :: "str \<Rightarrow> bool" where
  "quiet_line l \<longleftrightarrow> list_all (\<lambda>key. \<not> starts_with l (field_prefix key)) SIWA_KEYS"

definition siwa_texts :: "(jsnum \<Rightarrow> str) \<Rightarrow> siwa_message \<Rightarrow> str list" where
  "siwa_texts num m =
     [sm_domain m, sm_address m, sm_uri m, sm_agentId m, sm_agentRegistry m, jsn_text num (sm_chainId m),
      sm_nonce m, sm_issuedAt m] @
     concat (map (case_option [] (\<lambda>s. [s])) [sm_expirationTime m, sm_notBefore m, sm_requestId m, sm_statement m])"

text \<open>Messages that a text can carry: one line per member, the required ones not empty, the free lines quiet.\<close>

definition siwa_wf :: "(jsnum \<Rightarrow> str) \<Rightarrow> siwa_message \<Rightarrow> bool" where
  "siwa_wf num m \<longleftrightarrow>
     list_all (\<lambda>s. 10 \<notin> set s) (siwa_texts num m) \<and> \<not> list_ex ends_line (sm_domain m) \<and>
     [] \<notin> set [sm_address m, sm_uri m, sm_agentId m, sm_agentRegistry m, jsn_text num (sm_chainId m),
                 sm_nonce m, sm_issuedAt m] \<and>
     quiet_line (sm_domain m @ SIWA_HEADER) \<and> quiet_line (sm_address m) \<and>
     (case sm_statement m of Some s \<Rightarrow> quiet_line s | None \<Rightarrow> True) \<and>
     to_number (jsn_text num (sm_chainId m)) = sm_chainId m"

lemma siwa_field_Cons:
  "siwa_field (l # ls) key =
     (if starts_with l (field_prefix key) then Some (drop (length key + 2) l) else siwa_field ls key)"
  by (simp add: siwa_field_def)

lemma siwa_field_Nil: "siwa_field [] key = None"
  by (simp add: siwa_field_def)

lemma field_line_starts: "starts_with (field_line key v) (field_prefix key)" "drop (length key + 2) (field_line key v) = v"
  by (simp_all add: field_line_def field_prefix_def)

lemma js_no_break: "CHR 0x0A \<notin> set s \<Longrightarrow> 10 \<notin> set (js s)"
proof
  assume no: "CHR 0x0A \<notin> set s" and "10 \<in> set (js s)"
  then obtain c where c: "c \<in> set s" "of_char c = (10 :: nat)" by (auto simp: js_def)
  have "of_char (CHR 0x0A) = (10 :: nat)" by simp
  with c(2) have "c = CHR 0x0A" by (metis inj_of_char_nat injD)
  with c(1) no show False by simp
qed

lemma siwa_lines_one_line:
  assumes "siwa_wf num m"
  shows "\<forall>l \<in> set (siwa_lines num m). 10 \<notin> set l"
proof -
  from assms have t: "10 \<notin> set s" if "s \<in> set (siwa_texts num m)" for s
    using that by (simp add: siwa_wf_def list_all_iff)
  note texts = siwa_texts_def
  have req: "10 \<notin> set (sm_domain m)" "10 \<notin> set (sm_address m)" "10 \<notin> set (sm_uri m)" "10 \<notin> set (sm_agentId m)"
    "10 \<notin> set (sm_agentRegistry m)" "10 \<notin> set (jsn_text num (sm_chainId m))" "10 \<notin> set (sm_nonce m)"
    "10 \<notin> set (sm_issuedAt m)"
    by (rule t, simp add: texts)+
  have opt: "sm_expirationTime m = Some x \<Longrightarrow> 10 \<notin> set x" "sm_notBefore m = Some x \<Longrightarrow> 10 \<notin> set x"
    "sm_requestId m = Some x \<Longrightarrow> 10 \<notin> set x" "sm_statement m = Some x \<Longrightarrow> 10 \<notin> set x" for x
    by (rule t, simp add: texts)+
  have field: "10 \<notin> set v \<Longrightarrow> CHR 0x0A \<notin> set key \<Longrightarrow> 10 \<notin> set (field_line key v)" for key v
    by (simp add: field_line_def field_prefix_def js_no_break)
  have optional: "\<forall>l \<in> set (optional_line key v). 10 \<notin> set l"
    if "\<And>x. v = Some x \<Longrightarrow> 10 \<notin> set x" "CHR 0x0A \<notin> set key" for key v
    using that by (auto simp: optional_line_def field split: option.split)
  have st: "\<forall>l \<in> set (case sm_statement m of Some s \<Rightarrow> [s, []] | None \<Rightarrow> []). 10 \<notin> set l"
    using opt(4) by (auto split: option.split)
  have hd: "10 \<notin> set SIWA_HEADER" by (simp add: SIWA_HEADER_def js_no_break)
  have o3: "\<forall>l \<in> set (optional_line ''Expiration Time'' (sm_expirationTime m)). 10 \<notin> set l"
    "\<forall>l \<in> set (optional_line ''Not Before'' (sm_notBefore m)). 10 \<notin> set l"
    "\<forall>l \<in> set (optional_line ''Request ID'' (sm_requestId m)). 10 \<notin> set l"
    by (rule optional, erule opt, simp)+
  show ?thesis unfolding siwa_lines_def
    using st o3 by (simp add: req hd field js_no_break ball_Un)
qed

text \<open>Which line a field is read from.\<close>

lemma starts_with_js: "starts_with (js a @ v) (js b) \<Longrightarrow> take (length b) a = take (length a) b"
proof -
  assume "starts_with (js a @ v) (js b)"
  then have "take (length a) (take (length b) (js a @ v)) = take (length a) (js b)" by (simp add: starts_with_def)
  then have "take (length b) (js a) = take (length a) (js b)" by (simp add: min_def take_take split: if_splits)
  then show ?thesis by (simp add: js_def take_map inj_map_eq_map inj_of_char_nat)
qed

lemma siwa_keys_prefix_free:
  "list_all (\<lambda>k. list_all (\<lambda>k'. take (length (k @ '': '')) (k' @ '': '') = take (length (k' @ '': '')) (k @ '': '') \<longrightarrow> k' = k)
     SIWA_KEYS) SIWA_KEYS"
  unfolding SIWA_KEYS_def by simp

lemma field_starts:
  assumes "key \<in> set SIWA_KEYS" "key' \<in> set SIWA_KEYS"
  shows "starts_with (field_line key' v) (field_prefix key) \<longleftrightarrow> key' = key"
proof
  assume "starts_with (field_line key' v) (field_prefix key)"
  from starts_with_js [OF this [unfolded field_line_def field_prefix_def]] siwa_keys_prefix_free assms show "key' = key"
    unfolding list_all_iff by blast
qed (simp add: field_line_def)

lemma other_lines_quiet:
  "key \<in> set SIWA_KEYS \<Longrightarrow> \<not> starts_with [] (field_prefix key)"
  "key \<in> set SIWA_KEYS \<Longrightarrow> \<not> starts_with (js ''Version: 1'') (field_prefix key)"
  "quiet_line l \<Longrightarrow> key \<in> set SIWA_KEYS \<Longrightarrow> \<not> starts_with l (field_prefix key)"
proof -
  show "key \<in> set SIWA_KEYS \<Longrightarrow> \<not> starts_with [] (field_prefix key)" by (simp add: starts_with_def field_prefix_def js_def)
  show "quiet_line l \<Longrightarrow> key \<in> set SIWA_KEYS \<Longrightarrow> \<not> starts_with l (field_prefix key)"
    by (simp add: quiet_line_def list_all_iff)
  have "list_all (\<lambda>k. take (length (k @ '': '')) ''Version: 1'' \<noteq> take (length ''Version: 1'') (k @ '': '')) SIWA_KEYS"
    unfolding SIWA_KEYS_def by simp
  then show "key \<in> set SIWA_KEYS \<Longrightarrow> \<not> starts_with (js ''Version: 1'') (field_prefix key)"
    using starts_with_js [of "''Version: 1''" "[]"] unfolding list_all_iff field_prefix_def by fastforce
qed

lemma siwa_field_lines:
  assumes "siwa_wf num m"
  shows "siwa_field (siwa_lines num m) ''URI'' = Some (sm_uri m)"
    "siwa_field (siwa_lines num m) ''Agent ID'' = Some (sm_agentId m)"
    "siwa_field (siwa_lines num m) ''Agent Registry'' = Some (sm_agentRegistry m)"
    "siwa_field (siwa_lines num m) ''Chain ID'' = Some (jsn_text num (sm_chainId m))"
    "siwa_field (siwa_lines num m) ''Nonce'' = Some (sm_nonce m)"
    "siwa_field (siwa_lines num m) ''Issued At'' = Some (sm_issuedAt m)"
    "siwa_field (siwa_lines num m) ''Expiration Time'' = sm_expirationTime m"
    "siwa_field (siwa_lines num m) ''Not Before'' = sm_notBefore m"
    "siwa_field (siwa_lines num m) ''Request ID'' = sm_requestId m"
proof -
  have keys: "''URI'' \<in> set SIWA_KEYS" "''Agent ID'' \<in> set SIWA_KEYS" "''Agent Registry'' \<in> set SIWA_KEYS"
    "''Chain ID'' \<in> set SIWA_KEYS" "''Nonce'' \<in> set SIWA_KEYS" "''Issued At'' \<in> set SIWA_KEYS"
    "''Expiration Time'' \<in> set SIWA_KEYS" "''Not Before'' \<in> set SIWA_KEYS" "''Request ID'' \<in> set SIWA_KEYS"
    by (simp_all add: SIWA_KEYS_def)
  have hit: "siwa_field (field_line key v # ls) key = Some v" for key v ls
    using field_line_starts by (simp add: siwa_field_Cons)
  have miss: "siwa_field (field_line key' v # ls) key = siwa_field ls key"
    if "key' \<noteq> key" "key \<in> set SIWA_KEYS" "key' \<in> set SIWA_KEYS" for key key' v ls
    using that by (simp add: siwa_field_Cons field_starts)
  have quiet: "siwa_field (l # ls) key = siwa_field ls key" if "quiet_line l" "key \<in> set SIWA_KEYS" for l ls key
    using that other_lines_quiet(3) by (simp add: siwa_field_Cons)
  have blank: "siwa_field ([] # ls) key = siwa_field ls key"
      "siwa_field (js ''Version: 1'' # ls) key = siwa_field ls key" if "key \<in> set SIWA_KEYS" for ls key
    using that other_lines_quiet(1,2) by (simp_all add: siwa_field_Cons)
  have opt: "siwa_field (optional_line key' v @ ls) key =
      (if key' = key then or_else v (siwa_field ls key) else siwa_field ls key)"
    if "key \<in> set SIWA_KEYS" "key' \<in> set SIWA_KEYS" for key key' v ls
    using that by (simp add: optional_line_def hit miss or_else_def split: option.split)
  have opt0: "siwa_field (optional_line key' v) key = (if key' = key then v else None)"
    if "key \<in> set SIWA_KEYS" "key' \<in> set SIWA_KEYS" for key key' v
    using opt [OF that, of v "[]"] by (simp add: siwa_field_Nil or_else_def split: option.split)
  have q: "quiet_line (sm_domain m @ SIWA_HEADER)" "quiet_line (sm_address m)"
    "\<And>s. sm_statement m = Some s \<Longrightarrow> quiet_line s"
    using assms by (simp_all add: siwa_wf_def)
  have st: "siwa_field ((case sm_statement m of Some s \<Rightarrow> [s, []] | None \<Rightarrow> []) @ ls) key = siwa_field ls key"
    if "key \<in> set SIWA_KEYS" for key ls
    using that q(3) by (cases "sm_statement m") (simp_all add: quiet blank)
  note step = siwa_lines_def quiet [OF q(1)] quiet [OF q(2)] blank st hit miss opt opt0 keys or_else_def
  show "siwa_field (siwa_lines num m) ''URI'' = Some (sm_uri m)"
    "siwa_field (siwa_lines num m) ''Agent ID'' = Some (sm_agentId m)"
    "siwa_field (siwa_lines num m) ''Agent Registry'' = Some (sm_agentRegistry m)"
    "siwa_field (siwa_lines num m) ''Chain ID'' = Some (jsn_text num (sm_chainId m))"
    "siwa_field (siwa_lines num m) ''Nonce'' = Some (sm_nonce m)"
    "siwa_field (siwa_lines num m) ''Issued At'' = Some (sm_issuedAt m)"
    "siwa_field (siwa_lines num m) ''Expiration Time'' = sm_expirationTime m"
    "siwa_field (siwa_lines num m) ''Not Before'' = sm_notBefore m"
    "siwa_field (siwa_lines num m) ''Request ID'' = sm_requestId m"
    by (simp_all add: step split: option.split)
qed

lemma header_domain_append: "\<not> list_ex ends_line d \<Longrightarrow> header_domain (d @ SIWA_HEADER) = Some d"
  by (simp add: header_domain_def Let_def)

lemma parse_format:
  assumes "siwa_wf num m"
  shows "parseSiwaMessage (formatSiwaMessage num m) = Inr m"
proof -
  let ?ls = "siwa_lines num m"
  have ls: "split_char 10 (formatSiwaMessage num m) = ?ls"
    unfolding formatSiwaMessage_def
    by (rule split_join_lines [OF siwa_lines_one_line [OF assms]]) (simp add: siwa_lines_def)
  have head: "header_domain (nullish (nth_line ?ls 0) []) = Some (sm_domain m)"
    using assms by (simp add: nth_line_def siwa_lines_def header_domain_append siwa_wf_def)
  have addr: "nullish (nth_line ?ls 1) [] = sm_address m" by (simp add: nth_line_def siwa_lines_def)
  have uri: "''URI'' \<in> set SIWA_KEYS" by (simp add: SIWA_KEYS_def)
  have st: "(case nth_line ?ls 3 of Some l \<Rightarrow> if \<not> starts_with l (field_prefix ''URI'') then Some l else None
      | None \<Rightarrow> None) = sm_statement m"
  proof (cases "sm_statement m")
    case None
    then show ?thesis using field_line_starts(1) [of "''URI''"] by (simp add: nth_line_def siwa_lines_def)
  next
    case (Some s)
    with assms have "\<not> starts_with s (field_prefix ''URI'')"
      using other_lines_quiet(3) [OF _ uri] by (simp add: siwa_wf_def)
    with Some show ?thesis by (simp add: nth_line_def siwa_lines_def)
  qed
  note fields = siwa_field_lines [OF assms]
  have wf: "sm_address m \<noteq> []" "sm_uri m \<noteq> []" "sm_agentId m \<noteq> []" "sm_agentRegistry m \<noteq> []"
    "jsn_text num (sm_chainId m) \<noteq> []" "sm_nonce m \<noteq> []" "sm_issuedAt m \<noteq> []"
    "to_number (jsn_text num (sm_chainId m)) = sm_chainId m"
    using assms by (auto simp: siwa_wf_def)
  show ?thesis
    by (simp add: parseSiwaMessage_def Let_def ls head addr st fields wf wf(2-7) [symmetric] del: One_nat_def)
qed

section \<open>What a verified message has passed\<close>

lemma verifySiwa_verified:
  assumes "sv_verified (verifySiwa msg signature opts)"
  shows "sm_domain msg = so_expectedDomain opts" "so_nonceValid opts (sm_nonce msg)"
    "\<not> past_time (so_now opts) (sm_expirationTime msg)" "\<not> before_time (so_now opts) (sm_notBefore msg)"
    "siwa_signer opts msg signature = Inr (to_lower (sm_address msg))"
    "verifySiwa msg signature opts = siwa_bind opts msg (to_lower (sm_address msg))"
  using assms
  by (auto simp: verifySiwa_def siwa_unverified_def split: if_splits sum.splits)

lemma siwa_bind_attestation:
  "sv_verified (siwa_bind opts msg signer)"
  "id_agentId (sv_identity (siwa_bind opts msg signer)) = sm_agentId msg"
  "id_attestation (sv_identity (siwa_bind opts msg signer)) = AttRegistryAttested \<longleftrightarrow>
     (\<exists>resolve entry. so_resolveRegistry opts = Some resolve \<and>
        resolve (sm_agentRegistry msg) (sm_agentId msg) = Some entry \<and> to_lower (re_owner entry) = signer)"
  by (auto simp: siwa_bind_def siwa_identity_def split: option.splits)

section \<open>Properties\<close>

text \<open>
  Property C36: a sign-in message survives its text. Every well-formed message is read back from the text that its
  signer sees, member by member.
\<close>

theorem siwa_round_trip:
  assumes "siwa_wf num m"
  shows "parseSiwaMessage (formatSiwaMessage num m) = Inr m"
  using assms by (rule parse_format)

text \<open>
  Fact: presenting the text of a well-formed message is presenting the message: both are verified with
  the same result.
\<close>

theorem siwa_text_is_message:
  assumes "siwa_wf (so_num opts) m"
  shows "siwaIdentityVerifier opts (Some (SiwaText (formatSiwaMessage (so_num opts) m), signature)) =
    siwaIdentityVerifier opts (Some (SiwaObject m, signature))"
  by (simp add: siwaIdentityVerifier_def parse_format [OF assms])

text \<open>
  Fact: who a verified message names. It was issued for the expected domain with a valid nonce, inside
  its dates, and the wallet recovered from its own text is the address it asserts; it counts as attested by
  the registry exactly when the registry names that wallet as the owner of the agent.
\<close>

theorem siwa_verified_is_signer:
  assumes "sv_verified (verifySiwa msg signature opts)" "so_recoverSigner opts = None"
  shows "sm_domain msg = so_expectedDomain opts \<and> so_nonceValid opts (sm_nonce msg) \<and>
    \<not> past_time (so_now opts) (sm_expirationTime msg) \<and>
    (\<exists>signer. recoverErc8128Address (so_noble opts) (formatSiwaMessage (so_num opts) msg) signature = Inr signer \<and>
       to_lower signer = to_lower (sm_address msg)) \<and>
    id_agentId (sv_identity (verifySiwa msg signature opts)) = sm_agentId msg \<and>
    (id_attestation (sv_identity (verifySiwa msg signature opts)) = AttRegistryAttested \<longleftrightarrow>
       (\<exists>resolve entry. so_resolveRegistry opts = Some resolve \<and>
          resolve (sm_agentRegistry msg) (sm_agentId msg) = Some entry \<and>
          to_lower (re_owner entry) = to_lower (sm_address msg)))"
proof -
  note v = verifySiwa_verified [OF assms(1)]
  from v(5) assms(2) have "\<exists>signer. recoverErc8128Address (so_noble opts) (formatSiwaMessage (so_num opts) msg) signature =
      Inr signer \<and> to_lower signer = to_lower (sm_address msg)"
    by (auto simp: siwa_signer_def bindE_Inr_iff)
  with v(1-3) show ?thesis unfolding v(6) by (simp add: siwa_bind_attestation)
qed

text \<open>
  Fact: an expiry that cannot be read is no expiry, and a registry entry that is marked inactive counts
  like an active one.
\<close>

theorem siwa_unread_limits:
  assumes "sm_expirationTime msg = Some e" "date_parse e = None" "sm_notBefore msg = None" "so_recoverSigner opts = None"
    "so_resolveRegistry opts = Some resolve"
  shows "verifySiwa msg signature (opts\<lparr>so_now := t,
      so_resolveRegistry := Some (\<lambda>r i. map_option (\<lambda>entry. entry\<lparr>re_active := active\<rparr>) (resolve r i))\<rparr>) =
    verifySiwa msg signature opts"
proof -
  have "\<not> past_time t (sm_expirationTime msg)" "\<not> before_time t (sm_notBefore msg)" for t
    using assms by (simp_all add: past_time_def before_time_def)
  moreover have "siwa_bind (opts\<lparr>so_now := t,
      so_resolveRegistry := Some (\<lambda>r i. map_option (\<lambda>entry. entry\<lparr>re_active := active\<rparr>) (resolve r i))\<rparr>) msg signer =
      siwa_bind opts msg signer" for signer
    using assms(5) by (cases "resolve (sm_agentRegistry msg) (sm_agentId msg)") (simp_all add: siwa_bind_def)
  ultimately show ?thesis
    by (simp add: verifySiwa_def siwa_signer_def assms(4) cong: if_cong sum.case_cong)
qed

section \<open>A concrete message\<close>

definition example_siwa_num :: "jsnum \<Rightarrow> str" where
  "example_siwa_num x = show_nat (nat \<lfloor>x\<rfloor>)"

definition example_siwa :: siwa_message where
  "example_siwa =
     \<lparr>sm_domain = js ''app.example'', sm_address = js ''0x0909090909090909090909090909090909090909'', sm_uri = js ''https://app.example'',
      sm_agentId = js ''42'', sm_agentRegistry = js ''eip155:1:0x8004'', sm_chainId = Fin 1, sm_nonce = js ''k3jd9fh2'',
      sm_issuedAt = js ''2026-01-01T00:00:00.000Z'', sm_expirationTime = Some (js ''never''), sm_notBefore = None,
      sm_requestId = None, sm_statement = Some (js ''I accept the terms'')\<rparr>"

lemma example_siwa_wf: "siwa_wf example_siwa_num example_siwa"
proof -
  have chain: "jsn_text example_siwa_num (Fin 1) = [49]" "to_number [49] = Fin 1"
  proof -
    have one: "show_nat 1 = [49]" by (subst show_nat.simps) simp
    then have "number_of_text [49] = Some 1" using number_of_text_show [of 1] by simp
    then show "jsn_text example_siwa_num (Fin 1) = [49]" "to_number [49] = Fin 1"
      using one by (simp_all add: example_siwa_num_def to_number_def)
  qed
  have texts: "list_all (\<lambda>s. 10 \<notin> set s) (siwa_texts example_siwa_num example_siwa)"
    unfolding siwa_texts_def by (simp add: example_siwa_def chain(1) js_no_break del: jsn_text.simps)
  have domain: "\<not> list_ex ends_line (sm_domain example_siwa)"
    by (simp add: example_siwa_def js_def ends_line_def)
  have quiet: "quiet_line (sm_domain example_siwa @ SIWA_HEADER)" "quiet_line (sm_address example_siwa)"
    "quiet_line (js ''I accept the terms'')"
    by (simp_all add: quiet_line_def SIWA_KEYS_def field_prefix_def starts_with_def example_siwa_def js_def)
  show ?thesis
    unfolding siwa_wf_def using texts domain quiet
    by (simp add: example_siwa_def chain eq_commute [of "[]"] del: jsn_text.simps)
qed

definition example_siwa_opts :: siwa_opts where
  "example_siwa_opts =
     \<lparr>so_expectedDomain = js ''app.example'', so_nonceValid = (\<lambda>n. n = js ''k3jd9fh2''), so_now = 1767300000000,
      so_recoverSigner = None,
      so_resolveRegistry = Some (\<lambda>r i. Some \<lparr>re_owner = js ''0x0909090909090909090909090909090909090909'', re_active = Some False, re_services = None,
        re_score = None\<rparr>),
      so_noble = Some example_wallet, so_num = example_siwa_num\<rparr>"

theorem siwa_round_trip_witness:
  "parseSiwaMessage (formatSiwaMessage example_siwa_num example_siwa) = Inr example_siwa"
  by (rule siwa_round_trip [OF example_siwa_wf])

lemma example_siwa_num_opts: "so_num example_siwa_opts = example_siwa_num"
  by (simp add: example_siwa_opts_def)

theorem siwa_text_is_message_witness:
  "siwaIdentityVerifier example_siwa_opts (Some (SiwaText (formatSiwaMessage example_siwa_num example_siwa), [])) =
    siwaIdentityVerifier example_siwa_opts (Some (SiwaObject example_siwa, []))"
  using siwa_text_is_message [of example_siwa_opts example_siwa "[]"] example_siwa_wf by (simp add: example_siwa_num_opts)

lemma example_siwa_verified: "sv_verified (verifySiwa example_siwa (replicate 65 0) example_siwa_opts)"
proof -
  have "recoverErc8128Address (Some example_wallet) M (replicate 65 0) = Inr (wallet_address example_wallet (replicate 65 4))" for M
    by (simp add: recoverErc8128Address_def loadNoble_def example_wallet_def)
  then have "siwa_signer example_siwa_opts example_siwa (replicate 65 0) = Inr (to_lower (js ''0x0909090909090909090909090909090909090909''))"
    by (simp add: siwa_signer_def example_siwa_opts_def example_wallet_address)
  moreover have "date_parse (js ''never'') = None" by (simp add: date_parse_def js_def)
  ultimately show ?thesis
    by (simp add: verifySiwa_def siwa_bind_attestation past_time_def before_time_def)
      (simp add: example_siwa_def example_siwa_opts_def past_time_def before_time_def siwa_bind_attestation)
qed

theorem siwa_verified_is_signer_witness:
  "id_attestation (sv_identity (verifySiwa example_siwa (replicate 65 0) example_siwa_opts)) = AttRegistryAttested"
proof -
  have "so_recoverSigner example_siwa_opts = None" by (simp add: example_siwa_opts_def)
  from siwa_verified_is_signer [OF example_siwa_verified this] show ?thesis
    by (simp add: example_siwa_opts_def example_siwa_def)
qed

theorem siwa_unread_limits_witness:
  "verifySiwa example_siwa sig (example_siwa_opts\<lparr>so_now := 9000000000000,
      so_resolveRegistry := Some (\<lambda>r i. Some \<lparr>re_owner = js ''0x0909090909090909090909090909090909090909'', re_active = None, re_services = None,
        re_score = None\<rparr>)\<rparr>) = verifySiwa example_siwa sig example_siwa_opts"
proof -
  have "date_parse (js ''never'') = None" by (simp add: date_parse_def js_def)
  then show ?thesis
    using siwa_unread_limits [where msg = example_siwa and opts = example_siwa_opts and e = "js ''never''"
        and resolve = "\<lambda>r i. Some \<lparr>re_owner = js ''0x0909090909090909090909090909090909090909'', re_active = Some False, re_services = None, re_score = None\<rparr>"
        and t = 9000000000000 and active = None and signature = sig]
    by (simp add: example_siwa_def example_siwa_opts_def)
qed

end
