(* ===== verification/Personhood.thy ===== *)
theory Personhood
  imports Http_Signature Risk
begin

text \<open>
  Humans behind agents: \<open>src/identity/passport.ts\<close> (a score as a reputation), \<open>worldId.ts\<close> (a proof of
  personhood as an attestation) and \<open>worldAgent.ts\<close> (a wallet registered by a verified human). The code
  never verifies a proof itself: scorers, proof verifiers and the registry of agents are arguments, and
  what is presented is any JSON value.
\<close>

section \<open>Passport scores\<close>

record passport =
  pp_address :: str
  pp_score :: "jsn option"
  pp_threshold :: "jsnum option"
  pp_passing :: "bool option"

record passport_verdict =
  ppv_score :: jsn
  ppv_passing :: "bool option"
  ppv_threshold :: "jsnum option"

definition HUMAN_THRESHOLD :: jsnum where
  "HUMAN_THRESHOLD = 20"

fun at_least :: "jsn \<Rightarrow> jsnum \<Rightarrow> bool" where
  "at_least (Fin x) t = (x \<ge> t)"
| "at_least PosInf t = True"
| "at_least NegInf t = False"
| "at_least NaN t = False"

definition passportToReputationLevel :: "jsn option \<Rightarrow> jsnum option \<Rightarrow> reputation_level" where
  "passportToReputationLevel score threshold =
     (let t = nullish threshold HUMAN_THRESHOLD
      in case score of
           None \<Rightarrow> RepUnknown
         | Some s \<Rightarrow>
             if s = NaN then RepUnknown
             else if at_least s t then RepGood
             else if at_least s (t * (1 / 2)) then RepNeutral
             else RepFlagged)"

definition verifyPassport ::
  "passport \<Rightarrow> (str \<Rightarrow> passport_verdict) option \<Rightarrow> reputation_level \<times> jsn option \<times> bool" where
  "verifyPassport a scorer =
     (let (score, threshold, passing) =
            (case scorer of
               None \<Rightarrow> (pp_score a, nullish (pp_threshold a) HUMAN_THRESHOLD, pp_passing a)
             | Some f \<Rightarrow>
                 let res = f (pp_address a)
                 in (Some (ppv_score res), nullish (ppv_threshold res) (nullish (pp_threshold a) HUMAN_THRESHOLD),
                     ppv_passing res));
          level = passportToReputationLevel score (Some threshold);
          isPassing = nullish passing
            (case score of Some s \<Rightarrow> if s \<noteq> NaN then at_least s threshold else False | None \<Rightarrow> False)
      in (level, score, isPassing))"

definition passportReputationOf :: "passport \<Rightarrow> (str \<Rightarrow> passport_verdict) option \<Rightarrow> str \<Rightarrow> reputation_level" where
  "passportReputationOf a scorer payee =
     (if to_lower payee = to_lower (pp_address a) then fst (verifyPassport a scorer) else RepUnknown)"

section \<open>World ID\<close>

definition text_ok :: "(str \<Rightarrow> bool) \<Rightarrow> json \<Rightarrow> bool" where
  "text_ok P j = (case j of JStr s \<Rightarrow> P s | _ \<Rightarrow> False)"

definition text_of :: "json \<Rightarrow> str" where
  "text_of j = (case j of JStr s \<Rightarrow> s | _ \<Rightarrow> [])"

text \<open>\<open>/^0x[0-9a-fA-F]+$/\<close>.\<close>

definition hex_text :: "str \<Rightarrow> bool" where
  "hex_text s \<longleftrightarrow> starts_with s (js ''0x'') \<and> 2 < length s \<and> list_all is_hex (drop 2 s)"

definition VERIFICATION_LEVELS :: "str list" where
  "VERIFICATION_LEVELS = [js ''orb'', js ''device'', js ''secure_document'', js ''document'']"

definition validateWorldIdStructural :: "json \<Rightarrow> bool" where
  "validateWorldIdStructural a \<longleftrightarrow>
     obj_get a (js ''scheme'') = JStr (js ''WorldID'') \<and>
     text_ok (\<lambda>s. starts_with s (js ''app_'')) (obj_get a (js ''app_id'')) \<and>
     text_ok (\<lambda>s. s \<noteq> []) (obj_get a (js ''action'')) \<and>
     (obj_get a (js ''signal'') = JUndef \<or> text_ok (\<lambda>s. True) (obj_get a (js ''signal''))) \<and>
     text_ok hex_text (obj_get a (js ''nullifier_hash'')) \<and> text_ok hex_text (obj_get a (js ''merkle_root'')) \<and>
     text_ok hex_text (obj_get a (js ''proof'')) \<and>
     obj_get a (js ''verification_level'') \<in> JStr ` set VERIFICATION_LEVELS"

definition mapWorldIdToAttestation :: "json \<Rightarrow> bool \<Rightarrow> attestation" where
  "mapWorldIdToAttestation level valid =
     (if \<not> valid then AttNone else if level = JStr (js ''orb'') then AttRegistryAttested else AttSigned)"

datatype human_reason =
    NotArtifact
  | MalformedProof
  | NoProofVerifier
  | ProofRejected
  | ProofVerified
  | AgentSignerMismatch str str
  | AgentRecoveryFailed js_error
  | NotRecoveredLocally json
  | NoAgentBook
  | NotHumanBacked
  | AgentVerified

record world_id_result =
  wi_structural :: bool
  wi_valid :: bool
  wi_nullifier :: "str option"
  wi_reason :: "human_reason option"

definition verifyWorldId :: "json \<Rightarrow> (json \<Rightarrow> bool \<times> str option) option \<Rightarrow> world_id_result" where
  "verifyWorldId a verifier =
     (if \<not> validateWorldIdStructural a
      then \<lparr>wi_structural = False, wi_valid = False, wi_nullifier = None, wi_reason = Some MalformedProof\<rparr>
      else
        (case verifier of
           None \<Rightarrow> \<lparr>wi_structural = True, wi_valid = False,
                    wi_nullifier = Some (text_of (obj_get a (js ''nullifier_hash''))), wi_reason = Some NoProofVerifier\<rparr>
         | Some check \<Rightarrow>
             let (valid, nullifier) = check a
             in \<lparr>wi_structural = True, wi_valid = valid,
                 wi_nullifier = Some (nullish nullifier (text_of (obj_get a (js ''nullifier_hash'')))),
                 wi_reason = (if valid then None else Some ProofRejected)\<rparr>))"

record human_result =
  hr_verified :: bool
  hr_agentId :: json
  hr_principal :: "str option"
  hr_attestation :: attestation
  hr_reason :: human_reason

definition not_artifact :: human_result where
  "not_artifact = \<lparr>hr_verified = False, hr_agentId = JStr (js ''unknown''), hr_principal = None,
     hr_attestation = AttNone, hr_reason = NotArtifact\<rparr>"

definition worldIdIdentityVerifier :: "(json \<Rightarrow> bool \<times> str option) option \<Rightarrow> json \<Rightarrow> human_result" where
  "worldIdIdentityVerifier verifier a =
     (if obj_get a (js ''scheme'') \<noteq> JStr (js ''WorldID'') then not_artifact
      else
        let res = verifyWorldId a verifier
        in \<lparr>hr_verified = wi_valid res,
            hr_agentId = nullish (map_option JStr (wi_nullifier res)) (obj_get a (js ''nullifier_hash'')),
            hr_principal = None,
            hr_attestation = mapWorldIdToAttestation (obj_get a (js ''verification_level'')) (wi_valid res),
            hr_reason = nullish (wi_reason res) ProofVerified\<rparr>)"

section \<open>World Agent\<close>

text \<open>\<open>/^0x[0-9a-fA-F]{40}$/\<close> and \<open>/^[-a-z0-9]{3,8}:[-_a-zA-Z0-9]{1,32}$/\<close>.\<close>

definition address_text :: "str \<Rightarrow> bool" where
  "address_text s \<longleftrightarrow> starts_with s (js ''0x'') \<and> length s = 42 \<and> list_all is_hex (drop 2 s)"

definition alnum :: "nat \<Rightarrow> bool" where
  "alnum c \<longleftrightarrow> (48 \<le> c \<and> c \<le> 57) \<or> (65 \<le> c \<and> c \<le> 90) \<or> (97 \<le> c \<and> c \<le> 122)"

definition caip2_text :: "str \<Rightarrow> bool" where
  "caip2_text s \<longleftrightarrow>
     (case cut_at 58 s of
        None \<Rightarrow> False
      | Some (l, r) \<Rightarrow>
          3 \<le> length l \<and> length l \<le> 8 \<and> list_all (\<lambda>c. c = 45 \<or> (alnum c \<and> \<not> (65 \<le> c \<and> c \<le> 90))) l \<and>
          1 \<le> length r \<and> length r \<le> 32 \<and> list_all (\<lambda>c. c = 45 \<or> c = 95 \<or> alnum c) r)"

definition validateWorldAgentStructural :: "json \<Rightarrow> bool" where
  "validateWorldAgentStructural a \<longleftrightarrow>
     obj_get a (js ''scheme'') = JStr (js ''WorldAgent'') \<and>
     text_ok address_text (obj_get a (js ''address'')) \<and>
     text_ok (\<lambda>s. s \<noteq> []) (obj_get a (js ''message'')) \<and>
     text_ok hex_text (obj_get a (js ''signature'')) \<and> text_ok caip2_text (obj_get a (js ''chainId'')) \<and>
     obj_get a (js ''type'') \<in> {JStr (js ''eip191''), JStr (js ''eip1271''), JStr (js ''ed25519'')} \<and>
     list_all (\<lambda>k. text_ok (\<lambda>s. s \<noteq> []) (obj_get a (js k)))
       [''domain'', ''uri'', ''version'', ''nonce'', ''issuedAt'']"

definition mapWorldAgentToAttestation :: "bool \<Rightarrow> bool \<Rightarrow> attestation" where
  "mapWorldAgentToAttestation humanBacked valid =
     (if \<not> valid then AttNone else if humanBacked then AttRegistryAttested else AttSigned)"

text \<open>The bytes of the digits, a last single digit dropped; what is not a number is stored as zero.\<close>

fun agent_bytes :: "str \<Rightarrow> bytes" where
  "agent_bytes (x # y # s) = word_of_int (nullish (parse_int16 [x, y]) 0) # agent_bytes s"
| "agent_bytes _ = []"

definition agent_hexToBytes :: "str \<Rightarrow> bytes" where
  "agent_hexToBytes hex = agent_bytes (if starts_with hex (js ''0x'') then drop 2 hex else hex)"

record world_agent_result =
  wa_structural :: bool
  wa_valid :: bool
  wa_address :: "str option"
  wa_humanBacked :: bool
  wa_nullifier :: "str option"
  wa_reason :: "human_reason option"

text \<open>Whether the signer of the message is the agent's wallet, and why not.\<close>

definition agent_signed :: "wallet_crypto option \<Rightarrow> json \<Rightarrow> bool \<times> human_reason option" where
  "agent_signed pkg a =
     (let expected = to_lower (text_of (obj_get a (js ''address'')))
      in if obj_get a (js ''type'') = JStr (js ''eip191'')
         then (case recoverErc8128Address pkg (text_of (obj_get a (js ''message'')))
                      (agent_hexToBytes (text_of (obj_get a (js ''signature'')))) of
                 Inl e \<Rightarrow> (False, Some (AgentRecoveryFailed e))
               | Inr recovered \<Rightarrow>
                   if recovered = expected then (True, None)
                   else (False, Some (AgentSignerMismatch recovered expected)))
         else (False, Some (NotRecoveredLocally (obj_get a (js ''type'')))))"

definition verifyWorldAgent ::
  "wallet_crypto option \<Rightarrow> json \<Rightarrow> (str \<Rightarrow> str \<Rightarrow> (bool \<times> str option) option) option \<Rightarrow> world_agent_result" where
  "verifyWorldAgent pkg a resolver =
     (if \<not> validateWorldAgentStructural a
      then \<lparr>wa_structural = False, wa_valid = False, wa_address = None, wa_humanBacked = False,
            wa_nullifier = None, wa_reason = Some MalformedProof\<rparr>
      else
        let expected = to_lower (text_of (obj_get a (js ''address'')));
            (valid, reason) = agent_signed pkg a
        in (case resolver of
              None \<Rightarrow> \<lparr>wa_structural = True, wa_valid = valid, wa_address = (if valid then Some expected else None),
                       wa_humanBacked = False, wa_nullifier = None, wa_reason = or_else reason (Some NoAgentBook)\<rparr>
            | Some lookup \<Rightarrow>
                let book = lookup expected (text_of (obj_get a (js ''chainId'')));
                    humanBacked = (case book of Some (registered, n) \<Rightarrow> registered | None \<Rightarrow> False)
                in \<lparr>wa_structural = True, wa_valid = valid, wa_address = (if valid then Some expected else None),
                    wa_humanBacked = humanBacked,
                    wa_nullifier = (if humanBacked then Option.bind book snd else None),
                    wa_reason = (if humanBacked then reason else or_else reason (Some NotHumanBacked))\<rparr>))"

definition worldAgentIdentityVerifier ::
  "wallet_crypto option \<Rightarrow> (str \<Rightarrow> str \<Rightarrow> (bool \<times> str option) option) option \<Rightarrow> json \<Rightarrow> human_result" where
  "worldAgentIdentityVerifier pkg resolver a =
     (if obj_get a (js ''scheme'') \<noteq> JStr (js ''WorldAgent'') then not_artifact
      else
        let res = verifyWorldAgent pkg a resolver
        in \<lparr>hr_verified = wa_valid res,
            hr_agentId =
              (if wa_humanBacked res \<and> nullish (wa_nullifier res) [] \<noteq> [] then JStr (nullish (wa_nullifier res) [])
               else nullish (map_option JStr (wa_address res)) (obj_get a (js ''address''))),
            hr_principal = (if wa_humanBacked res then wa_nullifier res else None),
            hr_attestation = mapWorldAgentToAttestation (wa_humanBacked res) (wa_valid res),
            hr_reason = nullish (wa_reason res) AgentVerified\<rparr>)"

section \<open>Lemmas\<close>

fun reputation_rank :: "reputation_level \<Rightarrow> int" where
  "reputation_rank RepFlagged = 0"
| "reputation_rank RepUnknown = 1"
| "reputation_rank RepNeutral = 1"
| "reputation_rank RepGood = 2"

lemma reputation_score_rank:
  "reputation_rank r \<le> reputation_rank r' \<Longrightarrow> reputation_score (Some r') \<le> reputation_score (Some r)"
  by (cases r; cases r') (simp_all add: reputation_score_def)

lemma passport_rank_mono:
  "x \<le> y \<Longrightarrow> reputation_rank (passportToReputationLevel (Some (Fin x)) t) \<le>
     reputation_rank (passportToReputationLevel (Some (Fin y)) t)"
  by (auto simp: passportToReputationLevel_def Let_def)

lemma agent_signed_True:
  "agent_signed pkg a = (True, r) \<longleftrightarrow> r = None \<and> obj_get a (js ''type'') = JStr (js ''eip191'') \<and>
     recoverErc8128Address pkg (text_of (obj_get a (js ''message'')))
       (agent_hexToBytes (text_of (obj_get a (js ''signature'')))) =
     Inr (to_lower (text_of (obj_get a (js ''address''))))"
  by (auto simp: agent_signed_def Let_def split: sum.splits)

lemma verifyWorldAgent_valid:
  "wa_valid (verifyWorldAgent pkg a resolver) \<longleftrightarrow>
     validateWorldAgentStructural a \<and> fst (agent_signed pkg a)"
  "wa_humanBacked (verifyWorldAgent pkg a resolver) \<longleftrightarrow>
     validateWorldAgentStructural a \<and> (\<exists>lookup n. resolver = Some lookup \<and>
       lookup (to_lower (text_of (obj_get a (js ''address'')))) (text_of (obj_get a (js ''chainId''))) = Some (True, n))"
  by (auto simp: verifyWorldAgent_def Let_def split: prod.splits option.splits)

section \<open>Properties\<close>

text \<open>
  Fact: a better passport never costs. With a higher score the reputation that the gate reads adds no more
  to the risk of a payment, for every threshold; an address other than the passport's stays unknown.
\<close>

theorem passport_score_monotone:
  assumes "pp_score a = Some (Fin x)" "x \<le> y"
  shows "reputation_score (Some (passportReputationOf (a\<lparr>pp_score := Some (Fin y)\<rparr>) None payee)) \<le>
    reputation_score (Some (passportReputationOf a None payee))"
proof -
  have "reputation_rank (passportReputationOf a None payee) \<le>
      reputation_rank (passportReputationOf (a\<lparr>pp_score := Some (Fin y)\<rparr>) None payee)"
    using passport_rank_mono [OF assms(2)]
    by (simp add: passportReputationOf_def verifyPassport_def assms(1) Let_def)
  then show ?thesis by (rule reputation_score_rank)
qed

theorem passport_score_monotone_witness:
  "reputation_score (Some (passportReputationOf \<lparr>pp_address = js ''0xA'', pp_score = Some (Fin 30), pp_threshold = None,
      pp_passing = None\<rparr> None (js ''0xa''))) \<le>
   reputation_score (Some (passportReputationOf \<lparr>pp_address = js ''0xA'', pp_score = Some (Fin 5), pp_threshold = None,
      pp_passing = None\<rparr> None (js ''0xa'')))"
  using passport_score_monotone [of "\<lparr>pp_address = js ''0xA'', pp_score = Some (Fin 5), pp_threshold = None,
      pp_passing = None\<rparr>" 5 30 "js ''0xa''"] by simp


text \<open>
  Fact: the challenge is not checked. Two well-formed attestations of one wallet with the same signed message
  and signature get the same result, whatever domain, nonce and time they state.
\<close>

theorem agent_challenge_unchecked:
  assumes "validateWorldAgentStructural a" "validateWorldAgentStructural b"
    and "\<forall>k \<in> {''address'', ''message'', ''signature'', ''chainId'', ''type''}. obj_get a (js k) = obj_get b (js k)"
  shows "verifyWorldAgent pkg a resolver = verifyWorldAgent pkg b resolver"
proof -
  have "agent_signed pkg a = agent_signed pkg b" using assms(3)
    by (simp add: agent_signed_def Let_def cong: if_cong sum.case_cong)
  with assms show ?thesis
    by (simp add: verifyWorldAgent_def Let_def cong: if_cong option.case_cong prod.case_cong)
qed

definition example_agent :: "string \<Rightarrow> json" where
  "example_agent nonce = JObj
     [(js ''scheme'', JStr (js ''WorldAgent'')), (js ''address'', JStr (js ''0x0909090909090909090909090909090909090909'')), (js ''message'', JStr (js ''hello'')),
      (js ''signature'', JStr (js ''0x00'')), (js ''chainId'', JStr (js ''eip155:480'')), (js ''type'', JStr (js ''eip191'')),
      (js ''domain'', JStr (js ''d'')), (js ''uri'', JStr (js ''u'')), (js ''version'', JStr (js ''1'')),
      (js ''nonce'', JStr (js nonce)), (js ''issuedAt'', JStr (js ''t''))]"

lemma example_agent_wf: "nonce \<noteq> [] \<Longrightarrow> validateWorldAgentStructural (example_agent nonce)"
  by (simp add: validateWorldAgentStructural_def example_agent_def obj_get_def text_ok_def nullish_def)
    (simp add: address_text_def hex_text_def caip2_text_def cut_at_def alnum_def is_hex_def starts_with_def js_def)

theorem agent_challenge_unchecked_witness:
  "verifyWorldAgent pkg (example_agent ''n1'') resolver = verifyWorldAgent pkg (example_agent ''n2'') resolver"
  by (rule agent_challenge_unchecked) (simp_all add: example_agent_wf, simp add: example_agent_def obj_get_def)

end
