(* ===== verification/Executor_Liveness.thy ===== *)
theory Executor_Liveness
  imports Executor_Ledger
begin

text \<open>
  What the executor (\<open>src/core/executor.ts\<close>) is sure to do: a payment with an id of its own gets an answer,
  and that answer is on file; a payment that a mandate covers, with nothing against it, settles, and so does
  a parked payment that the operator approves, as long as the rail does its part. The other theories say what
  the executor never does; a kernel that refused everything would satisfy them.
\<close>

section \<open>Nothing throws\<close>

text \<open>A clock reading whose velocity window and whose periods have ISO texts.\<close>

definition clock_ok :: "'r exec_deps \<Rightarrow> int \<Rightarrow> bool" where
  "clock_ok deps t \<longleftrightarrow>
     iso_range t \<and> iso_range (t - velocityWindowMinutes (xd_config deps) * 60000) \<and> 100 \<le> utc_full_year t"

lemma periodSpend_ok:
  assumes "clock_ok deps t"
  shows "\<exists>sp. periodSpend s i (iso_text t) = Inr sp"
  using assms by (auto simp: clock_ok_def periodSpend_def periodStart_iso bindE_Inr_iff split: option.split)

lemma mapE_total: "(\<And>x. x \<in> set xs \<Longrightarrow> \<exists>y. f x = Inr y) \<Longrightarrow> \<exists>ys. mapE f xs = Inr ys"
  by (induction xs) (auto, metis bindE.simps(2))

lemma capture_inputs_ok:
  assumes "clock_ok deps t"
  shows "\<exists>inputs. capture_inputs deps s (iso_text t) intent att = Inr inputs"
proof -
  have "\<exists>spends. mapE (\<lambda>m. bindE (periodSpend s (m_id m) (iso_text t)) (\<lambda>sp. Inr (m_id m, sp)))
      (listActiveMandates s (iso_text t)) = Inr spends"
    by (rule mapE_total) (use periodSpend_ok [OF assms, of s] in \<open>force simp: bindE_Inr_iff\<close>)
  then show ?thesis by (auto simp: capture_inputs_def Let_def)
qed

lemma exec_gate_ok:
  assumes "clock_ok deps t"
  shows "\<exists>d. exec_gate deps (iso_text t) intent att st = Inr d"
  unfolding exec_gate_def
  using assms periodSpend_ok [OF assms]
  by (intro evaluateGate_total [of _ t]) (auto simp: exec_context_def clock_ok_def)

text \<open>Filing under a fresh id succeeds.\<close>

lemma file_intent_fresh:
  assumes "getIntent (xs_store st0) (i_id (si_intent si)) = None"
  shows "fst (file_intent si after res st0) = Inr res"
  using assms by (simp add: file_intent_def insertIntent_def getIntent_def)

lemma execute_decide_fresh:
  assumes "clock_ok deps t" "getIntent (xs_store st) (i_id intent) = None"
    and "execute_decide deps (iso_text t) intent att st = (Finished res, st')"
  shows "\<exists>r. res = Inr r"
proof -
  have filed: "\<exists>r. x = Inr r" if "file_intent (stored intent s m rs tm rcp) after res0 st0 = (x, y)"
    "getIntent (xs_store st0) (i_id intent) = None" for s m rs tm rcp after res0 st0 x and y :: "'a exec_state"
    using file_intent_fresh [of st0 "stored intent s m rs tm rcp" after res0] that by (simp add: stored_def)
  obtain d inputs where gate: "evaluateGate intent (exec_context deps (xs_store st) (iso_text t) intent att) = Inr d"
    and inputs: "capture_inputs deps (xs_store st) (iso_text t) intent att = Inr inputs"
    using exec_gate_ok [OF assms(1)] capture_inputs_ok [OF assms(1)] unfolding exec_gate_def by blast
  show ?thesis
  proof (cases "haltReason deps (xs_store st)")
    case None
    with assms(2,3) gate inputs show ?thesis
      by (auto simp: execute_decide_def Let_def dest!: filed split: gate_outcome.splits prod.splits)
  next
    case (Some halt)
    with assms(2,3) show ?thesis
      by (auto simp: execute_decide_def Let_def dest!: filed split: prod.splits)
  qed
qed

lemma execute_answers:
  assumes "clock_ok deps t" "getIntent (xs_store st) (i_id intent) = None"
  shows "\<exists>r st'. execute deps (iso_text t) intent att st = (Inr r, st')"
proof -
  obtain res st' where run: "execute deps (iso_text t) intent att st = (res, st')" by fastforce
  from run have "\<exists>r. res = Inr r"
  proof (cases rule: execute_cases)
    case stopped
    with execute_decide_fresh [OF assms] show ?thesis by blast
  next
    case (settled d st1 out st2)
    from settled(1) have "st_intents (xs_store st1) = st_intents (xs_store st)"
      by (cases rule: execute_decide_cases) auto
    with settle_meta(3) [OF settled(2)] assms(2) have "getIntent (xs_store st2) (i_id intent) = None"
      by (simp add: getIntent_def)
    then have "fst (file_intent (stored intent s m rs tm rcp) after res0 st2) = Inr res0" for s m rs tm rcp after res0
      by (intro file_intent_fresh) (simp add: stored_def)
    with settled(3) show ?thesis
      by (cases out) (auto simp: execute_record_def split: prod.splits, (metis fst_conv)+)
  qed
  with run show ?thesis by blast
qed

section \<open>The rail does its part\<close>

lemma settle_succeeds:
  assumes "registry_get (xd_rails deps) (i_rail intent) = Some p" "pv_settle p intent now (xs_world st) = (Inr r0, w)"
    and "pv_verifyReceipt p (r0\<lparr>r_providerId := Some (pv_id p)\<rparr>) w = Inr v"
  shows "\<exists>st'. settle deps intent now st = (Inr (r0\<lparr>r_providerId := Some (pv_id p)\<rparr>, v), st') \<and> xs_world st' = w"
  using assms by (simp add: settle_def settle_record_def Let_def)

lemma execute_settles:
  assumes "clock_ok deps t" "getIntent (xs_store st) (i_id intent) = None" "haltReason deps (xs_store st) = None"
    and gate: "exec_gate deps (iso_text t) intent att st = Inr d" "gd_outcome d = AutoExecute"
      "exec_alert (iso_text t) intent d st = None"
    and rail: "registry_get (xd_rails deps) (i_rail intent) = Some p" "pv_settle p intent (iso_text t) (xs_world st) = (Inr r0, w)"
      "pv_verifyReceipt p (r0\<lparr>r_providerId := Some (pv_id p)\<rparr>) w = Inr v"
  obtains r st' where "execute deps (iso_text t) intent att st = (Inr r, st')" "xr_status r = Settled"
proof -
  obtain r st' where run: "execute deps (iso_text t) intent att st = (Inr r, st')"
    using execute_answers [OF assms(1,2)] by blast
  from run have "xr_status r = Settled"
  proof (cases rule: execute_cases)
    case stopped
    obtain inputs where "capture_inputs deps (xs_store st) (iso_text t) intent att = Inr inputs"
      using capture_inputs_ok [OF assms(1)] by blast
    with stopped assms(3) gate show ?thesis
      by (simp add: execute_decide_def exec_gate_def exec_alert_def escalate_def)
  next
    case (settled d' st1 out st2)
    from settled(1) execute_decide_world have "xs_world st1 = xs_world st" by blast
    with settle_succeeds [of deps intent p "iso_text t" st1 r0 w v] rail settled(2)
    have "out = Inr (r0\<lparr>r_providerId := Some (pv_id p)\<rparr>, v)" by auto
    with settled(3) show ?thesis
      by (auto simp: execute_record_def exec_result_def elim!: file_intent_cases)
  qed
  with run show thesis by (rule that)
qed

lemma approve_settles:
  assumes "getIntent (xs_store st) i = Some si" "si_status si = Pending" "haltReason deps (xs_store st) = None"
    and gate: "exec_gate deps now (si_intent si) None st = Inr d" "gd_outcome d \<noteq> Block"
      "requiresChallenge deps (si_intent si) d \<longrightarrow> ack"
    and rail: "registry_get (xd_rails deps) (i_rail (si_intent si)) = Some p"
      "pv_settle p (si_intent si) now (xs_world st) = (Inr r0, w)"
      "pv_verifyReceipt p (r0\<lparr>r_providerId := Some (pv_id p)\<rparr>) w = Inr v"
  obtains r st' where "approve deps now i why ack st = (Inr r, st')" "xr_status r = Settled" "xs_world st' = w"
    "getIntent (xs_store st') i =
       Some (si\<lparr>si_status := Settled, si_settledAt := Some (r_settledAt r0), si_receiptId := Some (r_id r0)\<rparr>)"
proof -
  let ?rc = "r0\<lparr>r_providerId := Some (pv_id p)\<rparr>"
  let ?u = "no_update\<lparr>iu_status := Some Settled, iu_settledAt := Some (r_settledAt ?rc), iu_receiptId := Some (r_id ?rc)\<rparr>"
  define st1 where "st1 = record_decision deps (approval_payload i d why ack) now st"
  have dec: "approve_decide deps now i why ack st = (ToRail d, st1)"
    using assms(1-3) gate by (auto simp: approve_decide_def exec_gate_def st1_def Let_def)
  obtain st2 where s: "settle deps (si_intent si) now st1 = (Inr (?rc, v), st2)" "xs_world st2 = w"
    using settle_succeeds [of deps "si_intent si" p now st1 r0 w v] rail by (auto simp: st1_def)
  have "getIntent (xs_store st2) i = Some si"
    using settle_meta(3) [OF s(1)] assms(1) by (simp add: getIntent_def st1_def)
  then obtain s' where s': "updateIntent i ?u (xs_store st2) = Inr s'" "getIntent s' i = Some (apply_update ?u si)"
    by (auto simp: updateIntent_def getIntent_def omap.get_put)
  have run: "approve deps now i why ack st =
      (Inr (exec_result i Settled d (Some ?rc) (Some v)), recordOutcome True (st2\<lparr>xs_store := s'\<rparr>))"
    using dec s(1) assms(1) s'(1) by (simp add: approve_def approve_record_def change_intent_def)
  show thesis
    by (rule that [OF run]) (use s(2) s'(2) in \<open>simp_all add: exec_result_def apply_update_def no_update_def\<close>)
qed

section \<open>Properties\<close>

text \<open>
  Fact: every submission is answered. On an ISO clock, whatever the rail does, an execution under an
  id that is not on file returns a result, and the intent is on file with the status of the result.
\<close>

theorem submission_answered:
  assumes "clock_ok deps t" "getIntent (xs_store st) (i_id intent) = None"
  shows "\<exists>r st' si. execute deps (iso_text t) intent att st = (Inr r, st') \<and> xr_intentId r = i_id intent \<and>
    getIntent (xs_store st') (i_id intent) = Some si \<and> si_intent si = intent \<and> si_status si = xr_status r"
proof -
  obtain r st' where run: "execute deps (iso_text t) intent att st = (Inr r, st')"
    using execute_answers [OF assms] by blast
  from run execute_stored [OF run] show ?thesis by blast
qed

text \<open>
  Property C11: what is authorised is paid. If nothing halts the kernel, the gate auto-executes a payment with
  an id of its own, the risk-chain detector is quiet and the rail settles, then the payment settles with one
  call of the rail and is on file under the mandate that the gate named.
\<close>

theorem authorised_payment_settles:
  assumes "clock_ok deps t" "getIntent (xs_store st) (i_id intent) = None" "haltReason deps (xs_store st) = None"
    and "exec_gate deps (iso_text t) intent att st = Inr d" "gd_outcome d = AutoExecute"
      "exec_alert (iso_text t) intent d st = None"
    and "registry_get (xd_rails deps) (i_rail intent) = Some p" "pv_settle p intent (iso_text t) (xs_world st) = (Inr r0, w)"
      "pv_verifyReceipt p (r0\<lparr>r_providerId := Some (pv_id p)\<rparr>) w = Inr v"
  shows "\<exists>r st'. execute deps (iso_text t) intent att st = (Inr r, st') \<and> xr_status r = Settled \<and> xs_world st' = w \<and>
    getIntent (xs_store st') (i_id intent) =
      Some (stored intent Settled (gd_mandateId d) (gd_reasons d) (Some (r_settledAt r0)) (Some (r_id r0)))"
proof -
  obtain r st' where run: "execute deps (iso_text t) intent att st = (Inr r, st')" "xr_status r = Settled"
    using execute_settles [OF assms] .
  have "xs_world st' = w \<and> getIntent (xs_store st') (i_id intent) =
      Some (stored intent Settled (gd_mandateId d) (gd_reasons d) (Some (r_settledAt r0)) (Some (r_id r0)))"
    using run assms(4,7,8) by (elim execute_settledE) auto
  with run show ?thesis by blast
qed

text \<open>
  Fact: what the operator approves is paid. A parked payment that the gate, run again, does not block
  settles on an approval, acknowledged where that is required, when nothing halts the kernel and the rail
  settles; its record keeps its mandate and its reasons.
\<close>

theorem approved_payment_settles:
  assumes "getIntent (xs_store st) i = Some si" "si_status si = Pending" "haltReason deps (xs_store st) = None"
    and "exec_gate deps now (si_intent si) None st = Inr d" "gd_outcome d \<noteq> Block"
      "requiresChallenge deps (si_intent si) d \<longrightarrow> ack"
    and "registry_get (xd_rails deps) (i_rail (si_intent si)) = Some p"
      "pv_settle p (si_intent si) now (xs_world st) = (Inr r0, w)"
      "pv_verifyReceipt p (r0\<lparr>r_providerId := Some (pv_id p)\<rparr>) w = Inr v"
  shows "\<exists>r st'. approve deps now i why ack st = (Inr r, st') \<and> xr_status r = Settled \<and> xs_world st' = w \<and>
    getIntent (xs_store st') i =
      Some (si\<lparr>si_status := Settled, si_settledAt := Some (r_settledAt r0), si_receiptId := Some (r_id r0)\<rparr>)"
  using approve_settles [OF assms, of why] by blast

section \<open>On the concrete kernel\<close>

lemma example_clock: "clock_ok example_deps 1700000000000"
  unfolding clock_ok_def by (simp add: example_deps_def DEFAULT_GATE_CONFIG_def iso_range_def) code_simp

lemma example_ready:
  "unsettled [parked_example]" "unsettled []"
  "\<And>extra. unsettled extra \<Longrightarrow> haltReason example_deps (xs_store (example_state extra)) = None"
  "registry_get (xd_rails example_deps) (i_rail gate_example_intent) = Some example_rail"
  "\<And>extra. xs_world (example_state extra) = 0"
proof -
  show "unsettled [parked_example]" "unsettled []" "xs_world (example_state extra) = 0" for extra
    by (simp_all add: unsettled_def parked_example_def stored_def example_state_def)
  show "haltReason example_deps (xs_store (example_state extra)) = None" if "unsettled extra" for extra
    using example_store_facts(6) [OF that, of example_deps] by (simp add: example_deps_def breaker_threshold_def)
  show "registry_get (xd_rails example_deps) (i_rail gate_example_intent) = Some example_rail"
    using example_provider by (simp add: gate_example_intent_def)
qed

theorem submission_answered_witness:
  "\<exists>r (st' :: nat exec_state). execute example_deps (iso_text 1700000000000) (gate_example_intent\<lparr>i_amount := 70000\<rparr>) None
     (example_state []) = (Inr r, st')"
proof -
  have "getIntent (xs_store (example_state [])) (i_id (gate_example_intent\<lparr>i_amount := 70000\<rparr>)) = None"
    by (simp add: getIntent_def example_state_def gate_example_intent_def js_def)
  from submission_answered [OF example_clock this] show ?thesis by blast
qed

theorem authorised_payment_settles_witness:
  "\<exists>r (st' :: nat exec_state). execute example_deps (iso_text 1700000000000) gate_example_intent None (example_state []) =
     (Inr r, st') \<and> xr_status r = Settled \<and> xs_world st' = 1"
proof -
  obtain d where d: "exec_gate example_deps (iso_text 1700000000000) gate_example_intent None (example_state []) = Inr d"
    "gd_outcome d = AutoExecute"
    using example_gate [OF example_ready(2)] unfolding example_now_def by blast
  obtain r0 where r0: "pv_settle example_rail gate_example_intent (iso_text 1700000000000) 0 = (Inr r0, 1)"
    "pv_verifyReceipt example_rail (r0\<lparr>r_providerId := Some (pv_id example_rail)\<rparr>) 1 = Inr True"
    using example_receipt [of 0] unfolding example_now_def by auto
  have "getIntent (xs_store (example_state [])) (i_id gate_example_intent) = None"
    by (simp add: getIntent_def example_state_def gate_example_intent_def js_def)
  moreover have "exec_alert (iso_text 1700000000000) gate_example_intent d (example_state []) = None"
    using example_store_facts(4) [OF example_ready(2)]
    by (simp add: exec_alert_def evaluateRiskChain_None_iff recent_decisions_def smurfing_def splitting_def probing_def
        same_payee_auto_def List.map_filter_simps)
  ultimately show ?thesis
    using authorised_payment_settles [OF example_clock, of "example_state []" gate_example_intent None d example_rail r0 1 True]
      example_ready d r0 by auto
qed

theorem approved_payment_settles_witness:
  "\<exists>r (st' :: nat exec_state). approve example_deps example_now (js ''pi_1'') (js ''fine'') True (example_state [parked_example]) =
     (Inr r, st') \<and> xr_status r = Settled \<and> xs_world st' = 1"
proof -
  obtain d where d: "exec_gate example_deps example_now gate_example_intent None (example_state [parked_example]) = Inr d"
    "gd_outcome d = AutoExecute"
    using example_gate [OF example_ready(1)] by blast
  obtain r0 where r0: "pv_settle example_rail gate_example_intent example_now 0 = (Inr r0, 1)"
    "pv_verifyReceipt example_rail (r0\<lparr>r_providerId := Some (pv_id example_rail)\<rparr>) 1 = Inr True"
    using example_receipt [of 0] by auto
  from example_lookup example_ready d r0 show ?thesis
    using approved_payment_settles [of "example_state [parked_example]" "js ''pi_1''" parked_example example_deps example_now
        d True example_rail r0 1 True "js ''fine''"] by auto
qed

end
