(* ===== verification/Ingress_Promises.thy ===== *)
theory Ingress_Promises
  imports Ingress Executor_Liveness
begin

text \<open>
  What the HTTP ingress (\<open>src/ingress/server.ts\<close>, \<open>src/agent/schema.ts\<close>) promises on top of the executor:
  only drafts of the declared shape reach the books, whatever the body of a request holds, and every
  request is answered.
\<close>

section \<open>What the schema admits\<close>

text \<open>The declared shape: texts that are not empty, an amount that a safe positive integer holds.\<close>

definition typed_intent :: "payment_intent \<Rightarrow> bool" where
  "typed_intent intent \<longleftrightarrow>
     i_payee intent \<noteq> [] \<and> i_payeeClass intent \<noteq> [] \<and> i_currency intent \<noteq> [] \<and> i_rationale intent \<noteq> [] \<and>
     (\<exists>n :: nat. 0 < n \<and> n < 2 ^ 53 \<and> i_amount intent = of_nat n)"

definition typed_books :: "'r exec_state \<Rightarrow> bool" where
  "typed_books st \<longleftrightarrow> (\<forall>(i, si) \<in> set (st_intents (xs_store st)). typed_intent (si_intent si))"

lemma positive_int_SomeD:
  assumes "positive_int j = Some x"
  shows "\<exists>n :: nat. 0 < n \<and> n < 2 ^ 53 \<and> x = of_nat n"
proof -
  from assms have x: "is_integer x" "0 < x" "x \<le> 9007199254740991"
    by (auto simp: positive_int_def split: json.splits if_splits)
  from x(1) obtain k :: int where k: "x = of_int k" unfolding is_integer_def by (metis of_int_floor_cancel)
  from x(2,3) have "0 < k" "k \<le> 9007199254740991" unfolding k by simp_all
  then show ?thesis by (intro exI [of _ "nat k"]) (simp add: k)
qed

lemma nonempty_string_SomeD: "nonempty_string j = Some s \<Longrightarrow> s \<noteq> []"
  by (auto simp: nonempty_string_def split: json.splits if_splits)

lemma parse_draft_typed: "parse_draft j = Some d \<Longrightarrow> typed_intent (intent_of_draft d i now)"
  by (auto simp: parse_draft_def typed_intent_def intent_of_draft_def
      dest!: positive_int_SomeD nonempty_string_SomeD split: option.splits)

lemma typed_books_filed: "filed intent P st st' \<Longrightarrow> typed_books st \<Longrightarrow> typed_intent intent \<Longrightarrow> typed_books st'"
  by (auto simp: filed_def typed_books_def)

lemma submit_intent_typed:
  assumes "typed_books st" "submit_intent deps req st = (res, st')"
  shows "typed_books st'"
proof (cases "case id_parse deps (ig_body req) of None \<Rightarrow> None | Some j \<Rightarrow> parse_draft j")
  case None
  with assms show ?thesis by (auto simp: submit_intent_def)
next
  case (Some d)
  then have typed: "typed_intent (intent_of_draft d (ig_newId req) (ig_created req))"
    by (auto intro: parse_draft_typed split: option.splits)
  obtain out st1 where run: "execute (id_exec deps) (ig_now req) (intent_of_draft d (ig_newId req) (ig_created req))
      (Some (case id_attestation deps of Some f \<Rightarrow> f (ig_auth req) | None \<Rightarrow> AttNone)) st = (out, st1)" by fastforce
  from typed_books_filed [OF execute_filed [OF run] assms(1) typed] have "typed_books st1" .
  then have remembered: "typed_books (st1\<lparr>xs_store := rememberKey key i (xs_store st1)\<rparr>)" for key i
    by (simp add: typed_books_def rememberKey_def setMeta_def)
  from \<open>typed_books st1\<close> remembered assms(2) show ?thesis
    unfolding submit_intent_def Some option.case Let_def run prod.case
    by (cases out) (auto split: option.splits if_splits)
qed

lemma handleIngress_cases:
  assumes "handleIngress deps req st = (res, st')"
  obtains (plain) r where "res = Inr r" "st' = st"
  | (submitted) "submit_intent deps req st = (res, st')"
  using assms
  by (auto simp: handleIngress_def ingress_routes_def post_intent_def split: if_splits option.splits)

section \<open>Properties\<close>

text \<open>
  Property C23: only typed payments reach the books. Whatever text a request carries and whatever the parser
  makes of it, after the request every intent on file has a payee, a class, a currency and a rationale that are not
  empty and an amount that is a positive safe integer, if every intent had before.
\<close>

theorem ingress_books_typed:
  assumes "typed_books st"
  shows "typed_books (snd (handleIngress deps req st))"
proof -
  obtain res st' where run: "handleIngress deps req st = (res, st')" by fastforce
  from run have "typed_books st'"
    by (cases rule: handleIngress_cases) (use assms submit_intent_typed in auto)
  with run show ?thesis by simp
qed

text \<open>
  Property C22: every request is answered. On an ISO clock, with a fresh id for a new intent, the handler
  returns a response and throws nothing, whatever the request, the parser and the rail do.
\<close>

theorem ingress_always_answers:
  assumes "clock_ok (id_exec deps) t" "ig_now req = iso_text t" "getIntent (xs_store st) (ig_newId req) = None"
  shows "\<exists>status body. fst (handleIngress deps req st) = Inr (status, body)"
proof -
  obtain res st' where run: "handleIngress deps req st = (res, st')" by fastforce
  then show ?thesis
  proof (cases rule: handleIngress_cases)
    case (plain r)
    with run show ?thesis by (cases r) simp
  next
    case submitted
    have "i_id (intent_of_draft d (ig_newId req) (ig_created req)) = ig_newId req" for d
      by (simp add: intent_of_draft_def)
    then have "execute (id_exec deps) (ig_now req) (intent_of_draft d (ig_newId req) (ig_created req)) att st \<noteq> (Inl e, st')"
      for d att e
      using execute_answers [OF assms(1), of st "intent_of_draft d (ig_newId req) (ig_created req)" att] assms(2,3) by auto
    with submitted run show ?thesis by (auto elim!: submit_cases)
  qed
qed

theorem ingress_books_typed_witness:
  "typed_books (snd (handleIngress example_ingress example_submission (example_state [])))"
proof -
  have "typed_intent (si_intent earlier_intent)"
    by (simp add: typed_intent_def earlier_intent_def stored_def gate_example_intent_def js_def
        exI [of _ "2500 :: nat"])
  then have "typed_books (example_state [])" by (simp add: typed_books_def example_state_def)
  then show ?thesis by (rule ingress_books_typed)
qed

theorem ingress_always_answers_witness:
  "\<exists>status body. fst (handleIngress example_ingress example_submission (example_state [])) = Inr (status, body)"
proof (rule ingress_always_answers)
  show "clock_ok (id_exec example_ingress) 1700000000000" using example_clock by (simp add: example_ingress_def)
  show "ig_now example_submission = iso_text 1700000000000" by (simp add: example_submission_def example_now_def)
  show "getIntent (xs_store (example_state [])) (ig_newId example_submission) = None"
    by (simp add: getIntent_def example_state_def example_submission_def js_def)
qed

end
