(* ===== verification/Spec2Isabelle.thy ===== *)
theory Spec2Isabelle
  imports Executor_Promises Executor_Ledger Interleaving Sdk Ingress Enforcement Key_Custody Fx
    Mandate_Card X402_Proxy Earning_Desk Multi_Tenant Compliance Audit_Export Trajectory
    Spend_Trust Replay_Sim Delegation_Signature Ap2 Ap2_Rail Http_Signature
    Siwa Personhood Ingress_Promises
begin

text \<open>
  AgentWorth (src/src) is a payment kernel for autonomous agents. An operator grants mandates (a scope of
  payees, a currency, rails, a cap per transaction and one per period, an expiry). An agent submits
  payment intents; a pure gate decides each of them on the mandates, the caps, the deny rules, the trust
  of the payee and the risk; an executor settles what the gate lets through on a rail, parks what needs
  the operator, and records every step in a signed, hash-linked audit log. Around this kernel stand the
  facade of the SDK, an HTTP ingress, a payment proxy, delegations, compliance reports and evaluations of
  recorded behaviour. This library translates that code, operation by operation, and proves what it
  promises.

  \<^bold>\<open>Conventions.\<close> A string is a list of UTF-16 code units (\<open>str\<close>), a number a rational
  (\<open>jsnum\<close>), a \<open>bigint\<close> an integer, a byte an 8-bit word, a \<open>Map\<close> an association list in insertion order
  (\<open>omap\<close>). A thrown error is \<open>Inl e\<close>. State is passed explicitly: \<open>exec_state\<close> holds the store, the log,
  the breaker and the outside world behind the rails, whose type is a parameter. Clock readings, random
  identifiers and services are arguments. An asynchronous operation is one atomic step, except in
  Interleaving, where each await point of an execution is a step of its own.

  \<^bold>\<open>Theories and the code they model.\<close>
  \<^item> JS_Prelude, JS_Date, JS_Number, JS_Regex: what the code uses of its language (strings, numbers, Map,
    Date with its ISO text, \<open>Number(s)\<close>, regular expressions), with the facts on dates and texts
    that the bounds on periods need.
  \<^item> Core_Types (core/types.ts), Risk (core/risk.ts, trust.ts, reputation.ts), Fx (core/fx.ts), Deny_List
    (core/denyList.ts, payeeNormalize.ts), Gate (core/gate.ts): the decision, its soundness and
    completeness against declarative conditions, and what it does not depend on.
  \<^item> Canonical_Json, Audit_Payload, Audit_Log (core/audit.ts), Key_Custody (core/keyCustody.ts): canonical
    text, the payloads, the chain; tamper evidence up to collisions of the hash function.
  \<^item> Memory_Store (core/store.ts, store/memoryStore.ts), Multi_Tenant (store/multiTenant.ts), Risk_Chain
    (core/riskChain.ts), Rails (rails/provider.ts, registry.ts, fakeRail.ts, networkRail.ts,
    governedWallet.ts, core/credentialBroker.ts), Enforcement (core/enforcement.ts).
  \<^item> Executor (core/executor.ts) with Executor_Safety, Executor_Promises, Executor_Ledger, Executor_Liveness
    and Executor_Example: who reaches a rail, what is on record afterwards, budgets along runs, what is sure
    to be answered and paid;
    Interleaving: overlapping executions as a step relation, its invariant, and a schedule that overspends.
  \<^item> Sdk (sdk/index.ts, core/mandateTemplates.ts, streaming.ts, shield.ts): the facade as a state machine.
  \<^item> Ingress and Ingress_Promises (ingress/*.ts, agent/schema.ts), X402_Proxy (proxy/x402Proxy.ts), Earning_Desk
    (earn/earningDesk.ts): the ways in.
  \<^item> Mandate_Card (core/mandateCard.ts), Compliance (compliance/*.ts), Audit_Export (audit/export.ts),
    Trajectory (evals/process.ts), Replay_Sim (obs/replaySim.ts), Spend_Trust (benchmark/spendTrust.ts,
    evals/passK.ts): what is read out of mandates and recorded logs.
  \<^item> Abi_Bytes, Delegation, Delegation_Signature (erc7710/index.ts): mandates as on-chain delegations.
  \<^item> Ap2 (ap2/index.ts), Ap2_Rail (rails/ap2/*.ts, disclosure/settleGuard.ts): carts and mandates of the agent
    payments protocol: what a merchant's signature and a payment's authorisation fix, the rail that presents mandates.
  \<^item> Http_Signature (identity/verifier.ts, erc8128.ts): signed requests, what their signature covers and what
    it leaves open.
  \<^item> Siwa (identity/siwa.ts): the sign-in message of an agent, printed, parsed and verified; Personhood
    (identity/passport.ts, worldId.ts, worldAgent.ts): what a proof of a person adds to an identity.

  \<^bold>\<open>How the parts fit.\<close> Locales state the contracts between them, and each is interpreted on the model's own
  definitions: the dictionary of JS_Prelude, the trail that every audit operation extends, the growth of the
  log, the authority a settlement needs, the well-formedness of the store, the facade's operations
  that keep an invariant, the fields of fixed width of the byte encodings. The lemmas of a theory give each
  operation on each branch (the \<open>_cases\<close> and \<open>E\<close> rules), then what it preserves, then the property.

  \<^bold>\<open>Bounds.\<close> No definition uses fuel: every recursion is structural or decreases a measure. Facts about periods
  hold for the years 100 to 9999, where the ISO text of an instant has four digits of the year and
  the order of texts is the order of time; facts about encoded terms for numbers within their fields.

  \<^bold>\<open>Arguments of the model.\<close> Hash and signature functions, key services, the JSON codec and the rendering of
  numbers, the rails' networks, the proxied server, the curve and the typed-data hash of the delegation
  rail. Properties that rely on them name the law they use (no collision among the entries at hand, a codec that
  reads back what it wrote, a signature that recovers its key), and each has a witness.

  \<^bold>\<open>Not modelled.\<close> Calls to language models and conversation loops, user-interface events, the command line,
  the SQL behind the durable stores, sockets and servers, and the packages the code imports. Rounding
  of doubles, NaN and the infinities are left out of the numbers. The manifest lists every source file with its status.
\<close>

end
